(* ===== verification/Prelude.thy ===== *)
theory Prelude
  imports Complex_Main "HOL-Library.Word" "HOL-Library.List_Lexorder" "HOL-Library.Char_ord"
    "HOL-Library.AList"
begin

text \<open>
  The vocabulary every component shares: machine words, fixed-size byte arrays (Go's
  \<open>[20]byte\<close> and \<open>[32]byte\<close>), results (Go's pair of a value and an error, here a sum), the
  named collections of facts, and generic lemmas on lists, association lists and words.
\<close>

unbundle bit_operations_syntax

named_theorems go_std \<open>facts on the modelled part of the Go standard library\<close>
named_theorems index_rules \<open>facts on sorted lookup tables\<close>
named_theorems codec_rules \<open>facts on byte encodings\<close>

section \<open>Machine words\<close>

type_synonym u8 = "8 word"
type_synonym u32 = "32 word"
type_synonym u64 = "64 word"

text \<open>
  Go's \<open>int\<close> and \<open>int64\<close> are the same 64 bits read as two's complement (\<open>sint\<close>), so a
  conversion \<open>uint64(x)\<close> of an \<open>int\<close> is the identity on words.
\<close>

type_synonym i64 = "64 word"

section \<open>Fixed-size byte arrays\<close>

text \<open>
  \<open>'n byte_array\<close> is Go's \<open>[n]byte\<close>: a value with exactly \<open>n\<close> bytes. Arrays are compared by
  value with \<open>==\<close> and ordered by \<open>bytes.Compare\<close>, the lexicographic order of their bytes.
\<close>

typedef (overloaded) ('n::len) byte_array = "{xs :: u8 list. length xs = LENGTH('n)}"
  morphisms array_bytes mk_array
proof
  show "replicate LENGTH('n) 0 \<in> {xs :: u8 list. length xs = LENGTH('n)}" by simp
qed

lemma array_bytes_abstype [code abstype]: "mk_array (array_bytes a) = a"
  by (rule array_bytes_inverse)

type_synonym hash20 = "20 byte_array"
type_synonym hash32 = "32 byte_array"

text \<open>The zero value of an array, and \<open>copy(arr[:], src)\<close> into a zero array: the first bytes of
  \<open>src\<close>, the rest zero.\<close>

definition zero_array :: "'n::len byte_array" where
  "zero_array = mk_array (replicate LENGTH('n) 0)"

definition copy_array :: "u8 list \<Rightarrow> 'n::len byte_array" where
  "copy_array src = mk_array (take LENGTH('n) (src @ replicate LENGTH('n) 0))"

lemma array_bytes_zero [simp, code abstract]:
  "array_bytes (zero_array :: 'n::len byte_array) = replicate LENGTH('n) 0"
  by (simp add: zero_array_def mk_array_inverse)

lemma array_bytes_copy_array [code abstract]:
  "array_bytes (copy_array src :: 'n::len byte_array)
    = take LENGTH('n) (src @ replicate LENGTH('n) 0)"
  by (simp add: copy_array_def mk_array_inverse)

instantiation byte_array :: (len) equal
begin

definition equal_byte_array :: "'a byte_array \<Rightarrow> 'a byte_array \<Rightarrow> bool" where
  "equal_byte_array a b \<longleftrightarrow> array_bytes a = array_bytes b"

instance
  by standard (simp add: equal_byte_array_def array_bytes_inject)

end

instantiation byte_array :: (len) linorder
begin

definition less_eq_byte_array :: "'a byte_array \<Rightarrow> 'a byte_array \<Rightarrow> bool" where
  "less_eq_byte_array a b \<longleftrightarrow> array_bytes a \<le> array_bytes b"

definition less_byte_array :: "'a byte_array \<Rightarrow> 'a byte_array \<Rightarrow> bool" where
  "less_byte_array a b \<longleftrightarrow> array_bytes a < array_bytes b"

instance
proof
  fix x y z :: "'a byte_array"
  show "(x < y) = (x \<le> y \<and> \<not> y \<le> x)"
    by (simp add: less_eq_byte_array_def less_byte_array_def less_le_not_le)
  show "x \<le> x" by (simp add: less_eq_byte_array_def)
  show "x \<le> y \<Longrightarrow> y \<le> z \<Longrightarrow> x \<le> z" by (simp add: less_eq_byte_array_def)
  show "x \<le> y \<Longrightarrow> y \<le> x \<Longrightarrow> x = y"
    by (simp add: less_eq_byte_array_def array_bytes_inject [symmetric])
  show "x \<le> y \<or> y \<le> x" by (simp add: less_eq_byte_array_def linear)
qed

end

instantiation byte_array :: (len) size
begin

definition size_byte_array :: "'a byte_array \<Rightarrow> nat" where
  "size_byte_array a = length (array_bytes a)"

instance ..

end

lemma length_array_bytes [simp]: "length (array_bytes (a :: 'n::len byte_array)) = LENGTH('n)"
  using array_bytes [of a] by simp

lemma copy_array_bytes [simp]: "copy_array (array_bytes a) = (a :: 'n::len byte_array)"
  by (simp add: array_bytes_inject [symmetric] array_bytes_copy_array)

lemma array_bytes_copy:
  "length xs = LENGTH('n) \<Longrightarrow> array_bytes (copy_array xs :: 'n::len byte_array) = xs"
  by (simp add: array_bytes_copy_array)

lemma copy_array_inj:
  "length xs = LENGTH('n) \<Longrightarrow> length ys = LENGTH('n) \<Longrightarrow>
    (copy_array xs = (copy_array ys :: 'n::len byte_array)) = (xs = ys)"
  by (metis array_bytes_copy)

lemma array_eq_iff: "(a = b) = (array_bytes a = array_bytes b)"
  by (simp add: array_bytes_inject)

section \<open>Bytes and characters\<close>

text \<open>Go's conversions \<open>string(b)\<close> and \<open>[]byte(s)\<close>: a string is its bytes.\<close>

definition bytes_chars :: "u8 list \<Rightarrow> string" where
  "bytes_chars = map (\<lambda>b. char_of (unat b))"

definition chars_bytes :: "string \<Rightarrow> u8 list" where
  "chars_bytes = map (\<lambda>c. of_nat (of_char c))"

lemma chars_bytes_chars [simp]: "chars_bytes (bytes_chars p) = p"
proof -
  have "of_nat (unat b mod 256) = (b :: u8)" for b
    using unsigned_less [of b, where 'a = nat] by simp
  then show ?thesis by (simp add: chars_bytes_def bytes_chars_def comp_def map_idI)
qed

lemma bytes_chars_bytes [simp]: "bytes_chars (chars_bytes s) = s"
proof -
  have "char_of (unat (of_nat (of_char c) :: u8)) = c" for c :: char
    by (simp add: unat_of_nat)
  then show ?thesis by (simp add: chars_bytes_def bytes_chars_def comp_def map_idI)
qed

section \<open>Results\<close>

text \<open>
  A Go function that returns \<open>(T, error)\<close> is a function into \<open>'e + 'a\<close>: \<open>Inl\<close> of the error, or
  \<open>Inr\<close> of the value. \<open>bindR\<close> is the \<open>if err != nil { return ..., err }\<close> of the source.
\<close>

definition bindR :: "'e + 'a \<Rightarrow> ('a \<Rightarrow> 'e + 'b) \<Rightarrow> 'e + 'b" where
  "bindR r k = (case r of Inl e \<Rightarrow> Inl e | Inr x \<Rightarrow> k x)"

lemma bindR_simps [simp]:
  "bindR (Inl e) k = Inl e"
  "bindR (Inr x) k = k x"
  by (simp_all add: bindR_def)

lemma bindR_Inr_iff: "bindR r k = Inr y \<longleftrightarrow> (\<exists>x. r = Inr x \<and> k x = Inr y)"
  by (cases r) auto

lemma bindR_cong [fundef_cong]:
  "r = r' \<Longrightarrow> (\<And>x. r' = Inr x \<Longrightarrow> k x = k' x) \<Longrightarrow> bindR r k = bindR r' k'"
  by (cases r') auto

section \<open>Generic lemmas\<close>

lemma sorted_nth_less_iff:
  fixes xs :: "'a::linorder list"
  assumes "sorted xs" "i < j" "j < length xs" "distinct xs"
  shows "xs ! i < xs ! j"
  using assms by (metis less_imp_le_nat nth_eq_iff_index_eq order_less_trans sorted_nth_mono
      order_le_less less_irrefl)

lemma sorted_sort_eq: "sorted xs \<Longrightarrow> sort xs = xs"
  by (rule sorted_sort_id)

lemma sort_eqI:
  "distinct xs \<Longrightarrow> distinct ys \<Longrightarrow> set xs = set ys \<Longrightarrow> sort xs = sort ys"
  by (rule sorted_distinct_set_unique) simp_all

lemma map_of_dom_fst: "dom (map_of m) = fst ` set m"
  by (rule dom_map_of_conv_image_fst)

lemma prefix_takeD: "take (length p) s = p \<Longrightarrow> s = p @ drop (length p) s"
  by (metis append_take_drop_id)

lemma list_all_update:
  "list_all P ws \<Longrightarrow> P (k, w) \<Longrightarrow> list_all P (AList.update k w ws)"
  by (induction ws) auto

lemma length_update:
  "length (AList.update k w ws) = (if k \<in> fst ` set ws then length ws else Suc (length ws))"
  by (induction ws) auto

lemma map_of_filter_key:
  "distinct (map fst ws) \<Longrightarrow>
    map_of (filter P ws) k = (case map_of ws k of None \<Rightarrow> None | Some w \<Rightarrow> if P (k, w) then Some w else None)"
  by (induction ws) (auto simp: map_of_eq_None_iff split: option.split dest: map_of_SomeD)

lemma distinct_filter_fst: "distinct (map fst ws) \<Longrightarrow> distinct (map fst (filter P ws))"
  by (induction ws) auto

lemma map_of_map_value: "map_of (map (\<lambda>(k, w). (k, f w)) ws) k = map_option f (map_of ws k)"
  by (induction ws) auto

end
