(* ===== verification/GoStd.thy ===== *)
theory GoStd
  imports Prelude
begin

text \<open>
  The part of the Go standard library the program uses, as functions: \<open>sort.Search\<close>,
  \<open>bytes.Compare\<close>, the \<open>strings\<close> functions, \<open>strconv\<close> in base ten, \<open>%d\<close> of \<open>fmt\<close>,
  \<open>binary.LittleEndian\<close> and \<open>hex.EncodeToString\<close>. Text is a list of 8-bit characters, as a Go
  string is a list of bytes. Indices and lengths are natural numbers.
\<close>

section \<open>sort.Search\<close>

text \<open>\<open>i, j := 0, n; for i < j { h := (i+j)/2; if !f(h) { i = h+1 } else { j = h } }; return i\<close>\<close>

function sort_Search_loop :: "(nat \<Rightarrow> bool) \<Rightarrow> nat \<Rightarrow> nat \<Rightarrow> nat" where
  "sort_Search_loop f i j =
     (if i < j then
        (let h = (i + j) div 2
         in if \<not> f h then sort_Search_loop f (h + 1) j else sort_Search_loop f i h)
      else i)"
  by pat_completeness auto
termination
  by (relation "measure (\<lambda>(f, i, j). j - i)") auto

declare sort_Search_loop.simps [simp del]

definition sort_Search :: "nat \<Rightarrow> (nat \<Rightarrow> bool) \<Rightarrow> nat" where
  "sort_Search n f = sort_Search_loop f 0 n"

lemma sort_Search_loop_done: "\<not> i < j \<Longrightarrow> sort_Search_loop f i j = i"
  by (simp add: sort_Search_loop.simps)

lemma sort_Search_loop_right:
  "i < j \<Longrightarrow> \<not> f ((i + j) div 2) \<Longrightarrow>
    sort_Search_loop f i j = sort_Search_loop f ((i + j) div 2 + 1) j"
  by (simp add: sort_Search_loop.simps [of f i j])

lemma sort_Search_loop_left:
  "i < j \<Longrightarrow> f ((i + j) div 2) \<Longrightarrow>
    sort_Search_loop f i j = sort_Search_loop f i ((i + j) div 2)"
  by (simp add: sort_Search_loop.simps [of f i j])

text \<open>What the loop keeps: everything left of \<open>i\<close> fails, everything from \<open>j\<close> on succeeds. For a
  predicate that stays true once it is true the result is the boundary.\<close>

definition boundary :: "nat \<Rightarrow> (nat \<Rightarrow> bool) \<Rightarrow> nat \<Rightarrow> bool" where
  "boundary n f r \<longleftrightarrow> r \<le> n \<and> (\<forall>k < r. \<not> f k) \<and> (\<forall>k. r \<le> k \<and> k < n \<longrightarrow> f k)"

lemma sort_Search_loop_boundary:
  assumes mono: "\<And>a b. a \<le> b \<Longrightarrow> b < n \<Longrightarrow> f a \<Longrightarrow> f b"
    and "i \<le> j" "j \<le> n" "\<forall>k < i. \<not> f k" "\<forall>k. j \<le> k \<and> k < n \<longrightarrow> f k"
  shows "boundary n f (sort_Search_loop f i j)"
  using assms(2-5)
proof (induction "j - i" arbitrary: i j rule: less_induct)
  case less
  show ?case
  proof (cases "i < j")
    case False
    with less.prems show ?thesis by (auto simp: sort_Search_loop_done boundary_def)
  next
    case True
    define h where "h = (i + j) div 2"
    have h: "i \<le> h" "h < j" using True by (auto simp: h_def)
    show ?thesis
    proof (cases "f h")
      case fh: True
      have "\<forall>k. h \<le> k \<and> k < n \<longrightarrow> f k" using mono fh by blast
      then have "boundary n f (sort_Search_loop f i h)"
        using less.hyps [of h i] h less.prems by auto
      then show ?thesis using True fh by (simp add: sort_Search_loop_left h_def)
    next
      case fh: False
      have "\<forall>k < h + 1. \<not> f k"
        using mono fh h less.prems by (metis Suc_eq_plus1 less_Suc_eq_le order_less_le_trans)
      then have "boundary n f (sort_Search_loop f (h + 1) j)"
        using less.hyps [of j "h + 1"] h less.prems by auto
      then show ?thesis using True fh by (simp add: sort_Search_loop_right h_def)
    qed
  qed
qed

lemma sort_Search_boundary:
  assumes "\<And>a b. a \<le> b \<Longrightarrow> b < n \<Longrightarrow> f a \<Longrightarrow> f b"
  shows "boundary n f (sort_Search n f)"
  unfolding sort_Search_def using assms by (rule sort_Search_loop_boundary) auto

lemma boundary_unique: "boundary n f r \<Longrightarrow> boundary n f r' \<Longrightarrow> r = r'"
  unfolding boundary_def
  by (rule linorder_cases [of r r']) (auto dest: spec [of _ r] spec [of _ r'])

section \<open>bytes.Compare\<close>

fun bytes_Compare :: "u8 list \<Rightarrow> u8 list \<Rightarrow> int" where
  "bytes_Compare [] [] = 0"
| "bytes_Compare [] (y # ys) = -1"
| "bytes_Compare (x # xs) [] = 1"
| "bytes_Compare (x # xs) (y # ys) =
     (if x < y then -1 else if y < x then 1 else bytes_Compare xs ys)"

lemma bytes_Compare_less_iff: "bytes_Compare xs ys < 0 \<longleftrightarrow> xs < ys"
  by (induction xs ys rule: bytes_Compare.induct) auto

lemma bytes_Compare_ge_iff [go_std]: "0 \<le> bytes_Compare xs ys \<longleftrightarrow> ys \<le> xs"
  using bytes_Compare_less_iff [of xs ys] by (simp add: linorder_not_less [symmetric])

lemma bytes_Compare_array [go_std]:
  "0 \<le> bytes_Compare (array_bytes a) (array_bytes b) \<longleftrightarrow> b \<le> a"
  by (simp add: bytes_Compare_ge_iff less_eq_byte_array_def)

section \<open>strings and bytes\<close>

definition HasPrefix :: "string \<Rightarrow> string \<Rightarrow> bool" where
  "HasPrefix s p \<longleftrightarrow> take (length p) s = p"

definition TrimPrefix :: "string \<Rightarrow> string \<Rightarrow> string" where
  "TrimPrefix s p = (if HasPrefix s p then drop (length p) s else s)"

lemma HasPrefix_append [go_std]: "HasPrefix (p @ s) p"
  by (simp add: HasPrefix_def)

lemma TrimPrefix_append [go_std]: "TrimPrefix (p @ s) p = s"
  by (simp add: TrimPrefix_def HasPrefix_def)

lemma HasPrefix_iff: "HasPrefix s p \<longleftrightarrow> (\<exists>r. s = p @ r)"
  by (metis HasPrefix_append HasPrefix_def append_take_drop_id)

text \<open>\<open>bytes.IndexByte\<close>: the first position of \<open>c\<close>, \<open>None\<close> for \<open>-1\<close>.\<close>

fun IndexByte :: "string \<Rightarrow> char \<Rightarrow> nat option" where
  "IndexByte [] c = None"
| "IndexByte (x # xs) c = (if x = c then Some 0 else map_option Suc (IndexByte xs c))"

lemma IndexByte_None_iff: "IndexByte s c = None \<longleftrightarrow> c \<notin> set s"
  by (induction s) auto

lemma IndexByte_Some_iff:
  "IndexByte s c = Some i \<longleftrightarrow> i < length s \<and> s ! i = c \<and> c \<notin> set (take i s)"
proof (induction s arbitrary: i)
  case Nil
  show ?case by simp
next
  case (Cons x xs)
  then show ?case by (cases i) auto
qed

lemma IndexByte_append [go_std]: "c \<notin> set p \<Longrightarrow> IndexByte (p @ c # s) c = Some (length p)"
  by (simp add: IndexByte_Some_iff)

text \<open>\<open>strings.Split\<close> with a one-byte separator, and \<open>strings.Join\<close>.\<close>

fun Split :: "char \<Rightarrow> string \<Rightarrow> string list" where
  "Split c [] = [[]]"
| "Split c (x # xs) =
     (if x = c then [] # Split c xs
      else (case Split c xs of [] \<Rightarrow> [[x]] | t # ts \<Rightarrow> (x # t) # ts))"

fun Join :: "string list \<Rightarrow> string \<Rightarrow> string" where
  "Join [] sep = []"
| "Join [t] sep = t"
| "Join (t # u # ts) sep = t @ sep @ Join (u # ts) sep"

lemma Split_not_Nil [simp]: "Split c s \<noteq> []"
  by (induction s) (auto split: list.splits)

lemma Split_no_sep: "c \<notin> set t \<Longrightarrow> Split c t = [t]"
  by (induction t) auto

lemma Split_append_sep: "c \<notin> set t \<Longrightarrow> Split c (t @ c # s) = t # Split c s"
  by (induction t) auto

lemma Split_Join [go_std]:
  "ts \<noteq> [] \<Longrightarrow> \<forall>t \<in> set ts. c \<notin> set t \<Longrightarrow> Split c (Join ts [c]) = ts"
  by (induction ts "[c]" rule: Join.induct) (auto simp: Split_no_sep Split_append_sep)

text \<open>
  \<open>TrimSpace\<close> strips Unicode white space at both ends. In UTF-8 a white space character is one
  of the byte sequences below (\<open>unicode.IsSpace\<close>: the six ASCII ones, U+0085, U+00A0, U+1680,
  U+2000 to U+200A, U+2028, U+2029, U+202F, U+205F and U+3000).
\<close>

definition space_seqs :: "string list" where
  "space_seqs =
     [[CHR 0x09], [CHR 0x0A], [CHR 0x0B], [CHR 0x0C], [CHR 0x0D], [CHR 0x20],
      [CHR 0xC2, CHR 0x85], [CHR 0xC2, CHR 0xA0], [CHR 0xE1, CHR 0x9A, CHR 0x80],
      [CHR 0xE2, CHR 0x80, CHR 0x80], [CHR 0xE2, CHR 0x80, CHR 0x81],
      [CHR 0xE2, CHR 0x80, CHR 0x82], [CHR 0xE2, CHR 0x80, CHR 0x83],
      [CHR 0xE2, CHR 0x80, CHR 0x84], [CHR 0xE2, CHR 0x80, CHR 0x85],
      [CHR 0xE2, CHR 0x80, CHR 0x86], [CHR 0xE2, CHR 0x80, CHR 0x87],
      [CHR 0xE2, CHR 0x80, CHR 0x88], [CHR 0xE2, CHR 0x80, CHR 0x89],
      [CHR 0xE2, CHR 0x80, CHR 0x8A], [CHR 0xE2, CHR 0x80, CHR 0xA8],
      [CHR 0xE2, CHR 0x80, CHR 0xA9], [CHR 0xE2, CHR 0x80, CHR 0xAF],
      [CHR 0xE2, CHR 0x81, CHR 0x9F], [CHR 0xE3, CHR 0x80, CHR 0x80]]"

function strip_front :: "string list \<Rightarrow> string \<Rightarrow> string" where
  "strip_front ps s =
     (case find (\<lambda>p. p \<noteq> [] \<and> HasPrefix s p) ps of
        None \<Rightarrow> s
      | Some p \<Rightarrow> strip_front ps (drop (length p) s))"
  by pat_completeness auto
termination
proof (relation "measure (\<lambda>(ps, s). length s)")
  fix ps :: "string list" and s p :: string
  assume "find (\<lambda>p. p \<noteq> [] \<and> HasPrefix s p) ps = Some p"
  then have "p \<noteq> [] \<and> HasPrefix s p" by (auto simp: find_Some_iff)
  then show "((ps, drop (length p) s), ps, s) \<in> measure (\<lambda>(ps, s). length s)"
    by (auto simp: HasPrefix_iff)
qed simp

declare strip_front.simps [simp del]

definition TrimSpace :: "string \<Rightarrow> string" where
  "TrimSpace s =
     rev (strip_front (map rev space_seqs) (rev (strip_front space_seqs s)))"

lemma strip_front_id:
  "\<forall>p \<in> set ps. p \<noteq> [] \<longrightarrow> \<not> HasPrefix s p \<Longrightarrow> strip_front ps s = s"
proof -
  assume "\<forall>p \<in> set ps. p \<noteq> [] \<longrightarrow> \<not> HasPrefix s p"
  then have "find (\<lambda>p. p \<noteq> [] \<and> HasPrefix s p) ps = None"
    by (auto simp: find_None_iff)
  then show ?thesis by (simp add: strip_front.simps)
qed

text \<open>A byte that begins no white space character, and one that ends none.\<close>

definition plain_first :: "char \<Rightarrow> bool" where
  "plain_first c \<longleftrightarrow> c \<notin> set (map hd space_seqs)"

definition plain_last :: "char \<Rightarrow> bool" where
  "plain_last c \<longleftrightarrow> c \<notin> set (map last space_seqs)"

lemma TrimSpace_id [go_std]:
  assumes "s \<noteq> []" "plain_first (hd s)" "plain_last (last s)"
  shows "TrimSpace s = s"
proof -
  have ne: "\<forall>p \<in> set space_seqs. p \<noteq> []" by (simp add: space_seqs_def)
  have "strip_front space_seqs s = s"
    using assms ne by (intro strip_front_id) (auto simp: HasPrefix_iff plain_first_def)
  moreover have "strip_front (map rev space_seqs) (rev s) = rev s"
    using assms ne
    by (intro strip_front_id) (auto simp: HasPrefix_iff plain_last_def rev_eq_append_conv
        dest!: arg_cong [of _ _ last])
  ultimately show ?thesis by (simp add: TrimSpace_def)
qed

lemma TrimSpace_Nil [simp]: "TrimSpace [] = []"
  by (simp add: TrimSpace_def strip_front_id HasPrefix_def)

section \<open>Decimal numbers\<close>

definition is_digit :: "char \<Rightarrow> bool" where
  "is_digit c \<longleftrightarrow> CHR ''0'' \<le> c \<and> c \<le> CHR ''9''"

definition digit_val :: "char \<Rightarrow> nat" where
  "digit_val c = of_char c - 48"

definition digit_char :: "nat \<Rightarrow> char" where
  "digit_char d = char_of (48 + d)"

text \<open>\<open>%d\<close> of an unsigned and of a signed integer.\<close>

fun show_nat :: "nat \<Rightarrow> string" where
  "show_nat n = (if n < 10 then [digit_char n] else show_nat (n div 10) @ [digit_char (n mod 10)])"

declare show_nat.simps [simp del]

definition show_int :: "int \<Rightarrow> string" where
  "show_int i = (if i < 0 then CHR ''-'' # show_nat (nat (- i)) else show_nat (nat i))"

text \<open>The number a string of digits denotes.\<close>

definition decimal_value :: "string \<Rightarrow> nat" where
  "decimal_value s = foldl (\<lambda>n c. n * 10 + digit_val c) 0 s"

lemma is_digit_iff: "is_digit c \<longleftrightarrow> 48 \<le> (of_char c :: nat) \<and> (of_char c :: nat) \<le> 57"
  by (simp add: is_digit_def less_eq_char_def)

lemma is_digit_char [simp]: "d < 10 \<Longrightarrow> is_digit (digit_char d)"
  by (simp add: is_digit_iff digit_char_def)

lemma digit_val_char [simp]: "d < 10 \<Longrightarrow> digit_val (digit_char d) = d"
  by (simp add: digit_val_def digit_char_def)

lemma digit_val_less: "is_digit c \<Longrightarrow> digit_val c < 10"
  unfolding is_digit_iff digit_val_def by linarith

lemma show_nat_not_Nil [simp]: "show_nat n \<noteq> []"
  by (subst show_nat.simps) simp

lemma show_nat_digits [go_std]: "\<forall>c \<in> set (show_nat n). is_digit c"
proof (induction n rule: show_nat.induct)
  case (1 n)
  then show ?case by (subst show_nat.simps) auto
qed

lemma decimal_value_snoc: "decimal_value (s @ [c]) = decimal_value s * 10 + digit_val c"
  by (simp add: decimal_value_def)

lemma decimal_value_show [go_std]: "decimal_value (show_nat n) = n"
proof (induction n rule: show_nat.induct)
  case (1 n)
  show ?case
  proof (cases "n < 10")
    case True
    then show ?thesis by (subst show_nat.simps) (simp add: decimal_value_def)
  next
    case False
    with 1 show ?thesis by (subst show_nat.simps) (simp add: decimal_value_snoc)
  qed
qed

lemma show_nat_inj [simp]: "show_nat m = show_nat n \<longleftrightarrow> m = n"
  by (metis decimal_value_show)

lemma digit_not_special:
  "is_digit c \<Longrightarrow> c \<noteq> CHR ''-'' \<and> c \<noteq> CHR ''+'' \<and> c \<noteq> CHR '','' \<and> c \<noteq> CHR ''.'' \<and> c \<noteq> CHR 0x09"
  by (auto simp: is_digit_iff)

lemma show_nat_no_special:
  "CHR ''-'' \<notin> set (show_nat n)" "CHR ''+'' \<notin> set (show_nat n)" "CHR ''.'' \<notin> set (show_nat n)"
  using show_nat_digits [of n] digit_not_special by blast+

lemma show_int_inj [simp]: "show_int a = show_int b \<longleftrightarrow> a = b"
proof
  assume eq: "show_int a = show_int b"
  have ne: "CHR ''-'' # show_nat m \<noteq> show_nat n" for m n
    using show_nat_no_special(1) [of n] by (metis list.set_intros(1))
  show "a = b"
    using eq ne ne [symmetric] by (auto simp: show_int_def split: if_splits)
qed simp

text \<open>\<open>strconv.ParseUint(s, 10, 64)\<close>: the first bad character or the first overflow decides the
  error.\<close>

datatype num_error = ErrSyntax | ErrRange

fun parse_uint_loop :: "nat \<Rightarrow> string \<Rightarrow> num_error + nat" where
  "parse_uint_loop n [] = Inr n"
| "parse_uint_loop n (c # cs) =
     (if \<not> is_digit c then Inl ErrSyntax
      else if n * 10 + digit_val c \<ge> 2 ^ 64 then Inl ErrRange
      else parse_uint_loop (n * 10 + digit_val c) cs)"

definition ParseUint :: "string \<Rightarrow> num_error + nat" where
  "ParseUint s = (if s = [] then Inl ErrSyntax else parse_uint_loop 0 s)"

text \<open>\<open>strconv.Atoi\<close>: an optional sign, digits, and the range of \<open>int64\<close>.\<close>

definition Atoi :: "string \<Rightarrow> num_error + int" where
  "Atoi s =
     (if s = [] then Inl ErrSyntax
      else
        (let neg = (hd s = CHR ''-'');
             rest = (if hd s = CHR ''-'' \<or> hd s = CHR ''+'' then tl s else s)
         in bindR (ParseUint rest) (\<lambda>un.
              if \<not> neg \<and> un \<ge> 2 ^ 63 then Inl ErrRange
              else if neg \<and> un > 2 ^ 63 then Inl ErrRange
              else Inr (if neg then - int un else int un))))"

lemma parse_uint_loop_Inr:
  "parse_uint_loop n s = Inr m \<Longrightarrow>
    (\<forall>c \<in> set s. is_digit c) \<and> m = foldl (\<lambda>n c. n * 10 + digit_val c) n s \<and> (n < 2 ^ 64 \<longrightarrow> m < 2 ^ 64)"
  by (induction n s rule: parse_uint_loop.induct) (auto split: if_splits)

lemma ParseUint_Inr [go_std]:
  assumes "ParseUint s = Inr m"
  shows "s \<noteq> [] \<and> (\<forall>c \<in> set s. is_digit c) \<and> m = decimal_value s \<and> m < 2 ^ 64"
  using assms parse_uint_loop_Inr [of 0 s m]
  by (auto simp: ParseUint_def decimal_value_def split: if_splits)

lemma foldl_digits_ge: "(n :: nat) \<le> foldl (\<lambda>n c. n * 10 + digit_val c) n s"
proof (induction s arbitrary: n)
  case Nil
  show ?case by simp
next
  case (Cons c s)
  have "n \<le> n * 10 + digit_val c" by simp
  also have "\<dots> \<le> foldl (\<lambda>n c. n * 10 + digit_val c) (n * 10 + digit_val c) s"
    by (rule Cons.IH)
  finally show ?case by simp
qed

lemma parse_uint_loop_digits:
  "\<forall>c \<in> set s. is_digit c \<Longrightarrow> foldl (\<lambda>n c. n * 10 + digit_val c) n s < 2 ^ 64 \<Longrightarrow>
    parse_uint_loop n s = Inr (foldl (\<lambda>n c. n * 10 + digit_val c) n s)"
proof (induction s arbitrary: n)
  case Nil
  show ?case by simp
next
  case (Cons c s)
  have "n * 10 + digit_val c \<le> foldl (\<lambda>n c. n * 10 + digit_val c) (n * 10 + digit_val c) s"
    by (rule foldl_digits_ge)
  with Cons.prems have "n * 10 + digit_val c < 2 ^ 64" by simp
  with Cons show ?case by simp
qed

lemma ParseUint_show [go_std]: "n < 2 ^ 64 \<Longrightarrow> ParseUint (show_nat n) = Inr n"
  using parse_uint_loop_digits [of "show_nat n" 0] show_nat_digits [of n] decimal_value_show [of n]
  by (simp add: ParseUint_def decimal_value_def)

lemma Atoi_show [go_std]:
  assumes "- (2 ^ 63) \<le> i" "i < 2 ^ 63"
  shows "Atoi (show_int i) = Inr i"
proof (cases "i < 0")
  case True
  have "nat (- i) < 2 ^ 64" using assms by simp
  then have "ParseUint (show_nat (nat (- i))) = Inr (nat (- i))" by (rule ParseUint_show)
  with True assms show ?thesis by (simp add: Atoi_def show_int_def Let_def)
next
  case False
  have hd: "hd (show_nat (nat i)) \<noteq> CHR ''-''" "hd (show_nat (nat i)) \<noteq> CHR ''+''"
    using show_nat_no_special [of "nat i"] by (metis hd_in_set show_nat_not_Nil)+
  have "nat i < 2 ^ 64" using assms by simp
  then have "ParseUint (show_nat (nat i)) = Inr (nat i)" by (rule ParseUint_show)
  with False hd assms show ?thesis by (simp add: Atoi_def show_int_def Let_def)
qed

lemma Atoi_bounds: "Atoi s = Inr i \<Longrightarrow> - (2 ^ 63) \<le> i \<and> i < 2 ^ 63"
  by (auto simp: Atoi_def Let_def bindR_Inr_iff split: if_splits)

lemma Atoi_nonneg: "Atoi s = Inr i \<Longrightarrow> \<not> HasPrefix s ''-'' \<Longrightarrow> 0 \<le> i"
  by (cases s) (auto simp: Atoi_def Let_def bindR_Inr_iff HasPrefix_def split: if_splits)

section \<open>binary.LittleEndian and hex\<close>

text \<open>\<open>PutUint32\<close> and \<open>PutUint64\<close> write the low byte first; \<open>Uint32\<close> and \<open>Uint64\<close> read it back.\<close>

fun le_put :: "nat \<Rightarrow> 'a::len word \<Rightarrow> u8 list" where
  "le_put 0 v = []"
| "le_put (Suc n) v = ucast v # le_put n (drop_bit 8 v)"

fun le_get :: "u8 list \<Rightarrow> 'a::len word" where
  "le_get [] = 0"
| "le_get (b # bs) = ucast b OR push_bit 8 (le_get bs)"

definition PutUint32 :: "u32 \<Rightarrow> u8 list" where "PutUint32 v = le_put 4 v"
definition PutUint64 :: "u64 \<Rightarrow> u8 list" where "PutUint64 v = le_put 8 v"
definition Uint32 :: "u8 list \<Rightarrow> u32" where "Uint32 bs = le_get (take 4 bs)"
definition Uint64 :: "u8 list \<Rightarrow> u64" where "Uint64 bs = le_get (take 8 bs)"

lemma length_le_put [simp]: "length (le_put n v) = n"
  by (induction n arbitrary: v) auto

lemma le_get_put: "le_get (le_put n v) = (take_bit (8 * n) v :: 'a::len word)"
proof (induction n arbitrary: v)
  case 0
  show ?case by simp
next
  case (Suc n)
  have "ucast (ucast v :: u8) OR push_bit 8 (take_bit (8 * n) (drop_bit 8 v))
      = (take_bit (8 * Suc n) v :: 'a word)"
    by (rule bit_eqI) (auto simp: bit_simps)
  with Suc.IH show ?case by simp
qed

lemma length_PutUint [simp]: "length (PutUint32 v) = 4" "length (PutUint64 w) = 8"
  by (simp_all add: PutUint32_def PutUint64_def)

lemma Uint32_PutUint32 [codec_rules]: "Uint32 (PutUint32 v @ r) = v"
proof -
  have "Uint32 (PutUint32 v @ r) = le_get (le_put 4 v)"
    by (simp add: Uint32_def PutUint32_def)
  also have "\<dots> = v" by (simp add: le_get_put take_bit_word_eq_self)
  finally show ?thesis .
qed

lemma Uint64_PutUint64 [codec_rules]: "Uint64 (PutUint64 v @ r) = v"
proof -
  have "Uint64 (PutUint64 v @ r) = le_get (le_put 8 v)"
    by (simp add: Uint64_def PutUint64_def)
  also have "\<dots> = v" by (simp add: le_get_put take_bit_word_eq_self)
  finally show ?thesis .
qed

definition hex_digit :: "nat \<Rightarrow> char" where
  "hex_digit d = ''0123456789abcdef'' ! d"

definition hex_EncodeToString :: "u8 list \<Rightarrow> string" where
  "hex_EncodeToString bs =
     concat (map (\<lambda>b. [hex_digit (unat b div 16), hex_digit (unat b mod 16)]) bs)"

end
