(* ===== verification/TsvParse.thy ===== *)
theory TsvParse
  imports GoStd
begin

text \<open>
  funded/parse.go: one row of funded.tsv, \<open>address<TAB>balance\<close>. A line is its list of bytes.
  The balance is a Go \<open>int\<close>: 64 bits, and \<open>n*10 + digit\<close> wraps around.
\<close>

abbreviation TAB :: char where
  "TAB \<equiv> CHR 0x09"

fun parseInt_loop :: "i64 \<Rightarrow> string \<Rightarrow> i64 option" where
  "parseInt_loop n [] = Some n"
| "parseInt_loop n (c # cs) =
     (if c < CHR ''0'' \<or> c > CHR ''9'' then None
      else parseInt_loop (n * 10 + of_nat (digit_val c)) cs)"

definition parseIntBytes :: "string \<Rightarrow> i64 option" where
  "parseIntBytes b = (if length b = 0 then None else parseInt_loop 0 b)"

definition ParseTSVLine :: "string \<Rightarrow> (string \<times> i64) option" where
  "ParseTSVLine line =
     (case IndexByte line TAB of
        None \<Rightarrow> None
      | Some tab \<Rightarrow>
          (case parseIntBytes (TrimSpace (drop (tab + 1) line)) of
             None \<Rightarrow> None
           | Some balance \<Rightarrow> Some (take tab line, balance)))"

section \<open>What a row means\<close>

lemma parseInt_loop_eq:
  "parseInt_loop n s =
    (if \<forall>c \<in> set s. is_digit c then Some (foldl (\<lambda>n c. n * 10 + of_nat (digit_val c)) n s) else None)"
  by (induction n s rule: parseInt_loop.induct) (auto simp: is_digit_def)

lemma foldl_digits_word:
  "foldl (\<lambda>n c. n * 10 + of_nat (digit_val c)) (of_nat m) s
    = (of_nat (foldl (\<lambda>n c. n * 10 + digit_val c) m s) :: i64)"
proof (induction s arbitrary: m)
  case (Cons c s)
  have "of_nat m * 10 + of_nat (digit_val c) = (of_nat (m * 10 + digit_val c) :: i64)" by simp
  then show ?case using Cons.IH [of "m * 10 + digit_val c"] by simp
qed simp

lemma parseIntBytes_eq:
  "parseIntBytes s =
    (if s \<noteq> [] \<and> (\<forall>c \<in> set s. is_digit c) then Some (of_nat (decimal_value s)) else None)"
  using foldl_digits_word [of 0 s] by (auto simp: parseIntBytes_def parseInt_loop_eq decimal_value_def)

text \<open>A line is a row exactly when it has a tab, and what follows the first tab is, after
  trimming white space, a non-empty run of decimal digits; the address is everything before that
  tab and the balance is the number the digits denote, modulo \<open>2\<^sup>6\<^sup>4\<close>.\<close>

theorem ParseTSVLine_iff:
  "ParseTSVLine line = Some (addr, balance) \<longleftrightarrow>
    (\<exists>rest. line = addr @ TAB # rest \<and> TAB \<notin> set addr \<and> TrimSpace rest \<noteq> [] \<and>
      (\<forall>c \<in> set (TrimSpace rest). is_digit c) \<and>
      balance = of_nat (decimal_value (TrimSpace rest)))" (is "?L \<longleftrightarrow> ?R")
proof
  assume ?L
  then obtain tab where tab: "IndexByte line TAB = Some tab" "addr = take tab line"
    and bal: "parseIntBytes (TrimSpace (drop (tab + 1) line)) = Some balance"
    by (auto simp: ParseTSVLine_def split: option.splits)
  from tab have "line = addr @ TAB # drop (tab + 1) line" "TAB \<notin> set addr"
    using id_take_nth_drop [of tab line] by (auto simp: IndexByte_Some_iff)
  with bal show ?R by (auto simp: parseIntBytes_eq split: if_splits)
next
  assume ?R
  then show ?L by (auto simp: ParseTSVLine_def IndexByte_append parseIntBytes_eq)
qed

text \<open>A row written with the address, a tab and the balance in decimal is read back exactly, for
  every balance below \<open>2\<^sup>6\<^sup>4\<close> and every address without a tab.\<close>

theorem tsv_row_roundtrip:
  assumes "TAB \<notin> set addr"
  shows "ParseTSVLine (addr @ TAB # show_nat (unat (balance :: u64))) = Some (addr, balance)"
proof -
  let ?d = "show_nat (unat balance)"
  have dig: "is_digit c \<Longrightarrow> plain_first c \<and> plain_last c" for c
    by (auto simp: plain_first_def plain_last_def space_seqs_def is_digit_iff)
  have "hd ?d \<in> set ?d" "last ?d \<in> set ?d" by simp_all
  then have "plain_first (hd ?d)" "plain_last (last ?d)" using dig show_nat_digits by blast+
  then have trim: "TrimSpace ?d = ?d" by (intro TrimSpace_id) simp_all
  show ?thesis
    using assms show_nat_digits [of "unat balance"]
    by (simp add: ParseTSVLine_def IndexByte_append trim parseIntBytes_eq decimal_value_show)
qed

theorem tsv_row_roundtrip_witness:
  "ParseTSVLine (''1abc'' @ TAB # show_nat (unat (30000 :: u64))) = Some (''1abc'', 30000)"
  by (rule tsv_row_roundtrip) simp

theorem ParseTSVLine_iff_witness:
  "ParseTSVLine (''1abc'' @ TAB # ''  30000'') = Some (''1abc'', 30000)"
proof -
  have "TrimSpace ''  30000'' = ''30000''" by code_simp
  then show ?thesis
    unfolding ParseTSVLine_iff
    by (intro exI [of _ "''  30000''"]) (simp add: is_digit_iff decimal_value_def digit_val_def)
qed

end
