(* ===== verification/Formats.thy ===== *)
theory Formats
  imports GoStd
begin

text \<open>
  The address-format mask of bitcoin/formats.go and its token lists in cluster/api.go: parsing
  of the \<open>--formats\<close> flag, printing, the mask on the wire, and which index bucket an
  \<open>--inject-index-hit\<close> may use under a mask.
\<close>

record FormatMask =
  LegacyCompressed :: bool
  LegacyUncompressed :: bool
  Segwit :: bool
  P2SH :: bool
  Taproot :: bool

definition NoFormatMask :: FormatMask where
  "NoFormatMask = \<lparr>LegacyCompressed = False, LegacyUncompressed = False, Segwit = False,
     P2SH = False, Taproot = False\<rparr>"

definition AllFormats :: FormatMask where
  "AllFormats = \<lparr>LegacyCompressed = True, LegacyUncompressed = True, Segwit = True,
     P2SH = True, Taproot = True\<rparr>"

definition Any :: "FormatMask \<Rightarrow> bool" where
  "Any m \<longleftrightarrow> LegacyCompressed m \<or> LegacyUncompressed m \<or> Segwit m \<or> P2SH m \<or> Taproot m"

definition NeedsCompressedPubkeyHash :: "FormatMask \<Rightarrow> bool" where
  "NeedsCompressedPubkeyHash m \<longleftrightarrow> LegacyCompressed m \<or> Segwit m \<or> P2SH m"

datatype format_error = UnknownFormat string | NoFormatGiven

text \<open>The loop over the comma-separated tokens, with the test after the loop as its base case.\<close>

fun parse_format_tokens :: "FormatMask \<Rightarrow> string list \<Rightarrow> format_error + FormatMask" where
  "parse_format_tokens fm [] = (if \<not> Any fm then Inl NoFormatGiven else Inr fm)"
| "parse_format_tokens fm (raw # toks) =
     (let tok = TrimSpace raw in
      if tok = '''' then parse_format_tokens fm toks
      else if tok = ''legacy'' then
        parse_format_tokens (fm\<lparr>LegacyCompressed := True, LegacyUncompressed := True\<rparr>) toks
      else if tok = ''legacy-compressed'' then
        parse_format_tokens (fm\<lparr>LegacyCompressed := True\<rparr>) toks
      else if tok = ''legacy-uncompressed'' then
        parse_format_tokens (fm\<lparr>LegacyUncompressed := True\<rparr>) toks
      else if tok = ''segwit'' then parse_format_tokens (fm\<lparr>Segwit := True\<rparr>) toks
      else if tok = ''p2sh'' then parse_format_tokens (fm\<lparr>P2SH := True\<rparr>) toks
      else if tok = ''taproot'' then parse_format_tokens (fm\<lparr>Taproot := True\<rparr>) toks
      else if tok = ''all'' then Inr AllFormats
      else Inl (UnknownFormat tok))"

definition ParseFormatMask :: "string \<Rightarrow> format_error + FormatMask" where
  "ParseFormatMask raw =
     (let value = TrimSpace raw in
      if value = '''' \<or> value = ''all'' then Inr AllFormats
      else parse_format_tokens NoFormatMask (Split (CHR '','') value))"

definition FormatMask_String :: "FormatMask \<Rightarrow> string" where
  "FormatMask_String m =
     (if m = AllFormats then ''all''
      else
        Join
          ((if LegacyCompressed m \<and> LegacyUncompressed m then [''legacy'']
            else (if LegacyCompressed m then [''legacy-compressed''] else []) @
              (if LegacyUncompressed m then [''legacy-uncompressed''] else [])) @
           (if Segwit m then [''segwit''] else []) @
           (if P2SH m then [''p2sh''] else []) @
           (if Taproot m then [''taproot''] else []))
          '','')"

definition InjectBucketAllowed :: "FormatMask \<Rightarrow> string \<Rightarrow> bool" where
  "InjectBucketAllowed fm bucket =
     (if bucket = ''legacy'' then LegacyCompressed fm
      else if bucket = ''legacy-uncompressed'' then LegacyUncompressed fm
      else if bucket = ''segwit'' then Segwit fm
      else if bucket = ''p2sh'' then P2SH fm
      else if bucket = ''taproot'' then Taproot fm
      else False)"

text \<open>cluster/api.go: the mask as a list of tokens in the run configuration.\<close>

definition FormatList :: "FormatMask \<Rightarrow> string list" where
  "FormatList m =
     (if LegacyCompressed m then [''legacy-compressed''] else []) @
     (if LegacyUncompressed m then [''legacy-uncompressed''] else []) @
     (if Segwit m then [''segwit''] else []) @
     (if P2SH m then [''p2sh''] else []) @
     (if Taproot m then [''taproot''] else [])"

definition ParseFormatList :: "string list \<Rightarrow> format_error + FormatMask" where
  "ParseFormatList tokens =
     (if tokens = [] then Inr AllFormats else ParseFormatMask (Join tokens '',''))"

section \<open>What a token denotes\<close>

text \<open>The reference reading of \<open>--formats\<close>: each token names a set of formats, a list names
  their union.\<close>

definition mask_union :: "FormatMask \<Rightarrow> FormatMask \<Rightarrow> FormatMask" where
  "mask_union a b =
     \<lparr>LegacyCompressed = LegacyCompressed a \<or> LegacyCompressed b,
      LegacyUncompressed = LegacyUncompressed a \<or> LegacyUncompressed b,
      Segwit = Segwit a \<or> Segwit b, P2SH = P2SH a \<or> P2SH b, Taproot = Taproot a \<or> Taproot b\<rparr>"

definition token_table :: "(string \<times> FormatMask) list" where
  "token_table =
     [(''legacy'', NoFormatMask\<lparr>LegacyCompressed := True, LegacyUncompressed := True\<rparr>),
      (''legacy-compressed'', NoFormatMask\<lparr>LegacyCompressed := True\<rparr>),
      (''legacy-uncompressed'', NoFormatMask\<lparr>LegacyUncompressed := True\<rparr>),
      (''segwit'', NoFormatMask\<lparr>Segwit := True\<rparr>),
      (''p2sh'', NoFormatMask\<lparr>P2SH := True\<rparr>),
      (''taproot'', NoFormatMask\<lparr>Taproot := True\<rparr>)]"

definition token_mask :: "string \<Rightarrow> FormatMask" where
  "token_mask t = (case map_of token_table t of None \<Rightarrow> NoFormatMask | Some m \<Rightarrow> m)"

definition format_tokens :: "string list" where
  "format_tokens = map fst token_table"

lemma format_tokens_eq:
  "set format_tokens = {''legacy'', ''legacy-compressed'', ''legacy-uncompressed'', ''segwit'',
     ''p2sh'', ''taproot''}"
  by (simp add: format_tokens_def token_table_def)

lemma tokens_first: "\<forall>t \<in> set format_tokens. plain_first (hd t)"
  by (simp add: format_tokens_def token_table_def plain_first_def space_seqs_def)

lemma tokens_last: "\<forall>t \<in> set format_tokens. plain_last (last t)"
  by (simp add: format_tokens_def token_table_def plain_last_def space_seqs_def)

lemma tokens_no_comma: "\<forall>t \<in> set format_tokens. t \<noteq> [] \<and> CHR '','' \<notin> set t"
  by (simp add: format_tokens_def token_table_def)

lemma TrimSpace_token: "t \<in> set format_tokens \<Longrightarrow> TrimSpace t = t"
  using tokens_first tokens_last tokens_no_comma TrimSpace_id by blast

lemma mask_union_token:
  "mask_union fm (token_mask ''legacy'') = fm\<lparr>LegacyCompressed := True, LegacyUncompressed := True\<rparr>"
  "mask_union fm (token_mask ''legacy-compressed'') = fm\<lparr>LegacyCompressed := True\<rparr>"
  "mask_union fm (token_mask ''legacy-uncompressed'') = fm\<lparr>LegacyUncompressed := True\<rparr>"
  "mask_union fm (token_mask ''segwit'') = fm\<lparr>Segwit := True\<rparr>"
  "mask_union fm (token_mask ''p2sh'') = fm\<lparr>P2SH := True\<rparr>"
  "mask_union fm (token_mask ''taproot'') = fm\<lparr>Taproot := True\<rparr>"
  by (cases fm; simp add: token_mask_def token_table_def mask_union_def NoFormatMask_def)+

lemma parse_known_token:
  assumes t: "t \<in> set format_tokens"
  shows "parse_format_tokens fm (t # toks) =
    parse_format_tokens (mask_union fm (token_mask t)) toks"
proof -
  note step = parse_format_tokens.simps(2) [of fm t toks, unfolded Let_def TrimSpace_token [OF t]]
  consider "t = ''legacy''" | "t = ''legacy-compressed''" | "t = ''legacy-uncompressed''"
    | "t = ''segwit''" | "t = ''p2sh''" | "t = ''taproot''"
    using t unfolding format_tokens_eq by (elim insertE emptyE) simp_all
  then show ?thesis
  proof cases
    case 1
    show ?thesis unfolding step unfolding 1 mask_union_token by simp
  next
    case 2
    show ?thesis unfolding step unfolding 2 mask_union_token by simp
  next
    case 3
    show ?thesis unfolding step unfolding 3 mask_union_token by simp
  next
    case 4
    show ?thesis unfolding step unfolding 4 mask_union_token by simp
  next
    case 5
    show ?thesis unfolding step unfolding 5 mask_union_token by simp
  next
    case 6
    show ?thesis unfolding step unfolding 6 mask_union_token by simp
  qed
qed

lemma parse_known_tokens:
  "set ts \<subseteq> set format_tokens \<Longrightarrow>
    parse_format_tokens fm ts =
      (let m = fold (\<lambda>t m. mask_union m (token_mask t)) ts fm
       in if Any m then Inr m else Inl NoFormatGiven)"
  by (induction ts arbitrary: fm)
    (auto simp: parse_known_token simp del: parse_format_tokens.simps(2))

lemma token_mask_Any: "t \<in> set format_tokens \<Longrightarrow> Any (token_mask t)"
  unfolding format_tokens_eq by (auto simp: token_mask_def token_table_def Any_def)

lemma Any_union: "Any (mask_union a b) \<longleftrightarrow> Any a \<or> Any b"
  by (auto simp: Any_def mask_union_def)

lemma Any_fold: "Any m \<Longrightarrow> Any (fold (\<lambda>t m. mask_union m (token_mask t)) ts m)"
  by (induction ts arbitrary: m) (auto simp: Any_union)

section \<open>Parsing, printing and the wire form agree\<close>

lemma Join_hd: "ts \<noteq> [] \<Longrightarrow> hd ts \<noteq> [] \<Longrightarrow> Join ts sep \<noteq> [] \<and> hd (Join ts sep) = hd (hd ts)"
  by (induction ts sep rule: Join.induct) auto

lemma Join_last:
  "ts \<noteq> [] \<Longrightarrow> \<forall>t \<in> set ts. t \<noteq> [] \<Longrightarrow> last (Join ts sep) = last (last ts)"
proof (induction ts sep rule: Join.induct)
  case (3 t u ts sep)
  then have "Join (u # ts) sep \<noteq> []" using Join_hd [of "u # ts" sep] by simp
  with 3 show ?case by simp
qed auto

lemma Join_tokens_plain:
  assumes "ts \<noteq> []" "set ts \<subseteq> set format_tokens"
  shows "TrimSpace (Join ts '','') = Join ts '',''" "Join ts '','' \<noteq> ''''" "Join ts '','' \<noteq> ''all''"
proof -
  have in_tokens: "t \<in> set format_tokens" if "t \<in> set ts" for t using assms that by blast
  have ends: "hd ts \<in> set ts" "last ts \<in> set ts" using assms(1) by simp_all
  have ne: "\<forall>t \<in> set ts. t \<noteq> [] \<and> CHR '','' \<notin> set t" using tokens_no_comma in_tokens by blast
  then have J: "Join ts '','' \<noteq> []" "hd (Join ts '','') = hd (hd ts)"
    "last (Join ts '','') = last (last ts)"
    using assms(1) ends Join_hd [of ts "'',''"] Join_last [of ts "'',''"] by blast+
  moreover have "plain_first (hd (hd ts))" "plain_last (last (last ts))"
    using tokens_first tokens_last in_tokens ends by blast+
  ultimately show "TrimSpace (Join ts '','') = Join ts '',''" "Join ts '','' \<noteq> ''''"
    using TrimSpace_id [of "Join ts '',''"] by simp_all
  show "Join ts '','' \<noteq> ''all''"
  proof
    assume all: "Join ts '','' = ''all''"
    have "Split (CHR '','') (Join ts '','') = ts" using assms(1) ne by (simp add: Split_Join)
    then have "ts = [''all'']" by (simp add: all)
    with assms(2) show False by (simp add: format_tokens_eq)
  qed
qed

lemma ParseFormatMask_Join:
  assumes "ts \<noteq> []" "set ts \<subseteq> set format_tokens"
  shows "ParseFormatMask (Join ts '','') =
    Inr (fold (\<lambda>t m. mask_union m (token_mask t)) ts NoFormatMask)"
proof -
  have "\<forall>t \<in> set ts. CHR '','' \<notin> set t" using tokens_no_comma assms(2) by blast
  then have "Split (CHR '','') (Join ts '','') = ts" using assms(1) by (simp add: Split_Join)
  then have "ParseFormatMask (Join ts '','') = parse_format_tokens NoFormatMask ts"
    by (simp add: ParseFormatMask_def Join_tokens_plain [OF assms] Let_def)
  moreover obtain t ts' where ts: "ts = t # ts'" using assms(1) by (cases ts) auto
  moreover have "Any (fold (\<lambda>t m. mask_union m (token_mask t)) ts NoFormatMask)"
    using assms(2) Any_fold [of "mask_union NoFormatMask (token_mask t)" ts'] token_mask_Any [of t]
    by (simp add: ts Any_union)
  ultimately show ?thesis using parse_known_tokens [OF assms(2), of NoFormatMask]
    by (simp add: Let_def)
qed

text \<open>Parsing a comma-separated list of format names yields exactly the union of the formats
  the names denote, whatever their order and repetitions.\<close>

theorem ParseFormatMask_union:
  assumes "ts \<noteq> []" "set ts \<subseteq> set format_tokens"
  shows "ParseFormatMask (Join ts '','') =
    Inr (fold (\<lambda>t m. mask_union m (token_mask t)) ts NoFormatMask)"
  by (rule ParseFormatMask_Join [OF assms])

theorem ParseFormatMask_union_witness:
  "ParseFormatMask ''segwit,legacy-uncompressed'' =
    Inr (NoFormatMask\<lparr>Segwit := True, LegacyUncompressed := True\<rparr>)"
  using ParseFormatMask_union [of "[''segwit'', ''legacy-uncompressed'']"]
  by (simp add: format_tokens_eq token_table_def token_mask_def mask_union_def NoFormatMask_def)

text \<open>The token lists the two printers produce.\<close>

definition String_tokens :: "FormatMask \<Rightarrow> string list" where
  "String_tokens m =
     (if LegacyCompressed m \<and> LegacyUncompressed m then [''legacy'']
      else (if LegacyCompressed m then [''legacy-compressed''] else []) @
        (if LegacyUncompressed m then [''legacy-uncompressed''] else [])) @
     (if Segwit m then [''segwit''] else []) @
     (if P2SH m then [''p2sh''] else []) @
     (if Taproot m then [''taproot''] else [])"

lemma FormatMask_String_tokens:
  "m \<noteq> AllFormats \<Longrightarrow> FormatMask_String m = Join (String_tokens m) '',''"
  by (simp add: FormatMask_String_def String_tokens_def)

lemma token_lists_known:
  "set (String_tokens m) \<subseteq> set format_tokens" "set (FormatList m) \<subseteq> set format_tokens"
  by (auto simp: format_tokens_eq String_tokens_def FormatList_def split: if_splits)

lemma token_lists_Nil:
  "String_tokens m = [] \<longleftrightarrow> \<not> Any m" "FormatList m = [] \<longleftrightarrow> \<not> Any m"
  by (auto simp: String_tokens_def FormatList_def Any_def)

lemma token_lists_fold:
  "fold (\<lambda>t m. mask_union m (token_mask t)) (String_tokens m) NoFormatMask = m"
  "fold (\<lambda>t m. mask_union m (token_mask t)) (FormatList m) NoFormatMask = m"
  by (cases m; simp add: String_tokens_def FormatList_def mask_union_token NoFormatMask_def)+

lemma format_masks_parse:
  assumes "Any m"
  shows "ParseFormatMask (FormatMask_String m) = Inr m \<and> ParseFormatList (FormatList m) = Inr m"
proof
  show "ParseFormatMask (FormatMask_String m) = Inr m"
  proof (cases "m = AllFormats")
    case True
    have "TrimSpace ''all'' = ''all''"
      by (rule TrimSpace_id) (simp_all add: plain_first_def plain_last_def space_seqs_def)
    with True show ?thesis by (simp add: FormatMask_String_def ParseFormatMask_def)
  next
    case False
    with assms show ?thesis
      using ParseFormatMask_Join [of "String_tokens m"]
      by (simp add: FormatMask_String_tokens token_lists_known token_lists_Nil token_lists_fold)
  qed
  show "ParseFormatList (FormatList m) = Inr m"
    using assms ParseFormatMask_Join [of "FormatList m"]
    by (simp add: ParseFormatList_def token_lists_known token_lists_Nil token_lists_fold)
qed

text \<open>A mask that selects some format survives both of its printed forms: parsing the text of
  \<open>String()\<close> gives it back, and so does reading the token list the coordinator sends to the
  workers.\<close>

theorem format_mask_roundtrip:
  assumes "Any m"
  shows "ParseFormatMask (FormatMask_String m) = Inr m \<and> ParseFormatList (FormatList m) = Inr m"
  by (rule format_masks_parse [OF assms])

theorem format_mask_roundtrip_witness:
  "ParseFormatMask (FormatMask_String (NoFormatMask\<lparr>Taproot := True\<rparr>)) =
    Inr (NoFormatMask\<lparr>Taproot := True\<rparr>)"
  using format_mask_roundtrip [of "NoFormatMask\<lparr>Taproot := True\<rparr>"] by (simp add: Any_def)

lemma parse_format_tokens_Any: "parse_format_tokens fm toks = Inr m \<Longrightarrow> Any m"
  by (induction fm toks rule: parse_format_tokens.induct)
    (auto simp: Let_def AllFormats_def Any_def split: if_splits)

lemma ParseFormatMask_Any: "ParseFormatMask s = Inr m \<Longrightarrow> Any m"
  using parse_format_tokens_Any
  by (auto simp: ParseFormatMask_def Let_def AllFormats_def Any_def split: if_splits)

end
