(* ===== verification/Address.thy ===== *)
theory Address
  imports GoStd
begin

text \<open>
  bitcoin/encode.go and bitcoin/decode.go: the four address kinds the index knows, how a match is
  printed as an address and how an address of funded.tsv is read. The base58, bech32 and btcutil
  packages are parameters (\<open>addr_lib\<close>); what the code relies on is stated as \<open>address_laws\<close>.
\<close>

section \<open>The packages the code calls\<close>

datatype bech32_version = Version0 | VersionM | VersionUnknown

text \<open>The address types btcutil tells apart; \<open>ScriptAddress()\<close> is the payload.\<close>

datatype decoded_address =
    AddressPubKeyHash "u8 list"
  | AddressScriptHash "u8 list"
  | AddressWitnessPubKeyHash "u8 list"
  | AddressTaproot "u8 list"
  | AddressOtherType string

record addr_lib =
  CheckEncode :: "u8 list \<Rightarrow> u8 \<Rightarrow> string"
  CheckDecode :: "string \<Rightarrow> string + (u8 list \<times> u8)"
  ConvertBits :: "u8 list \<Rightarrow> nat \<Rightarrow> nat \<Rightarrow> bool \<Rightarrow> string + u8 list"
  bech32_Encode :: "string \<Rightarrow> u8 list \<Rightarrow> string + string"
  bech32_EncodeM :: "string \<Rightarrow> u8 list \<Rightarrow> string + string"
  DecodeGeneric :: "string \<Rightarrow> string + (string \<times> u8 list \<times> bech32_version)"
  DecodeAddress :: "string \<Rightarrow> string + decoded_address"
  PubKeyHashAddrID :: u8
  ScriptHashAddrID :: u8
  Bech32HRPSegwit :: string

text \<open>The last three are fields of \<open>chaincfg.MainNetParams\<close>, which the decoder reads; the encoder has
  constants of its own.\<close>

section \<open>Data\<close>

datatype MatchKind =
    MatchLegacyCompressed | MatchLegacyUncompressed | MatchSegwitV0 | MatchP2SH | MatchTaproot
  | MatchKindOther

datatype AddressKind = KindLegacy | KindP2SH | KindSegwitV0 | KindTaprootV1

record LookupKeys =
  CompressedHash :: hash20
  UncompressedHash :: hash20
  P2SHHash :: hash20
  TaprootKey :: hash32

definition zero_keys :: LookupKeys where
  "zero_keys = \<lparr>CompressedHash = zero_array, UncompressedHash = zero_array,
     P2SHHash = zero_array, TaprootKey = zero_array\<rparr>"

datatype addr_error =
    PackageError string
  | EmptyAddress
  | InvalidLegacyAddress
  | InvalidP2SHAddress
  | UnsupportedPrefix
  | UnexpectedHrp string
  | NoWitnessVersion
  | UnsupportedWitnessProgram
  | UnexpectedHashLength AddressKind nat
  | UnsupportedAddressType string
  | UnsupportedWitnessVersion u8

definition package_call :: "string + 'a \<Rightarrow> addr_error + 'a" where
  "package_call r = (case r of Inl e \<Rightarrow> Inl (PackageError e) | Inr x \<Rightarrow> Inr x)"

lemma package_call_simps [simp]:
  "package_call (Inl e) = Inl (PackageError e)"
  "package_call (Inr x) = Inr x"
  by (simp_all add: package_call_def)

lemma package_call_Inr_iff [simp]: "package_call r = Inr x \<longleftrightarrow> r = Inr x"
  by (cases r) auto

definition mainnetPubKeyHashID :: u8 where "mainnetPubKeyHashID = 0x00"
definition mainnetScriptHashID :: u8 where "mainnetScriptHashID = 0x05"
definition mainnetBech32HRP :: string where "mainnetBech32HRP = ''bc''"

section \<open>Encoding\<close>

definition encodeSegWitAddress :: "addr_lib \<Rightarrow> string \<Rightarrow> u8 \<Rightarrow> u8 list \<Rightarrow> addr_error + string" where
  "encodeSegWitAddress L hrp witnessVersion witnessProgram =
     bindR (package_call (ConvertBits L witnessProgram 8 5 True)) (\<lambda>converted.
       let combined = witnessVersion # converted in
       if witnessVersion = 0 then package_call (bech32_Encode L hrp combined)
       else if witnessVersion = 1 then package_call (bech32_EncodeM L hrp combined)
       else Inl (UnsupportedWitnessVersion witnessVersion))"

definition encodePubKeyHash :: "addr_lib \<Rightarrow> hash20 \<Rightarrow> string" where
  "encodePubKeyHash L hash = CheckEncode L (array_bytes hash) mainnetPubKeyHashID"

definition encodeScriptHash :: "addr_lib \<Rightarrow> hash20 \<Rightarrow> string" where
  "encodeScriptHash L hash = CheckEncode L (array_bytes hash) mainnetScriptHashID"

definition encodeWitnessPubKeyHash :: "addr_lib \<Rightarrow> hash20 \<Rightarrow> string" where
  "encodeWitnessPubKeyHash L hash =
     (case encodeSegWitAddress L mainnetBech32HRP 0 (array_bytes hash) of
        Inl _ \<Rightarrow> '''' | Inr addr \<Rightarrow> addr)"

definition encodeTaproot :: "addr_lib \<Rightarrow> hash32 \<Rightarrow> string" where
  "encodeTaproot L key =
     (case encodeSegWitAddress L mainnetBech32HRP 1 (array_bytes key) of
        Inl _ \<Rightarrow> '''' | Inr addr \<Rightarrow> addr)"

text \<open>The exported names only forward.\<close>

definition EncodePubKeyHash :: "addr_lib \<Rightarrow> hash20 \<Rightarrow> string" where
  "EncodePubKeyHash = encodePubKeyHash"

definition EncodeWitnessPubKeyHash :: "addr_lib \<Rightarrow> hash20 \<Rightarrow> string" where
  "EncodeWitnessPubKeyHash = encodeWitnessPubKeyHash"

definition EncodeScriptHash :: "addr_lib \<Rightarrow> hash20 \<Rightarrow> string" where
  "EncodeScriptHash = encodeScriptHash"

definition EncodeTaprootKey :: "addr_lib \<Rightarrow> hash32 \<Rightarrow> string" where
  "EncodeTaprootKey = encodeTaproot"

fun EncodeMatchAddress :: "addr_lib \<Rightarrow> MatchKind \<Rightarrow> LookupKeys \<Rightarrow> string" where
  "EncodeMatchAddress L MatchLegacyCompressed keys = encodePubKeyHash L (CompressedHash keys)"
| "EncodeMatchAddress L MatchLegacyUncompressed keys = encodePubKeyHash L (UncompressedHash keys)"
| "EncodeMatchAddress L MatchSegwitV0 keys = encodeWitnessPubKeyHash L (CompressedHash keys)"
| "EncodeMatchAddress L MatchP2SH keys = encodeScriptHash L (P2SHHash keys)"
| "EncodeMatchAddress L MatchTaproot keys = encodeTaproot L (TaprootKey keys)"
| "EncodeMatchAddress L MatchKindOther keys = ''''"

section \<open>Decoding\<close>

definition check_length :: "AddressKind \<Rightarrow> nat \<Rightarrow> u8 list \<Rightarrow> addr_error + (AddressKind \<times> u8 list)" where
  "check_length k n hash =
     (if length hash \<noteq> n then Inl (UnexpectedHashLength k (length hash)) else Inr (k, hash))"

definition DecodeFundedAddress :: "addr_lib \<Rightarrow> string \<Rightarrow> addr_error + (AddressKind \<times> u8 list)" where
  "DecodeFundedAddress L addr =
     bindR (package_call (DecodeAddress L addr)) (\<lambda>decoded.
       case decoded of
         AddressPubKeyHash hash \<Rightarrow> check_length KindLegacy 20 hash
       | AddressScriptHash hash \<Rightarrow> check_length KindP2SH 20 hash
       | AddressWitnessPubKeyHash hash \<Rightarrow> check_length KindSegwitV0 20 hash
       | AddressTaproot hash \<Rightarrow> check_length KindTaprootV1 32 hash
       | AddressOtherType t \<Rightarrow> Inl (UnsupportedAddressType t))"

definition decodeBech32ForLoad :: "addr_lib \<Rightarrow> string \<Rightarrow> addr_error + (AddressKind \<times> u8 list)" where
  "decodeBech32ForLoad L addr =
     bindR (package_call (DecodeGeneric L addr)) (\<lambda>(hrp, data, bech32version).
       if hrp \<noteq> Bech32HRPSegwit L then Inl (UnexpectedHrp hrp)
       else if length data < 1 then Inl NoWitnessVersion
       else
         (let version = data ! 0 in
          bindR (package_call (ConvertBits L (drop 1 data) 5 8 False)) (\<lambda>regrouped.
            if version = 0 \<and> length regrouped = 20 \<and> bech32version = Version0
            then Inr (KindSegwitV0, regrouped)
            else if version = 1 \<and> length regrouped = 32 \<and> bech32version = VersionM
            then Inr (KindTaprootV1, regrouped)
            else Inl UnsupportedWitnessProgram)))"

definition DecodeFundedAddressForLoad ::
  "addr_lib \<Rightarrow> string \<Rightarrow> addr_error + (AddressKind \<times> u8 list)" where
  "DecodeFundedAddressForLoad L addr =
     (if length addr = 0 then Inl EmptyAddress
      else if addr ! 0 = CHR ''1'' then
        bindR (package_call (CheckDecode L addr)) (\<lambda>(payload, version).
          if version \<noteq> PubKeyHashAddrID L \<or> length payload \<noteq> 20 then Inl InvalidLegacyAddress
          else Inr (KindLegacy, payload))
      else if addr ! 0 = CHR ''3'' then
        bindR (package_call (CheckDecode L addr)) (\<lambda>(payload, version).
          if version \<noteq> ScriptHashAddrID L \<or> length payload \<noteq> 20 then Inl InvalidP2SHAddress
          else Inr (KindP2SH, payload))
      else if HasPrefix addr ''bc1'' then decodeBech32ForLoad L addr
      else Inl UnsupportedPrefix)"

definition kind_length :: "AddressKind \<Rightarrow> nat" where
  "kind_length k = (if k = KindTaprootV1 then 32 else 20)"

lemma DecodeForLoad_length:
  "DecodeFundedAddressForLoad L addr = Inr (k, hash) \<Longrightarrow> length hash = kind_length k"
  by (auto simp: DecodeFundedAddressForLoad_def decodeBech32ForLoad_def bindR_Inr_iff Let_def
      kind_length_def split: if_splits)

lemma check_length_Inr [simp]:
  "check_length k n hash = Inr (k', hash') \<longleftrightarrow> k' = k \<and> hash' = hash \<and> length hash = n"
  by (auto simp: check_length_def)

lemma DecodeFunded_length:
  "DecodeFundedAddress L addr = Inr (k, hash) \<Longrightarrow> length hash = kind_length k"
  unfolding DecodeFundedAddress_def bindR_Inr_iff
  by (elim exE conjE) (simp add: kind_length_def split: decoded_address.split_asm)

section \<open>Printed addresses are read back\<close>

text \<open>
  What the code relies on, as the packages document it: base58check and bech32 (BIP 173, BIP 350)
  decode what they encode, with version, prefix and checksum variant; the first character of a
  20-byte base58check payload is fixed by its version; regrouping bytes into 5-bit groups with
  padding is undone by regrouping without padding; bech32 accepts up to 81 groups; and the network
  constants of the decoder are those of the Bitcoin main network.
\<close>

definition base58_laws :: "addr_lib \<Rightarrow> bool" where
  "base58_laws L \<longleftrightarrow>
     (\<forall>p v. length p = 20 \<and> (v = 0 \<or> v = 5) \<longrightarrow>
        CheckDecode L (CheckEncode L p v) = Inr (p, v) \<and>
        CheckEncode L p v \<noteq> [] \<and>
        hd (CheckEncode L p v) = (if v = 0 then CHR ''1'' else CHR ''3''))"

definition bech32_laws :: "addr_lib \<Rightarrow> bool" where
  "bech32_laws L \<longleftrightarrow>
     (\<forall>p. \<exists>c. ConvertBits L p 8 5 True = Inr c \<and> ConvertBits L c 5 8 False = Inr p \<and>
        length c \<le> 2 * length p \<and> (\<forall>x \<in> set c. x < 32)) \<and>
     (\<forall>d. length d \<le> 81 \<and> (\<forall>x \<in> set d. x < 32) \<longrightarrow>
        (\<exists>s. bech32_Encode L ''bc'' d = Inr s \<and> HasPrefix s ''bc1'' \<and>
           DecodeGeneric L s = Inr (''bc'', d, Version0)) \<and>
        (\<exists>s. bech32_EncodeM L ''bc'' d = Inr s \<and> HasPrefix s ''bc1'' \<and>
           DecodeGeneric L s = Inr (''bc'', d, VersionM)))"

definition address_laws :: "addr_lib \<Rightarrow> bool" where
  "address_laws L \<longleftrightarrow> base58_laws L \<and> bech32_laws L \<and>
     PubKeyHashAddrID L = 0 \<and> ScriptHashAddrID L = 5 \<and> Bech32HRPSegwit L = ''bc''"

lemma decode_base58:
  assumes "address_laws L" "length p = 20"
  shows "DecodeFundedAddressForLoad L (CheckEncode L p 0) = Inr (KindLegacy, p)"
    and "DecodeFundedAddressForLoad L (CheckEncode L p 5) = Inr (KindP2SH, p)"
proof -
  have "CheckDecode L (CheckEncode L p v) = Inr (p, v)" "CheckEncode L p v \<noteq> []"
    "hd (CheckEncode L p v) = (if v = 0 then CHR ''1'' else CHR ''3'')" if "v = 0 \<or> v = 5" for v
    using assms that by (auto simp: address_laws_def base58_laws_def)
  note b = this [of 0, simplified] this [of 5, simplified]
  then show "DecodeFundedAddressForLoad L (CheckEncode L p 0) = Inr (KindLegacy, p)"
    "DecodeFundedAddressForLoad L (CheckEncode L p 5) = Inr (KindP2SH, p)"
    using assms by (simp_all add: DecodeFundedAddressForLoad_def hd_conv_nth address_laws_def)
qed

lemma decode_segwit:
  assumes "address_laws L" "length p \<le> 40"
    and v: "v = 0 \<and> length p = 20 \<and> k = KindSegwitV0 \<or> v = 1 \<and> length p = 32 \<and> k = KindTaprootV1"
  shows "\<exists>s. encodeSegWitAddress L ''bc'' v p = Inr s \<and>
    DecodeFundedAddressForLoad L s = Inr (k, p)"
proof -
  obtain c where c: "ConvertBits L p 8 5 True = Inr c" "ConvertBits L c 5 8 False = Inr p"
    "length c \<le> 2 * length p" "\<forall>x \<in> set c. x < 32"
    using assms(1) unfolding address_laws_def bech32_laws_def by blast
  have d: "length (v # c) \<le> 81" "\<forall>x \<in> set (v # c). x < 32" using c assms v by auto
  then obtain s t where
    s: "bech32_Encode L ''bc'' (v # c) = Inr s" "HasPrefix s ''bc1''"
      "DecodeGeneric L s = Inr (''bc'', v # c, Version0)" and
    t: "bech32_EncodeM L ''bc'' (v # c) = Inr t" "HasPrefix t ''bc1''"
      "DecodeGeneric L t = Inr (''bc'', v # c, VersionM)"
    using assms(1) unfolding address_laws_def bech32_laws_def by blast
  have pre: "r \<noteq> [] \<and> r ! 0 = CHR ''b''" if "HasPrefix r ''bc1''" for r
    using that by (auto simp: HasPrefix_iff)
  show ?thesis
    using v c s t pre [OF s(2)] pre [OF t(2)] assms(1)
    by (auto simp: encodeSegWitAddress_def DecodeFundedAddressForLoad_def decodeBech32ForLoad_def
        address_laws_def)
qed

lemma address_decodes:
  assumes "address_laws L"
  shows "DecodeFundedAddressForLoad L (EncodePubKeyHash L h) = Inr (KindLegacy, array_bytes h) \<and>
    DecodeFundedAddressForLoad L (EncodeScriptHash L h) = Inr (KindP2SH, array_bytes h) \<and>
    DecodeFundedAddressForLoad L (EncodeWitnessPubKeyHash L h) = Inr (KindSegwitV0, array_bytes h) \<and>
    DecodeFundedAddressForLoad L (EncodeTaprootKey L k) = Inr (KindTaprootV1, array_bytes k)"
proof -
  obtain s t where
    "encodeSegWitAddress L ''bc'' 0 (array_bytes h) = Inr s"
    "DecodeFundedAddressForLoad L s = Inr (KindSegwitV0, array_bytes h)"
    "encodeSegWitAddress L ''bc'' 1 (array_bytes k) = Inr t"
    "DecodeFundedAddressForLoad L t = Inr (KindTaprootV1, array_bytes k)"
    using decode_segwit [OF assms, of "array_bytes h" 0 KindSegwitV0]
      decode_segwit [OF assms, of "array_bytes k" 1 KindTaprootV1] by auto
  then show ?thesis
    using decode_base58 [OF assms, of "array_bytes h"]
    by (simp add: EncodePubKeyHash_def EncodeScriptHash_def EncodeWitnessPubKeyHash_def
        EncodeTaprootKey_def encodePubKeyHash_def encodeScriptHash_def encodeWitnessPubKeyHash_def
        encodeTaproot_def mainnetPubKeyHashID_def mainnetScriptHashID_def mainnetBech32HRP_def)
qed

text \<open>Every address the program prints for a hash or a key is read back, by the decoder that
  loads funded.tsv, as the same kind and the same bytes: P2PKH, P2SH, native SegWit and Taproot.\<close>

theorem address_roundtrip:
  assumes "address_laws L"
  shows "DecodeFundedAddressForLoad L (EncodePubKeyHash L h) = Inr (KindLegacy, array_bytes h) \<and>
    DecodeFundedAddressForLoad L (EncodeScriptHash L h) = Inr (KindP2SH, array_bytes h) \<and>
    DecodeFundedAddressForLoad L (EncodeWitnessPubKeyHash L h) = Inr (KindSegwitV0, array_bytes h) \<and>
    DecodeFundedAddressForLoad L (EncodeTaprootKey L k) = Inr (KindTaprootV1, array_bytes k)"
  by (rule address_decodes [OF assms])

text \<open>A small instance of the packages that obeys the laws, for the witnesses: base58check is a tag
  and the bytes themselves, bech32 groups are half bytes after the prefix and the variant.\<close>

definition halves :: "u8 list \<Rightarrow> u8 list" where
  "halves p = concat (map (\<lambda>b. [b div 16, b mod 16]) p)"

fun unhalves :: "u8 list \<Rightarrow> u8 list" where
  "unhalves (h # l # r) = (h * 16 + l) # unhalves r"
| "unhalves _ = []"

definition sample_lib :: addr_lib where
  "sample_lib =
     \<lparr>CheckEncode = (\<lambda>p v. (if v = 0 then CHR ''1'' else CHR ''3'') # bytes_chars p),
      CheckDecode = (\<lambda>s. case s of [] \<Rightarrow> Inl ''checksum''
        | c # r \<Rightarrow> if c = CHR ''1'' then Inr (chars_bytes r, 0) else Inr (chars_bytes r, 5)),
      ConvertBits = (\<lambda>p f t pad. Inr (if pad then halves p else unhalves p)),
      bech32_Encode = (\<lambda>hrp d. Inr (hrp @ ''1q'' @ bytes_chars d)),
      bech32_EncodeM = (\<lambda>hrp d. Inr (hrp @ ''1p'' @ bytes_chars d)),
      DecodeGeneric = (\<lambda>s. Inr (take 2 s, chars_bytes (drop 4 s),
        if s ! 3 = CHR ''q'' then Version0 else VersionM)),
      DecodeAddress = (\<lambda>s. Inr (AddressPubKeyHash (chars_bytes (drop 1 s)))),
      PubKeyHashAddrID = 0, ScriptHashAddrID = 5, Bech32HRPSegwit = ''bc''\<rparr>"

lemma halves_laws: "unhalves (halves p) = p" "length (halves p) = 2 * length p"
  "\<forall>x \<in> set (halves p). x < 32"
proof -
  have dm: "(b div 16) * 16 + b mod 16 = b" for b :: u8 by (rule div_mult_mod_eq)
  show "unhalves (halves p) = p"
    by (induction p) (simp_all add: halves_def dm)
  show "length (halves p) = 2 * length p"
    by (induction p) (simp_all add: halves_def)
  have "b div 16 < 32" "b mod 16 < 32" for b :: u8
    using unsigned_less [of b, where 'a = nat]
    by (simp_all add: word_less_nat_alt unat_div unat_mod)
  then show "\<forall>x \<in> set (halves p). x < 32" by (auto simp: halves_def)
qed

lemma sample_lib_laws: "address_laws sample_lib"
proof -
  have "base58_laws sample_lib" by (auto simp: base58_laws_def sample_lib_def)
  moreover have "bech32_laws sample_lib"
    using halves_laws by (auto simp: bech32_laws_def sample_lib_def HasPrefix_def)
  ultimately show ?thesis by (simp add: address_laws_def sample_lib_def)
qed

theorem address_roundtrip_witness:
  "DecodeFundedAddressForLoad sample_lib (EncodeTaprootKey sample_lib (copy_array [1, 2, 3]))
    = Inr (KindTaprootV1, [1, 2, 3] @ replicate 29 0)"
  using address_roundtrip [OF sample_lib_laws, of zero_array "copy_array [1, 2, 3]"]
  by (simp add: array_bytes_copy_array)

text \<open>The loading decoder never hands out a payload of the wrong size: 32 bytes for a Taproot
  key, 20 for the other kinds, whatever the packages return.\<close>

theorem DecodeForLoad_payload_length:
  assumes "DecodeFundedAddressForLoad L addr = Inr (k, hash)"
  shows "length hash = (if k = KindTaprootV1 then 32 else 20)"
  using DecodeForLoad_length [OF assms] by (simp add: kind_length_def)

theorem DecodeForLoad_payload_length_witness:
  "length (array_bytes (zero_array :: hash20)) = 20"
  using DecodeForLoad_payload_length [of sample_lib _ KindP2SH "array_bytes (zero_array :: hash20)"]
    address_decodes [OF sample_lib_laws, of zero_array zero_array] by simp

end
