(* ===== verification/Index.thy ===== *)
theory Index
  imports Formats Address
begin

text \<open>
  funded/sets.go: the index of funded hashes, four sorted tables with parallel balances and an
  optional Bloom filter each, and the lookup that decides whether a wallet is funded. The Bloom
  filter package is a parameter (\<open>bloom_lib\<close>).
\<close>

section \<open>The Bloom filter package and the index\<close>

record 'bf bloom_lib =
  bloom_NewWithEstimates :: "nat \<Rightarrow> rat \<Rightarrow> 'bf"
  bloom_Add :: "'bf \<Rightarrow> u8 list \<Rightarrow> 'bf"
  bloom_Test :: "'bf \<Rightarrow> u8 list \<Rightarrow> bool"
  bloom_MarshalBinary :: "'bf \<Rightarrow> string + u8 list"
  bloom_UnmarshalBinary :: "u8 list \<Rightarrow> string + 'bf"

record 'bf Sets =
  sLegacy :: "hash20 list"
  sP2SH :: "hash20 list"
  sSegwitV0 :: "hash20 list"
  sTaprootV1 :: "hash32 list"
  sOther :: "string list"
  LegacyBalance :: "u64 list"
  P2SHBalance :: "u64 list"
  SegwitV0Balance :: "u64 list"
  TaprootV1Balance :: "u64 list"
  MinBalanceSats :: u64
  LegacyBloom :: "'bf option"
  P2SHBloom :: "'bf option"
  SegwitV0Bloom :: "'bf option"
  TaprootV1Bloom :: "'bf option"

definition zero_Sets :: "'bf Sets" where
  "zero_Sets = \<lparr>sLegacy = [], sP2SH = [], sSegwitV0 = [], sTaprootV1 = [], sOther = [],
     LegacyBalance = [], P2SHBalance = [], SegwitV0Balance = [], TaprootV1Balance = [],
     MinBalanceSats = 0, LegacyBloom = None, P2SHBloom = None, SegwitV0Bloom = None,
     TaprootV1Bloom = None\<rparr>"

definition DefaultMinBalanceSats :: u64 where "DefaultMinBalanceSats = 30000"
definition BloomFalsePositiveRate :: rat where "BloomFalsePositiveRate = 1 / 10000"

definition Total :: "'bf Sets \<Rightarrow> nat" where
  "Total s = length (sLegacy s) + length (sP2SH s) + length (sSegwitV0 s)
     + length (sTaprootV1 s) + length (sOther s)"

text \<open>\<open>Sort\<close> orders the five tables and leaves the balances where they are. \<open>sort.Slice\<close> with
  \<open>bytes.Compare < 0\<close> sorts by the linear order of the arrays; equal elements are equal bytes.\<close>

definition Sets_Sort :: "'bf Sets \<Rightarrow> 'bf Sets" where
  "Sets_Sort s = s\<lparr>sLegacy := sort (sLegacy s), sP2SH := sort (sP2SH s),
     sSegwitV0 := sort (sSegwitV0 s), sTaprootV1 := sort (sTaprootV1 s),
     sOther := sort (sOther s)\<rparr>"

section \<open>Bloom filters\<close>

definition bloomReady :: "'bf option \<Rightarrow> nat \<Rightarrow> bool" where
  "bloomReady bf entries \<longleftrightarrow> entries = 0 \<or> bf \<noteq> None"

definition bloomsComplete :: "'bf Sets \<Rightarrow> bool" where
  "bloomsComplete s \<longleftrightarrow>
     bloomReady (LegacyBloom s) (length (sLegacy s)) \<and>
     bloomReady (P2SHBloom s) (length (sP2SH s)) \<and>
     bloomReady (SegwitV0Bloom s) (length (sSegwitV0 s)) \<and>
     bloomReady (TaprootV1Bloom s) (length (sTaprootV1 s))"

definition BuildBloom20 :: "'bf bloom_lib \<Rightarrow> hash20 list \<Rightarrow> 'bf option" where
  "BuildBloom20 B tbl =
     (if length tbl = 0 then None
      else Some (fold (\<lambda>entry bf. bloom_Add B bf (array_bytes entry)) tbl
        (bloom_NewWithEstimates B (length tbl) BloomFalsePositiveRate)))"

definition BuildBloom32 :: "'bf bloom_lib \<Rightarrow> hash32 list \<Rightarrow> 'bf option" where
  "BuildBloom32 B tbl =
     (if length tbl = 0 then None
      else Some (fold (\<lambda>entry bf. bloom_Add B bf (array_bytes entry)) tbl
        (bloom_NewWithEstimates B (length tbl) BloomFalsePositiveRate)))"

text \<open>The four goroutines of \<open>BuildBlooms\<close> write four different fields, so their order does not
  matter; the reporter's output is left out.\<close>

definition BuildBlooms :: "'bf bloom_lib \<Rightarrow> 'bf Sets \<Rightarrow> 'bf Sets" where
  "BuildBlooms B s = s\<lparr>LegacyBloom := BuildBloom20 B (sLegacy s),
     P2SHBloom := BuildBloom20 B (sP2SH s), SegwitV0Bloom := BuildBloom20 B (sSegwitV0 s),
     TaprootV1Bloom := BuildBloom32 B (sTaprootV1 s)\<rparr>"

definition EnsureBlooms :: "'bf bloom_lib \<Rightarrow> 'bf Sets \<Rightarrow> 'bf Sets" where
  "EnsureBlooms B s = (if bloomsComplete s then s else BuildBlooms B s)"

section \<open>Lookup\<close>

definition InFunded20 :: "hash20 list \<Rightarrow> hash20 \<Rightarrow> bool" where
  "InFunded20 tbl key =
     (let idx = sort_Search (length tbl)
        (\<lambda>i. bytes_Compare (array_bytes (tbl ! i)) (array_bytes key) \<ge> 0)
      in idx < length tbl \<and> tbl ! idx = key)"

definition InFunded32 :: "hash32 list \<Rightarrow> hash32 \<Rightarrow> bool" where
  "InFunded32 tbl key =
     (let idx = sort_Search (length tbl)
        (\<lambda>i. bytes_Compare (array_bytes (tbl ! i)) (array_bytes key) \<ge> 0)
      in idx < length tbl \<and> tbl ! idx = key)"

definition balanceAt20 :: "hash20 list \<Rightarrow> u64 list \<Rightarrow> hash20 \<Rightarrow> u64" where
  "balanceAt20 tbl balances key =
     (let idx = sort_Search (length tbl)
        (\<lambda>i. bytes_Compare (array_bytes (tbl ! i)) (array_bytes key) \<ge> 0)
      in if idx < length tbl \<and> tbl ! idx = key \<and> idx < length balances then balances ! idx else 0)"

definition balanceAt32 :: "hash32 list \<Rightarrow> u64 list \<Rightarrow> hash32 \<Rightarrow> u64" where
  "balanceAt32 tbl balances key =
     (let idx = sort_Search (length tbl)
        (\<lambda>i. bytes_Compare (array_bytes (tbl ! i)) (array_bytes key) \<ge> 0)
      in if idx < length tbl \<and> tbl ! idx = key \<and> idx < length balances then balances ! idx else 0)"

definition maybeFunded20 :: "'bf bloom_lib \<Rightarrow> 'bf option \<Rightarrow> hash20 list \<Rightarrow> hash20 \<Rightarrow> bool" where
  "maybeFunded20 B bf tbl key =
     (if (case bf of None \<Rightarrow> False | Some f \<Rightarrow> \<not> bloom_Test B f (array_bytes key)) then False
      else InFunded20 tbl key)"

definition maybeFunded32 :: "'bf bloom_lib \<Rightarrow> 'bf option \<Rightarrow> hash32 list \<Rightarrow> hash32 \<Rightarrow> bool" where
  "maybeFunded32 B bf tbl key =
     (if (case bf of None \<Rightarrow> False | Some f \<Rightarrow> \<not> bloom_Test B f (array_bytes key)) then False
      else InFunded32 tbl key)"

definition LookupHit20 :: "'bf bloom_lib \<Rightarrow> 'bf option \<Rightarrow> hash20 list \<Rightarrow> hash20 \<Rightarrow> bool" where
  "LookupHit20 B bf tbl key =
     (if (case bf of None \<Rightarrow> False | Some f \<Rightarrow> \<not> bloom_Test B f (array_bytes key)) then False
      else InFunded20 tbl key)"

definition LookupHit32 :: "'bf bloom_lib \<Rightarrow> 'bf option \<Rightarrow> hash32 list \<Rightarrow> hash32 \<Rightarrow> bool" where
  "LookupHit32 B bf tbl key =
     (if (case bf of None \<Rightarrow> False | Some f \<Rightarrow> \<not> bloom_Test B f (array_bytes key)) then False
      else InFunded32 tbl key)"

fun BalanceForMatch :: "'bf Sets \<Rightarrow> MatchKind \<Rightarrow> LookupKeys \<Rightarrow> u64" where
  "BalanceForMatch s MatchLegacyCompressed keys =
     balanceAt20 (sLegacy s) (LegacyBalance s) (CompressedHash keys)"
| "BalanceForMatch s MatchLegacyUncompressed keys =
     balanceAt20 (sLegacy s) (LegacyBalance s) (UncompressedHash keys)"
| "BalanceForMatch s MatchSegwitV0 keys =
     balanceAt20 (sSegwitV0 s) (SegwitV0Balance s) (CompressedHash keys)"
| "BalanceForMatch s MatchP2SH keys = balanceAt20 (sP2SH s) (P2SHBalance s) (P2SHHash keys)"
| "BalanceForMatch s MatchTaproot keys =
     balanceAt32 (sTaprootV1 s) (TaprootV1Balance s) (TaprootKey keys)"
| "BalanceForMatch s MatchKindOther keys = 0"

text \<open>The pair Go returns; the kind is the zero value when there is no match.\<close>

definition Match :: "'bf bloom_lib \<Rightarrow> 'bf Sets \<Rightarrow> LookupKeys \<Rightarrow> FormatMask \<Rightarrow> MatchKind \<times> bool" where
  "Match B s keys fm =
     (if LegacyCompressed fm \<and> maybeFunded20 B (LegacyBloom s) (sLegacy s) (CompressedHash keys)
      then (MatchLegacyCompressed, True)
      else if LegacyUncompressed fm \<and>
        maybeFunded20 B (LegacyBloom s) (sLegacy s) (UncompressedHash keys)
      then (MatchLegacyUncompressed, True)
      else if Segwit fm \<and> maybeFunded20 B (SegwitV0Bloom s) (sSegwitV0 s) (CompressedHash keys)
      then (MatchSegwitV0, True)
      else if P2SH fm \<and> maybeFunded20 B (P2SHBloom s) (sP2SH s) (P2SHHash keys)
      then (MatchP2SH, True)
      else if Taproot fm \<and> maybeFunded32 B (TaprootV1Bloom s) (sTaprootV1 s) (TaprootKey keys)
      then (MatchTaproot, True)
      else (MatchLegacyCompressed, False))"

fun MatchKindName :: "MatchKind \<Rightarrow> string" where
  "MatchKindName MatchLegacyCompressed = ''legacy_compressed''"
| "MatchKindName MatchLegacyUncompressed = ''legacy_uncompressed''"
| "MatchKindName MatchSegwitV0 = ''segwit_v0''"
| "MatchKindName MatchP2SH = ''p2sh''"
| "MatchKindName MatchTaproot = ''taproot''"
| "MatchKindName MatchKindOther = ''unknown''"

section \<open>A sorted table answers membership and balance\<close>

definition lower_bound :: "'k::linorder list \<Rightarrow> 'k \<Rightarrow> nat" where
  "lower_bound xs k = sort_Search (length xs) (\<lambda>i. k \<le> xs ! i)"

lemma lower_bound_boundary:
  "sorted xs \<Longrightarrow> boundary (length xs) (\<lambda>i. k \<le> xs ! i) (lower_bound xs k)"
  unfolding lower_bound_def
  by (rule sort_Search_boundary) (meson order_trans sorted_nth_mono)

lemma lower_bound_member:
  assumes "sorted xs"
  shows "(lower_bound xs k < length xs \<and> xs ! lower_bound xs k = k) = (k \<in> set xs)"
proof
  assume "k \<in> set xs"
  then obtain i where i: "i < length xs" "xs ! i = k" by (auto simp: in_set_conv_nth)
  let ?r = "lower_bound xs k"
  have b: "\<forall>j < ?r. \<not> k \<le> xs ! j" "\<forall>j. ?r \<le> j \<and> j < length xs \<longrightarrow> k \<le> xs ! j"
    using lower_bound_boundary [OF assms] by (auto simp: boundary_def)
  then have r: "?r \<le> i" using i by (metis linorder_not_le order_refl)
  then have "xs ! ?r \<le> k" using assms i sorted_nth_mono [of xs ?r i] by simp
  then show "?r < length xs \<and> xs ! ?r = k" using b(2) r i by (auto intro: antisym)
qed (metis nth_mem)

lemma lower_bound_nth:
  assumes "sorted xs" "distinct xs" "i < length xs"
  shows "lower_bound xs (xs ! i) = i"
proof -
  have "lower_bound xs (xs ! i) < length xs \<and> xs ! lower_bound xs (xs ! i) = xs ! i"
    using lower_bound_member [OF assms(1), of "xs ! i"] assms(3) by simp
  then show ?thesis using assms nth_eq_iff_index_eq by blast
qed

lemma InFunded_lower_bound:
  "InFunded20 xs k = (lower_bound xs k < length xs \<and> xs ! lower_bound xs k = k)"
  "InFunded32 ys l = (lower_bound ys l < length ys \<and> ys ! lower_bound ys l = l)"
  by (simp_all add: InFunded20_def InFunded32_def lower_bound_def bytes_Compare_array Let_def)

lemma balanceAt_lower_bound:
  "balanceAt20 xs bs k =
    (if lower_bound xs k < length xs \<and> xs ! lower_bound xs k = k \<and> lower_bound xs k < length bs
     then bs ! lower_bound xs k else 0)"
  "balanceAt32 ys bs l =
    (if lower_bound ys l < length ys \<and> ys ! lower_bound ys l = l \<and> lower_bound ys l < length bs
     then bs ! lower_bound ys l else 0)"
  by (simp_all add: balanceAt20_def balanceAt32_def lower_bound_def bytes_Compare_array Let_def)

text \<open>
  The contract of a table: on sorted keys \<open>member\<close> is membership, and on sorted distinct keys
  with one balance each \<open>balance\<close> is the balance at the key's position, 0 for an absent key.
\<close>

locale sorted_table =
  fixes member :: "'k::linorder list \<Rightarrow> 'k \<Rightarrow> bool"
    and balance :: "'k list \<Rightarrow> u64 list \<Rightarrow> 'k \<Rightarrow> u64"
  assumes member_iff: "sorted xs \<Longrightarrow> member xs k = (k \<in> set xs)"
    and balance_nth: "sorted xs \<Longrightarrow> distinct xs \<Longrightarrow> length bs = length xs \<Longrightarrow> i < length xs \<Longrightarrow>
      balance xs bs (xs ! i) = bs ! i"
    and balance_absent: "sorted xs \<Longrightarrow> k \<notin> set xs \<Longrightarrow> balance xs bs k = 0"
begin

lemma balance_map:
  assumes "sorted xs" "distinct xs"
  shows "balance xs (map f xs) k = (if k \<in> set xs then f k else 0)"
proof (cases "k \<in> set xs")
  case True
  then obtain i where "i < length xs" "xs ! i = k" by (auto simp: in_set_conv_nth)
  then show ?thesis using balance_nth [OF assms, of "map f xs" i] True by auto
qed (simp add: balance_absent assms)

lemma balance_in_set:
  assumes "sorted xs" "distinct xs" "length bs = length xs" "k \<in> set xs"
  shows "(k, balance xs bs k) \<in> set (zip xs bs)"
proof -
  obtain i where i: "i < length xs" "xs ! i = k" using assms(4) by (auto simp: in_set_conv_nth)
  then have "balance xs bs k = bs ! i" using balance_nth [OF assms(1-3)] by blast
  with i assms(3) show ?thesis by (auto simp: in_set_zip)
qed

end

interpretation table20: sorted_table InFunded20 balanceAt20
proof
  fix xs :: "hash20 list" and bs :: "u64 list" and k and i
  show "sorted xs \<Longrightarrow> InFunded20 xs k = (k \<in> set xs)"
    by (simp add: InFunded_lower_bound lower_bound_member)
  show "sorted xs \<Longrightarrow> distinct xs \<Longrightarrow> length bs = length xs \<Longrightarrow> i < length xs \<Longrightarrow>
      balanceAt20 xs bs (xs ! i) = bs ! i"
    by (simp add: balanceAt_lower_bound lower_bound_nth)
  show "sorted xs \<Longrightarrow> k \<notin> set xs \<Longrightarrow> balanceAt20 xs bs k = 0"
    using lower_bound_member [of xs k] by (auto simp: balanceAt_lower_bound)
qed

interpretation table32: sorted_table InFunded32 balanceAt32
proof
  fix xs :: "hash32 list" and bs :: "u64 list" and k and i
  show "sorted xs \<Longrightarrow> InFunded32 xs k = (k \<in> set xs)"
    by (simp add: InFunded_lower_bound lower_bound_member)
  show "sorted xs \<Longrightarrow> distinct xs \<Longrightarrow> length bs = length xs \<Longrightarrow> i < length xs \<Longrightarrow>
      balanceAt32 xs bs (xs ! i) = bs ! i"
    by (simp add: balanceAt_lower_bound lower_bound_nth)
  show "sorted xs \<Longrightarrow> k \<notin> set xs \<Longrightarrow> balanceAt32 xs bs k = 0"
    using lower_bound_member [of xs k] by (auto simp: balanceAt_lower_bound)
qed

text \<open>
  A table behind a filter. The filter may pass absent keys, but a filter that passes every key of
  the table (\<open>covers\<close>) makes the filtered lookup equal to membership.
\<close>

locale filtered_table = sorted_table member balance
  for member :: "'k::linorder list \<Rightarrow> 'k \<Rightarrow> bool" and balance :: "'k list \<Rightarrow> u64 list \<Rightarrow> 'k \<Rightarrow> u64" +
  fixes passes :: "'bf \<Rightarrow> 'k \<Rightarrow> bool"
    and lookup :: "'bf option \<Rightarrow> 'k list \<Rightarrow> 'k \<Rightarrow> bool"
  assumes lookup_eq:
    "lookup bf xs k \<longleftrightarrow> (case bf of None \<Rightarrow> True | Some f \<Rightarrow> passes f k) \<and> member xs k"
begin

lemma lookup_sound: "sorted xs \<Longrightarrow> lookup bf xs k \<Longrightarrow> k \<in> set xs"
  by (simp add: lookup_eq member_iff)

lemma lookup_covered:
  "sorted xs \<Longrightarrow> (\<And>f x. bf = Some f \<Longrightarrow> x \<in> set xs \<Longrightarrow> passes f x) \<Longrightarrow> lookup bf xs k = (k \<in> set xs)"
  by (auto simp: lookup_eq member_iff split: option.splits)

end

interpretation maybe20: filtered_table InFunded20 balanceAt20
  "\<lambda>f k. bloom_Test B f (array_bytes k)" "maybeFunded20 B" for B :: "'bf bloom_lib"
  by unfold_locales (simp add: maybeFunded20_def split: option.splits)

interpretation maybe32: filtered_table InFunded32 balanceAt32
  "\<lambda>f k. bloom_Test B f (array_bytes k)" "maybeFunded32 B" for B :: "'bf bloom_lib"
  by unfold_locales (simp add: maybeFunded32_def split: option.splits)

interpretation hit20: filtered_table InFunded20 balanceAt20
  "\<lambda>f k. bloom_Test B f (array_bytes k)" "LookupHit20 B" for B :: "'bf bloom_lib"
  by unfold_locales (simp add: LookupHit20_def split: option.splits)

interpretation hit32: filtered_table InFunded32 balanceAt32
  "\<lambda>f k. bloom_Test B f (array_bytes k)" "LookupHit32 B" for B :: "'bf bloom_lib"
  by unfold_locales (simp add: LookupHit32_def split: option.splits)

section \<open>A well-formed index and what \<open>Match\<close> promises on it\<close>

text \<open>What the code relies on: a filter passes every key that was added to it, before or after
  other keys.\<close>

definition bloom_lossless :: "'bf bloom_lib \<Rightarrow> bool" where
  "bloom_lossless B \<longleftrightarrow>
     (\<forall>f x. bloom_Test B (bloom_Add B f x) x) \<and>
     (\<forall>f x y. bloom_Test B f y \<longrightarrow> bloom_Test B (bloom_Add B f x) y)"

definition covers :: "'bf bloom_lib \<Rightarrow> 'bf option \<Rightarrow> 'n::len byte_array list \<Rightarrow> bool" where
  "covers B bf xs = (case bf of None \<Rightarrow> True | Some f \<Rightarrow> list_all (\<lambda>x. bloom_Test B f (array_bytes x)) xs)"

definition table_ok :: "'n::len byte_array list \<Rightarrow> u64 list \<Rightarrow> bool" where
  "table_ok xs bs \<longleftrightarrow> sorted xs \<and> distinct xs \<and> length bs = length xs"

definition tables_ok :: "'bf Sets \<Rightarrow> bool" where
  "tables_ok s \<longleftrightarrow> table_ok (sLegacy s) (LegacyBalance s) \<and> table_ok (sP2SH s) (P2SHBalance s) \<and>
     table_ok (sSegwitV0 s) (SegwitV0Balance s) \<and> table_ok (sTaprootV1 s) (TaprootV1Balance s)"

definition blooms_cover :: "'bf bloom_lib \<Rightarrow> 'bf Sets \<Rightarrow> bool" where
  "blooms_cover B s \<longleftrightarrow> covers B (LegacyBloom s) (sLegacy s) \<and> covers B (P2SHBloom s) (sP2SH s) \<and>
     covers B (SegwitV0Bloom s) (sSegwitV0 s) \<and> covers B (TaprootV1Bloom s) (sTaprootV1 s)"

definition index_ok :: "'bf bloom_lib \<Rightarrow> 'bf Sets \<Rightarrow> bool" where
  "index_ok B s \<longleftrightarrow> tables_ok s \<and> blooms_cover B s"

lemmas index_ok_defs = index_ok_def tables_ok_def table_ok_def blooms_cover_def

lemma bloom_fold_keeps:
  "bloom_lossless B \<Longrightarrow> bloom_Test B f y \<Longrightarrow>
    bloom_Test B (fold (\<lambda>e f. bloom_Add B f (array_bytes e)) xs f) y"
  by (induction xs arbitrary: f) (auto simp: bloom_lossless_def)

lemma bloom_fold_covers:
  "bloom_lossless B \<Longrightarrow> x \<in> set xs \<Longrightarrow>
    bloom_Test B (fold (\<lambda>e f. bloom_Add B f (array_bytes e)) xs f) (array_bytes x)"
proof (induction xs arbitrary: f)
  case (Cons a xs)
  then show ?case
    using bloom_fold_keeps [of B "bloom_Add B f (array_bytes a)" "array_bytes a" xs]
    by (auto simp: bloom_lossless_def)
qed simp

lemma BuildBloom_covers [index_rules]:
  "bloom_lossless B \<Longrightarrow> covers B (BuildBloom20 B xs) xs"
  "bloom_lossless B \<Longrightarrow> covers B (BuildBloom32 B ys) ys"
  by (simp_all add: covers_def BuildBloom20_def BuildBloom32_def list_all_iff bloom_fold_covers)

lemma BuildBloom_ready:
  "bloomReady (BuildBloom20 B xs) (length xs)" "bloomReady (BuildBloom32 B ys) (length ys)"
  by (simp_all add: bloomReady_def BuildBloom20_def BuildBloom32_def)

lemma tables_ok_blooms [simp]:
  "tables_ok (s\<lparr>LegacyBloom := a, P2SHBloom := b, SegwitV0Bloom := c, TaprootV1Bloom := d\<rparr>)
    = tables_ok s"
  by (simp add: tables_ok_def)

lemma BuildBlooms_ok:
  "bloom_lossless B \<Longrightarrow> tables_ok s \<Longrightarrow> index_ok B (BuildBlooms B s) \<and> bloomsComplete (BuildBlooms B s)"
  by (simp add: index_ok_def BuildBlooms_def blooms_cover_def BuildBloom_covers bloomsComplete_def
      BuildBloom_ready)

lemma EnsureBlooms_ok:
  "bloom_lossless B \<Longrightarrow> index_ok B s \<Longrightarrow> index_ok B (EnsureBlooms B s) \<and> bloomsComplete (EnsureBlooms B s)"
  using BuildBlooms_ok by (auto simp: EnsureBlooms_def index_ok_def)

lemma maybeFunded_covered:
  "sorted xs \<Longrightarrow> covers B bf xs \<Longrightarrow> maybeFunded20 B bf xs k = (k \<in> set xs)"
  "sorted ys \<Longrightarrow> covers B bf ys \<Longrightarrow> maybeFunded32 B bf ys l = (l \<in> set ys)"
  by (rule maybe20.lookup_covered maybe32.lookup_covered;
      auto simp: covers_def list_all_iff split: option.splits)+

lemma LookupHit_eq_maybe:
  "LookupHit20 B bf xs k = maybeFunded20 B bf xs k" "LookupHit32 B bf ys l = maybeFunded32 B bf ys l"
  by (simp_all add: hit20.lookup_eq maybe20.lookup_eq hit32.lookup_eq maybe32.lookup_eq)

text \<open>The specification: the formats in their fixed order, the first one that is selected and whose
  key is in the table of its kind.\<close>

definition match_order :: "MatchKind list" where
  "match_order =
     [MatchLegacyCompressed, MatchLegacyUncompressed, MatchSegwitV0, MatchP2SH, MatchTaproot]"

fun format_enabled :: "FormatMask \<Rightarrow> MatchKind \<Rightarrow> bool" where
  "format_enabled fm MatchLegacyCompressed = LegacyCompressed fm"
| "format_enabled fm MatchLegacyUncompressed = LegacyUncompressed fm"
| "format_enabled fm MatchSegwitV0 = Segwit fm"
| "format_enabled fm MatchP2SH = P2SH fm"
| "format_enabled fm MatchTaproot = Taproot fm"
| "format_enabled fm MatchKindOther = False"

fun key_funded :: "'bf Sets \<Rightarrow> LookupKeys \<Rightarrow> MatchKind \<Rightarrow> bool" where
  "key_funded s keys MatchLegacyCompressed = (CompressedHash keys \<in> set (sLegacy s))"
| "key_funded s keys MatchLegacyUncompressed = (UncompressedHash keys \<in> set (sLegacy s))"
| "key_funded s keys MatchSegwitV0 = (CompressedHash keys \<in> set (sSegwitV0 s))"
| "key_funded s keys MatchP2SH = (P2SHHash keys \<in> set (sP2SH s))"
| "key_funded s keys MatchTaproot = (TaprootKey keys \<in> set (sTaprootV1 s))"
| "key_funded s keys MatchKindOther = False"

definition match_spec :: "'bf Sets \<Rightarrow> LookupKeys \<Rightarrow> FormatMask \<Rightarrow> MatchKind option" where
  "match_spec s keys fm = find (\<lambda>k. format_enabled fm k \<and> key_funded s keys k) match_order"

definition match_result :: "MatchKind option \<Rightarrow> MatchKind \<times> bool" where
  "match_result r = (case r of None \<Rightarrow> (MatchLegacyCompressed, False) | Some k \<Rightarrow> (k, True))"

lemma Match_spec:
  assumes "index_ok B s"
  shows "Match B s keys fm = match_result (match_spec s keys fm)"
proof -
  have t: "sorted (sLegacy s)" "sorted (sP2SH s)" "sorted (sSegwitV0 s)" "sorted (sTaprootV1 s)"
    and c: "covers B (LegacyBloom s) (sLegacy s)" "covers B (P2SHBloom s) (sP2SH s)"
      "covers B (SegwitV0Bloom s) (sSegwitV0 s)" "covers B (TaprootV1Bloom s) (sTaprootV1 s)"
    using assms by (simp_all add: index_ok_defs)
  show ?thesis
    by (simp add: Match_def match_spec_def match_order_def match_result_def t c maybeFunded_covered)
qed

lemma match_spec_Some: "match_spec s keys fm = Some k \<Longrightarrow> format_enabled fm k \<and> key_funded s keys k"
  by (auto simp: match_spec_def find_Some_iff)

lemma match_spec_None:
  "match_spec s keys fm = None \<longleftrightarrow> (\<forall>k. \<not> (format_enabled fm k \<and> key_funded s keys k))"
proof -
  have "format_enabled fm k \<Longrightarrow> k \<in> set match_order" for k
    by (cases k) (simp_all add: match_order_def)
  then show ?thesis by (auto simp: match_spec_def find_None_iff)
qed

section \<open>A sample filter\<close>

text \<open>A Bloom filter of eight bits with one hash function, for the witnesses.\<close>

definition sample_slot :: "u8 list \<Rightarrow> nat" where
  "sample_slot x = unat (sum_list x) mod 8"

definition sample_bloom :: "u8 bloom_lib" where
  "sample_bloom =
     \<lparr>bloom_NewWithEstimates = (\<lambda>n p. 0),
      bloom_Add = (\<lambda>f x. f OR push_bit (sample_slot x) 1),
      bloom_Test = (\<lambda>f x. bit f (sample_slot x)),
      bloom_MarshalBinary = (\<lambda>f. Inr [f]),
      bloom_UnmarshalBinary = (\<lambda>d. case d of [f] \<Rightarrow> Inr f | _ \<Rightarrow> Inl ''bad filter'')\<rparr>"

lemma sample_bloom_lossless: "bloom_lossless sample_bloom"
proof -
  have "sample_slot x < 8" for x by (simp add: sample_slot_def)
  then show ?thesis by (auto simp: bloom_lossless_def sample_bloom_def bit_simps)
qed

definition sample_sets :: "u8 Sets" where
  "sample_sets = BuildBlooms sample_bloom (zero_Sets\<lparr>
     sLegacy := [copy_array [1, 2, 3], copy_array [9, 9, 9]], LegacyBalance := [50000, 999999],
     sTaprootV1 := [copy_array [7]], TaprootV1Balance := [30000]\<rparr>)"

definition sample_keys :: LookupKeys where
  "sample_keys = zero_keys\<lparr>CompressedHash := copy_array [9, 9, 9], TaprootKey := copy_array [7]\<rparr>"

lemma sample_hashes:
  "(copy_array [1, 2, 3] :: hash20) < copy_array [9, 9, 9]"
  "(copy_array [1, 2, 3] :: hash20) \<noteq> copy_array [9, 9, 9]"
  by (simp_all add: less_byte_array_def array_eq_iff array_bytes_copy_array)

lemma sample_hashes_not_le: "\<not> (copy_array [9, 9, 9] :: hash20) \<le> copy_array [1, 2, 3]"
  using sample_hashes(1) by (simp add: not_le)

lemma sample_tables_ok: "tables_ok sample_sets"
  using sample_hashes by (simp add: sample_sets_def BuildBlooms_def zero_Sets_def tables_ok_def table_ok_def)

lemma sample_index_ok: "index_ok sample_bloom sample_sets"
  using BuildBlooms_ok [OF sample_bloom_lossless, of sample_sets] sample_tables_ok
  by (simp add: sample_sets_def BuildBlooms_def)

lemma sample_specs:
  "match_spec sample_sets sample_keys AllFormats = Some MatchLegacyCompressed"
  "match_spec sample_sets sample_keys (NoFormatMask\<lparr>Taproot := True\<rparr>) = Some MatchTaproot"
  by (simp_all add: match_spec_def match_order_def sample_sets_def sample_keys_def zero_keys_def
      BuildBlooms_def AllFormats_def NoFormatMask_def)

section \<open>Properties of the index\<close>

text \<open>The binary search over a sorted table, with Go's \<open>sort.Search\<close> and \<open>bytes.Compare\<close>, finds a
  key exactly when it is in the table, for the 20-byte and for the 32-byte tables.\<close>

theorem InFunded_is_membership:
  assumes "sorted xs" "sorted ys"
  shows "InFunded20 xs k = (k \<in> set xs) \<and> InFunded32 ys l = (l \<in> set ys)"
  using table20.member_iff [OF assms(1)] table32.member_iff [OF assms(2)] by blast

theorem InFunded_is_membership_witness:
  "InFunded20 [copy_array [1, 2, 3], copy_array [9, 9, 9]] (copy_array [9, 9, 9]) \<and>
    \<not> InFunded32 [] zero_array"
  using InFunded_is_membership [of "[copy_array [1, 2, 3], copy_array [9, 9, 9]]" "[]"
      "copy_array [9, 9, 9]" zero_array] sample_hashes(1)
  by simp

text \<open>C7. On a well-formed index whose filters pass the keys of their tables, \<open>Match\<close> is the
  specification: it reports a match exactly when some selected format's key is in that format's
  table, and the kind it reports is the first such one in the order legacy compressed, legacy
  uncompressed, SegWit, P2SH, Taproot. The filters change nothing.\<close>

theorem Match_correct:
  assumes "index_ok B s"
  shows "Match B s keys fm = match_result (match_spec s keys fm)"
  by (rule Match_spec [OF assms])

theorem Match_correct_witness:
  "Match sample_bloom sample_sets sample_keys AllFormats = (MatchLegacyCompressed, True) \<and>
    Match sample_bloom sample_sets sample_keys (NoFormatMask\<lparr>Taproot := True\<rparr>) = (MatchTaproot, True)"
  unfolding Match_correct [OF sample_index_ok] sample_specs by (simp add: match_result_def)

text \<open>The balance the code reports for a kind, as an entry of the table of that kind.\<close>

fun balance_recorded :: "'bf Sets \<Rightarrow> LookupKeys \<Rightarrow> MatchKind \<Rightarrow> u64 \<Rightarrow> bool" where
  "balance_recorded s keys MatchLegacyCompressed b =
     ((CompressedHash keys, b) \<in> set (zip (sLegacy s) (LegacyBalance s)))"
| "balance_recorded s keys MatchLegacyUncompressed b =
     ((UncompressedHash keys, b) \<in> set (zip (sLegacy s) (LegacyBalance s)))"
| "balance_recorded s keys MatchSegwitV0 b =
     ((CompressedHash keys, b) \<in> set (zip (sSegwitV0 s) (SegwitV0Balance s)))"
| "balance_recorded s keys MatchP2SH b =
     ((P2SHHash keys, b) \<in> set (zip (sP2SH s) (P2SHBalance s)))"
| "balance_recorded s keys MatchTaproot b =
     ((TaprootKey keys, b) \<in> set (zip (sTaprootV1 s) (TaprootV1Balance s)))"
| "balance_recorded s keys MatchKindOther b = False"

lemma balance_of_funded:
  assumes "tables_ok s" "key_funded s keys k"
  shows "balance_recorded s keys k (BalanceForMatch s k keys)"
  using assms table20.balance_in_set table32.balance_in_set
  by (cases k) (simp_all add: tables_ok_def table_ok_def)

lemma balance_of_unfunded:
  assumes "tables_ok s" "\<not> key_funded s keys k"
  shows "BalanceForMatch s k keys = 0"
  using assms by (cases k)
    (simp_all add: tables_ok_def table_ok_def table20.balance_absent table32.balance_absent)

text \<open>When \<open>Match\<close> reports a kind, \<open>BalanceForMatch\<close> returns the balance stored beside the very
  key that matched.\<close>

theorem Match_balance:
  assumes "index_ok B s" "Match B s keys fm = (k, True)"
  shows "balance_recorded s keys k (BalanceForMatch s k keys)"
proof -
  have "match_spec s keys fm = Some k"
    using assms by (auto simp: Match_spec match_result_def split: option.splits)
  then have "key_funded s keys k" by (simp add: match_spec_Some)
  with assms(1) show ?thesis by (simp add: balance_of_funded index_ok_def)
qed

theorem Match_balance_witness:
  "balance_recorded sample_sets sample_keys MatchLegacyCompressed
    (BalanceForMatch sample_sets MatchLegacyCompressed sample_keys)"
  by (rule Match_balance [OF sample_index_ok, of _ AllFormats])
    (simp add: Match_spec [OF sample_index_ok] sample_specs match_result_def)

text \<open>Filters built from well-formed tables make a well-formed index: no key of any table is
  rejected by its filter, and \<open>EnsureBlooms\<close> then has nothing left to build.\<close>

theorem BuildBlooms_index_ok:
  assumes "bloom_lossless B" "tables_ok s"
  shows "index_ok B (BuildBlooms B s) \<and> EnsureBlooms B (BuildBlooms B s) = BuildBlooms B s"
  using BuildBlooms_ok [OF assms] by (simp add: EnsureBlooms_def)

theorem BuildBlooms_index_ok_witness:
  "index_ok sample_bloom (BuildBlooms sample_bloom sample_sets)"
  using BuildBlooms_index_ok [OF sample_bloom_lossless sample_tables_ok] by blast

lemma Sort_tables_ok: "tables_ok s \<Longrightarrow> Sets_Sort s = s\<lparr>sOther := sort (sOther s)\<rparr>"
  by (simp add: Sets_Sort_def tables_ok_def table_ok_def sorted_sort_id)

text \<open>
  \<open>Sort\<close> moves the keys of an unsorted table but not their balances, so it is only right on tables
  that are sorted already (which is what \<open>Build\<close> returns). On an index with the two keys in the
  wrong order it hands each key the other's balance.
\<close>

definition unsorted_sets :: "u8 Sets" where
  "unsorted_sets = zero_Sets\<lparr>sLegacy := [copy_array [9, 9, 9], copy_array [1, 2, 3]],
     LegacyBalance := [999999, 50000]\<rparr>"

lemma Sort_misaligns_balances:
  "(copy_array [1, 2, 3], 50000) \<in> set (zip (sLegacy unsorted_sets) (LegacyBalance unsorted_sets)) \<and>
    BalanceForMatch (Sets_Sort unsorted_sets) MatchLegacyCompressed
      (zero_keys\<lparr>CompressedHash := copy_array [1, 2, 3]\<rparr>) = 999999"
proof -
  have "balanceAt20 [copy_array [1, 2, 3], copy_array [9, 9, 9]] [999999, 50000] (copy_array [1, 2, 3])
      = 999999"
    using table20.balance_nth [of "[copy_array [1, 2, 3], copy_array [9, 9, 9]]" "[999999, 50000]" 0]
      sample_hashes by simp
  then show ?thesis
    by (simp add: unsorted_sets_def Sets_Sort_def sample_hashes_not_le zero_Sets_def zero_keys_def)
qed

end
