(* ===== verification/Builder.thy ===== *)
theory Builder
  imports TsvParse Index
begin

text \<open>
  funded/builder.go and the TSV half of funded/load.go: rows are merged into four maps from hash to
  balance, the largest balance winning, and the maps are written out as sorted tables with parallel
  balances. A Go map is an association list with distinct keys; its order stands for the order of
  \<open>range\<close>, which Go leaves open and the sorting makes irrelevant.
\<close>

record Builder =
  b_legacy :: "(hash20 \<times> u64) list"
  b_p2sh :: "(hash20 \<times> u64) list"
  b_segwit :: "(hash20 \<times> u64) list"
  b_taproot :: "(hash32 \<times> u64) list"
  b_other :: "string list"
  b_minBalance :: u64

definition NewBuilder :: "u64 \<Rightarrow> Builder" where
  "NewBuilder minBalance = \<lparr>b_legacy = [], b_p2sh = [], b_segwit = [], b_taproot = [],
     b_other = [], b_minBalance = minBalance\<rparr>"

definition mergeBalance20 :: "(hash20 \<times> u64) list \<Rightarrow> u8 list \<Rightarrow> u64 \<Rightarrow> (hash20 \<times> u64) list" where
  "mergeBalance20 m hash balance =
     (if length hash \<noteq> 20 then m
      else
        (let key = copy_array hash in
         case map_of m key of
           None \<Rightarrow> AList.update key balance m
         | Some prev \<Rightarrow> if balance > prev then AList.update key balance m else m))"

definition mergeBalance32 :: "(hash32 \<times> u64) list \<Rightarrow> u8 list \<Rightarrow> u64 \<Rightarrow> (hash32 \<times> u64) list" where
  "mergeBalance32 m hash balance =
     (if length hash \<noteq> 32 then m
      else
        (let key = copy_array hash in
         case map_of m key of
           None \<Rightarrow> AList.update key balance m
         | Some prev \<Rightarrow> if balance > prev then AList.update key balance m else m))"

definition Add :: "addr_lib \<Rightarrow> string \<times> u64 \<Rightarrow> Builder \<Rightarrow> Builder" where
  "Add L row b =
     (case row of (addr, balance) \<Rightarrow>
        if balance < b_minBalance b then b
        else
          (case DecodeFundedAddressForLoad L addr of
             Inl err \<Rightarrow> b\<lparr>b_other := b_other b @ [addr]\<rparr>
           | Inr (kind, hash) \<Rightarrow>
               (case kind of
                  KindLegacy \<Rightarrow> b\<lparr>b_legacy := mergeBalance20 (b_legacy b) hash balance\<rparr>
                | KindP2SH \<Rightarrow> b\<lparr>b_p2sh := mergeBalance20 (b_p2sh b) hash balance\<rparr>
                | KindSegwitV0 \<Rightarrow> b\<lparr>b_segwit := mergeBalance20 (b_segwit b) hash balance\<rparr>
                | KindTaprootV1 \<Rightarrow> b\<lparr>b_taproot := mergeBalance32 (b_taproot b) hash balance\<rparr>)))"

text \<open>\<open>m[k]\<close> of a Go map: the zero value for a missing key.\<close>

definition map_get :: "('k \<times> u64) list \<Rightarrow> 'k \<Rightarrow> u64" where
  "map_get m k = (case map_of m k of None \<Rightarrow> 0 | Some v \<Rightarrow> v)"

definition sortedHash20 :: "(hash20 \<times> u64) list \<Rightarrow> hash20 list" where
  "sortedHash20 m = sort (map fst m)"

definition sortedBalances20 :: "(hash20 \<times> u64) list \<Rightarrow> u64 list" where
  "sortedBalances20 m = map (map_get m) (sortedHash20 m)"

definition sortedHash32 :: "(hash32 \<times> u64) list \<Rightarrow> hash32 list" where
  "sortedHash32 m = sort (map fst m)"

definition sortedBalances32 :: "(hash32 \<times> u64) list \<Rightarrow> u64 list" where
  "sortedBalances32 m = map (map_get m) (sortedHash32 m)"

definition Build :: "Builder \<Rightarrow> 'bf Sets" where
  "Build b = \<lparr>sLegacy = sortedHash20 (b_legacy b), sP2SH = sortedHash20 (b_p2sh b),
     sSegwitV0 = sortedHash20 (b_segwit b), sTaprootV1 = sortedHash32 (b_taproot b),
     sOther = b_other b, LegacyBalance = sortedBalances20 (b_legacy b),
     P2SHBalance = sortedBalances20 (b_p2sh b), SegwitV0Balance = sortedBalances20 (b_segwit b),
     TaprootV1Balance = sortedBalances32 (b_taproot b), MinBalanceSats = b_minBalance b,
     LegacyBloom = None, P2SHBloom = None, SegwitV0Bloom = None, TaprootV1Bloom = None\<rparr>"

section \<open>Reading the file\<close>

text \<open>
  \<open>bufio.Scanner\<close> over the file's bytes: lines end in a newline, a carriage return before it is
  dropped, the last line needs no newline, and a line that fills the buffer of \<open>maxToken\<close> bytes
  stops the scan with an error.
\<close>

definition raw_lines :: "string \<Rightarrow> string list" where
  "raw_lines s = (let ls = Split (CHR 0x0A) s in if last ls = [] then butlast ls else ls)"

definition dropCR :: "string \<Rightarrow> string" where
  "dropCR l = (if l \<noteq> [] \<and> last l = CHR 0x0D then butlast l else l)"

definition maxToken :: nat where "maxToken = 10 * 1024 * 1024"

datatype load_error = TokenTooLong | OpenFailed | ReadFailed

definition scan_lines :: "string \<Rightarrow> string list \<times> bool" where
  "scan_lines content =
     (let ls = takeWhile (\<lambda>l. length l < maxToken) (raw_lines content)
      in (map dropCR ls, length ls < length (raw_lines content)))"

text \<open>The first line is the header and is skipped; a line that is no row is skipped too.\<close>

definition parseTSV :: "addr_lib \<Rightarrow> u64 \<Rightarrow> string \<Rightarrow> load_error + 'bf Sets" where
  "parseTSV L minBalance content =
     (case scan_lines content of (lines, tooLong) \<Rightarrow>
        let builder = fold (\<lambda>line b. case ParseTSVLine line of None \<Rightarrow> b | Some row \<Rightarrow> Add L row b)
              (drop 1 lines) (NewBuilder minBalance)
        in if tooLong then Inl TokenTooLong else Inr (Build builder))"

section \<open>What the maps hold\<close>

text \<open>The abstract builder: for a kind and a payload, the largest balance seen so far.\<close>

fun builder_lookup :: "Builder \<Rightarrow> AddressKind \<Rightarrow> u8 list \<Rightarrow> u64 option" where
  "builder_lookup b KindLegacy h = map_of (b_legacy b) (copy_array h)"
| "builder_lookup b KindP2SH h = map_of (b_p2sh b) (copy_array h)"
| "builder_lookup b KindSegwitV0 h = map_of (b_segwit b) (copy_array h)"
| "builder_lookup b KindTaprootV1 h = map_of (b_taproot b) (copy_array h)"

definition opt_max :: "u64 option \<Rightarrow> u64 \<Rightarrow> u64 option" where
  "opt_max r v = (case r of None \<Rightarrow> Some v | Some p \<Rightarrow> Some (max p v))"

lemma opt_max_simps [simp]: "opt_max None v = Some v" "opt_max (Some p) v = Some (max p v)"
  by (simp_all add: opt_max_def)

definition builder_ok :: "Builder \<Rightarrow> bool" where
  "builder_ok b \<longleftrightarrow> distinct (map fst (b_legacy b)) \<and> distinct (map fst (b_p2sh b)) \<and>
     distinct (map fst (b_segwit b)) \<and> distinct (map fst (b_taproot b))"

lemma mergeBalance_lookup:
  "length hash = 20 \<Longrightarrow> map_of (mergeBalance20 m hash v) k =
    (if k = copy_array hash then opt_max (map_of m k) v else map_of m k)"
  "length hash' = 32 \<Longrightarrow> map_of (mergeBalance32 m' hash' v) k' =
    (if k' = copy_array hash' then opt_max (map_of m' k') v else map_of m' k')"
  by (auto simp: mergeBalance20_def mergeBalance32_def update_conv opt_max_def Let_def max_def
      split: option.split)

lemma mergeBalance_distinct:
  "distinct (map fst m) \<Longrightarrow> distinct (map fst (mergeBalance20 m hash v))"
  "distinct (map fst m') \<Longrightarrow> distinct (map fst (mergeBalance32 m' hash v))"
  by (auto simp: mergeBalance20_def mergeBalance32_def Let_def intro!: distinct_update
      split: option.split)

lemma NewBuilder_ok [simp]: "builder_ok (NewBuilder m)"
  by (simp add: builder_ok_def NewBuilder_def)

lemma NewBuilder_minBalance [simp]: "b_minBalance (NewBuilder m) = m"
  by (simp add: NewBuilder_def)

lemma builder_lookup_New [simp]: "builder_lookup (NewBuilder m) k h = None"
  by (cases k) (simp_all add: NewBuilder_def)

lemma Add_minBalance [simp]: "b_minBalance (Add L row b) = b_minBalance b"
  by (simp add: Add_def split: prod.split sum.split AddressKind.split)

lemma Add_ok: "builder_ok b \<Longrightarrow> builder_ok (Add L row b)"
  by (simp add: Add_def builder_ok_def mergeBalance_distinct
      split: prod.split sum.split AddressKind.split)

text \<open>The rows that count for a payload.\<close>

definition row_for :: "addr_lib \<Rightarrow> u64 \<Rightarrow> AddressKind \<Rightarrow> u8 list \<Rightarrow> string \<times> u64 \<Rightarrow> bool" where
  "row_for L minBalance k h row \<longleftrightarrow>
     minBalance \<le> snd row \<and> DecodeFundedAddressForLoad L (fst row) = Inr (k, h)"

lemma Add_lookup:
  assumes "length h = kind_length k"
  shows "builder_lookup (Add L row b) k h =
    (if row_for L (b_minBalance b) k h row then opt_max (builder_lookup b k h) (snd row)
     else builder_lookup b k h)"
proof -
  obtain addr v where row: "row = (addr, v)" by (rule prod.exhaust)
  show ?thesis
  proof (cases "DecodeFundedAddressForLoad L addr")
    case (Inl e)
    then show ?thesis by (cases k) (simp_all add: Add_def row_for_def row)
  next
    case (Inr p)
    then obtain k' h' where d: "DecodeFundedAddressForLoad L addr = Inr (k', h')"
      by (cases p) auto
    have len: "length h' = kind_length k'" by (rule DecodeForLoad_length [OF d])
    show ?thesis
      using d len assms
      by (cases k; cases k') (auto simp: Add_def row_for_def kind_length_def mergeBalance_lookup
          copy_array_inj row)
  qed
qed

definition add_rows :: "addr_lib \<Rightarrow> (string \<times> u64) list \<Rightarrow> Builder \<Rightarrow> Builder" where
  "add_rows L rows b = fold (Add L) rows b"

lemma add_rows_simps [simp]:
  "add_rows L [] b = b"
  "add_rows L (row # rows) b = add_rows L rows (Add L row b)"
  by (simp_all add: add_rows_def)

lemma add_rows_ok: "builder_ok b \<Longrightarrow> builder_ok (add_rows L rows b)"
  by (induction rows arbitrary: b) (simp_all add: Add_ok)

lemma add_rows_minBalance [simp]: "b_minBalance (add_rows L rows b) = b_minBalance b"
  by (induction rows arbitrary: b) simp_all

lemma add_rows_lookup:
  assumes "length h = kind_length k"
  shows "builder_lookup (add_rows L rows b) k h =
    fold (\<lambda>v r. opt_max r v) (map snd (filter (row_for L (b_minBalance b) k h) rows))
      (builder_lookup b k h)"
  by (induction rows arbitrary: b) (simp_all add: Add_lookup [OF assms])

lemma fold_opt_max_Some: "fold (\<lambda>v r. opt_max r v) vs (Some p) = Some (Max (set (p # vs)))"
proof (induction vs arbitrary: p)
  case (Cons v vs)
  have "Max (set (p # v # vs)) = Max (set (max p v # vs))"
    by (cases "vs = []") (simp_all add: max.assoc)
  then show ?case using Cons.IH [of "max p v"] by simp
qed simp

lemma fold_opt_max:
  "fold (\<lambda>v r. opt_max r v) vs None = (if vs = [] then None else Some (Max (set vs)))"
  by (cases vs) (simp_all add: fold_opt_max_Some)

text \<open>The reference: the largest balance among the rows for a payload, if there is one.\<close>

definition best_balance ::
  "addr_lib \<Rightarrow> u64 \<Rightarrow> (string \<times> u64) list \<Rightarrow> AddressKind \<Rightarrow> u8 list \<Rightarrow> u64 option" where
  "best_balance L minBalance rows k h =
     (let vs = map snd (filter (row_for L minBalance k h) rows)
      in if vs = [] then None else Some (Max (set vs)))"

lemma add_rows_best:
  "length h = kind_length k \<Longrightarrow>
    builder_lookup (add_rows L rows (NewBuilder m)) k h = best_balance L m rows k h"
  using add_rows_lookup [of h k L rows "NewBuilder m"]
  by (simp add: fold_opt_max best_balance_def Let_def)

section \<open>The tables \<open>Build\<close> writes\<close>

fun sets_lookup :: "'bf Sets \<Rightarrow> AddressKind \<Rightarrow> u8 list \<Rightarrow> u64 option" where
  "sets_lookup s KindLegacy h = map_of (zip (sLegacy s) (LegacyBalance s)) (copy_array h)"
| "sets_lookup s KindP2SH h = map_of (zip (sP2SH s) (P2SHBalance s)) (copy_array h)"
| "sets_lookup s KindSegwitV0 h = map_of (zip (sSegwitV0 s) (SegwitV0Balance s)) (copy_array h)"
| "sets_lookup s KindTaprootV1 h = map_of (zip (sTaprootV1 s) (TaprootV1Balance s)) (copy_array h)"

lemma map_of_zip_map: "map_of (zip xs (map f xs)) k = (if k \<in> set xs then Some (f k) else None)"
  by (induction xs) auto

lemma map_get_present: "k \<in> fst ` set m \<Longrightarrow> Some (map_get m k) = map_of m k"
  by (cases "map_of m k") (auto simp: map_get_def map_of_eq_None_iff)

lemma map_get_absent: "k \<notin> fst ` set m \<Longrightarrow> map_of m k = None"
  by (simp add: map_of_eq_None_iff)

lemma sorted_table_lookup:
  "map_of (zip (sortedHash20 m) (sortedBalances20 m)) k = map_of m k"
  "map_of (zip (sortedHash32 m') (sortedBalances32 m')) k' = map_of m' k'"
  by (simp_all add: sortedBalances20_def sortedBalances32_def sortedHash20_def sortedHash32_def
      map_of_zip_map map_get_present map_get_absent)

lemma Build_lookup: "sets_lookup (Build b) k h = builder_lookup b k h"
  by (cases k) (simp_all add: Build_def sorted_table_lookup)

lemma Build_tables_ok: "builder_ok b \<Longrightarrow> tables_ok (Build b)"
  by (simp add: builder_ok_def tables_ok_def table_ok_def Build_def sortedHash20_def
      sortedHash32_def sortedBalances20_def sortedBalances32_def)

text \<open>The order in which Go ranges over its maps does not matter: two builders that hold the same
  maps build the same index.\<close>

lemma sorted_tables_eqI:
  assumes "distinct (map fst m)" "distinct (map fst m')" "map_of m = map_of m'"
  shows "sort (map fst m) = sort (map fst m')" "map_get m = map_get m'"
proof -
  have "set (map fst m) = set (map fst m')" using assms(3) by (metis dom_map_of_conv_image_fst set_map)
  then show "sort (map fst m) = sort (map fst m')" using assms(1,2) by (intro sort_eqI)
  show "map_get m = map_get m'" by (simp add: map_get_def assms(3) fun_eq_iff)
qed

definition same_maps :: "Builder \<Rightarrow> Builder \<Rightarrow> bool" where
  "same_maps a b \<longleftrightarrow> map_of (b_legacy a) = map_of (b_legacy b) \<and> map_of (b_p2sh a) = map_of (b_p2sh b) \<and>
     map_of (b_segwit a) = map_of (b_segwit b) \<and> map_of (b_taproot a) = map_of (b_taproot b) \<and>
     b_other a = b_other b \<and> b_minBalance a = b_minBalance b"

lemma Build_same_maps:
  assumes "builder_ok a" "builder_ok b" "same_maps a b"
  shows "Build a = Build b"
  using assms sorted_tables_eqI [of "b_legacy a" "b_legacy b"] sorted_tables_eqI [of "b_p2sh a" "b_p2sh b"]
    sorted_tables_eqI [of "b_segwit a" "b_segwit b"] sorted_tables_eqI [of "b_taproot a" "b_taproot b"]
  by (simp add: builder_ok_def same_maps_def Build_def sortedHash20_def sortedHash32_def
      sortedBalances20_def sortedBalances32_def)

section \<open>The loaded file\<close>

definition tsv_rows :: "string \<Rightarrow> (string \<times> u64) list" where
  "tsv_rows content = List.map_filter ParseTSVLine (drop 1 (fst (scan_lines content)))"

lemma fold_lines:
  "fold (\<lambda>line b. case ParseTSVLine line of None \<Rightarrow> b | Some row \<Rightarrow> Add L row b) lines b =
    add_rows L (List.map_filter ParseTSVLine lines) b"
  by (induction lines arbitrary: b) (auto simp: map_filter_simps split: option.split)

lemma parseTSV_Inr:
  "parseTSV L m content = Inr s \<Longrightarrow> s = Build (add_rows L (tsv_rows content) (NewBuilder m))"
  by (auto simp: parseTSV_def fold_lines tsv_rows_def Let_def split: prod.splits if_splits)

lemma Add_other:
  "b_other (Add L row b) = b_other b @
    (if b_minBalance b \<le> snd row \<and> (\<exists>e. DecodeFundedAddressForLoad L (fst row) = Inl e)
     then [fst row] else [])"
  by (auto simp: Add_def not_le split: prod.split sum.split AddressKind.split)

lemma add_rows_other:
  "b_other (add_rows L rows b) = b_other b @
    map fst (filter (\<lambda>row. b_minBalance b \<le> snd row \<and>
      (\<exists>e. DecodeFundedAddressForLoad L (fst row) = Inl e)) rows)"
  by (induction rows arbitrary: b) (auto simp: Add_other)

text \<open>C10. The index parsed from funded.tsv is well formed (each table sorted, without duplicates,
  with one balance per key), and it refines the rows of the file: a payload is in the table of its
  kind exactly when some row above the minimum balance decodes to it, with the largest balance of
  those rows; the addresses that do not decode are kept, in order, in \<open>Other\<close>.\<close>

theorem parseTSV_refines_rows:
  assumes "parseTSV L m content = Inr s" "length h = kind_length k"
  shows "tables_ok s \<and> sets_lookup s k h = best_balance L m (tsv_rows content) k h \<and>
    sOther s = map fst (filter (\<lambda>row. m \<le> snd row \<and>
      (\<exists>e. DecodeFundedAddressForLoad L (fst row) = Inl e)) (tsv_rows content))"
proof -
  let ?b = "add_rows L (tsv_rows content) (NewBuilder m)"
  have s: "s = Build ?b" by (rule parseTSV_Inr [OF assms(1)])
  have "sOther s = b_other ?b" by (simp add: s Build_def)
  then show ?thesis
    by (simp add: s Build_tables_ok add_rows_ok Build_lookup add_rows_best [OF assms(2)]
        add_rows_other) (simp add: NewBuilder_def)
qed

definition sample_tsv :: string where
  "sample_tsv = ''address'' @ TAB # ''balance'' @ CHR 0x0A #
     ''1AAAAAAAAAAAAAAAAAAAA'' @ TAB # ''40000'' @ CHR 0x0A #
     ''1AAAAAAAAAAAAAAAAAAAA'' @ TAB # ''50000'' @ CHR 0x0A #
     ''1BBBBBBBBBBBBBBBBBBBB'' @ TAB # ''7'' @ [CHR 0x0A]"

lemma sample_lines:
  "scan_lines sample_tsv =
    ([''address'' @ TAB # ''balance'', ''1AAAAAAAAAAAAAAAAAAAA'' @ TAB # ''40000'',
      ''1AAAAAAAAAAAAAAAAAAAA'' @ TAB # ''50000'', ''1BBBBBBBBBBBBBBBBBBBB'' @ TAB # ''7''], False)"
  by (simp add: scan_lines_def raw_lines_def sample_tsv_def dropCR_def maxToken_def Let_def)

lemma sample_row:
  "ParseTSVLine (''1AAAAAAAAAAAAAAAAAAAA'' @ TAB # ''40000'') = Some (''1AAAAAAAAAAAAAAAAAAAA'', 40000)"
  "ParseTSVLine (''1AAAAAAAAAAAAAAAAAAAA'' @ TAB # ''50000'') = Some (''1AAAAAAAAAAAAAAAAAAAA'', 50000)"
  "ParseTSVLine (''1BBBBBBBBBBBBBBBBBBBB'' @ TAB # ''7'') = Some (''1BBBBBBBBBBBBBBBBBBBB'', 7)"
  by (simp_all add: ParseTSVLine_def parseIntBytes_eq TrimSpace_id plain_first_def plain_last_def
      space_seqs_def is_digit_def decimal_value_def digit_val_def)

lemma sample_rows:
  "tsv_rows sample_tsv = [(''1AAAAAAAAAAAAAAAAAAAA'', 40000), (''1AAAAAAAAAAAAAAAAAAAA'', 50000),
    (''1BBBBBBBBBBBBBBBBBBBB'', 7)]"
  using sample_row by (simp add: tsv_rows_def sample_lines map_filter_simps)

lemma sample_decode:
  "DecodeFundedAddressForLoad sample_lib ''1AAAAAAAAAAAAAAAAAAAA'' = Inr (KindLegacy, replicate 20 65)"
  "DecodeFundedAddressForLoad sample_lib ''1BBBBBBBBBBBBBBBBBBBB'' = Inr (KindLegacy, replicate 20 66)"
  by (simp_all add: DecodeFundedAddressForLoad_def sample_lib_def chars_bytes_def numeral_eq_Suc)

lemma sample_best:
  "best_balance sample_lib 30000 (tsv_rows sample_tsv) KindLegacy (replicate 20 65) = Some 50000"
  by (simp add: best_balance_def sample_rows row_for_def sample_decode Let_def)

theorem parseTSV_refines_rows_witness:
  "\<exists>s :: u8 Sets. parseTSV sample_lib 30000 sample_tsv = Inr s \<and> tables_ok s \<and>
    sets_lookup s KindLegacy (replicate 20 65) = Some 50000"
proof -
  obtain s :: "u8 Sets" where s: "parseTSV sample_lib 30000 sample_tsv = Inr s"
    by (simp add: parseTSV_def sample_lines Let_def)
  show ?thesis
    using parseTSV_refines_rows [OF s, of "replicate 20 65" KindLegacy] s sample_best
    by (auto simp: kind_length_def)
qed

text \<open>Loading the file fails only on an over-long line: exactly when some line has at least
  ten mebibytes. Every other malformed line is skipped.\<close>

theorem parseTSV_fails_iff:
  "parseTSV L m content = (Inl TokenTooLong :: load_error + 'bf Sets) \<longleftrightarrow>
    (\<exists>l \<in> set (raw_lines content). maxToken \<le> length l)"
proof -
  have "length (takeWhile P xs) < length xs \<longleftrightarrow> (\<exists>x \<in> set xs. \<not> P x)" for P and xs :: "string list"
    by (induction xs) auto
  then show ?thesis by (auto simp: parseTSV_def scan_lines_def Let_def not_less)
qed

text \<open>The pieces of an index that a lookup reads are the abstract lookup.\<close>

lemma table_lookup_member:
  "table_ok xs bs \<Longrightarrow> map_of (zip xs bs) k = None \<longleftrightarrow> k \<notin> set xs"
  by (auto simp: table_ok_def map_of_zip_is_None)

lemma table20_lookup:
  "table_ok xs bs \<Longrightarrow>
    balanceAt20 xs bs k = (case map_of (zip xs bs) k of None \<Rightarrow> 0 | Some v \<Rightarrow> v)"
  by (auto simp: table_ok_def table20.balance_absent map_of_zip_is_None map_of_zip_nth
      in_set_conv_nth table20.balance_nth split: option.split dest!: map_of_SomeD
      elim!: in_set_zipE)

end
