(* ===== verification/FileSys.thy ===== *)
theory FileSys
  imports GoStd
begin

text \<open>
  The file system the program writes to: a map from paths to files. A file carries its bytes and
  its modification time in nanoseconds. Every operation that can fail takes the point at which the
  operating system makes it fail as an argument, so each failure is a case of the model.
\<close>

record os_file =
  f_data :: "u8 list"
  f_mtime :: int

type_synonym fs = "string \<Rightarrow> os_file option"

text \<open>Where a create/write/close/rename sequence fails, if it does.\<close>

datatype io_fault = NoFault | CreateFails | WriteFails | CloseFails | RenameFails

datatype os_error = NotExist | CreateError | WriteError | CloseError | RenameError | RemoveError | MmapError

definition tmp_path :: "string \<Rightarrow> string" where
  "tmp_path path = path @ ''.tmp''"

lemma tmp_path_neq [simp]: "tmp_path p \<noteq> p" "p \<noteq> tmp_path p"
  by (simp_all add: tmp_path_def)

text \<open>
  The contract of a writer that goes through a temporary file. A \<open>replace\<close> yields an error or
  nothing, and the new file system; on success the target holds exactly the content, on failure it
  is what it was; no third file is touched.
\<close>

locale atomic_writer =
  fixes content_of :: "'job \<Rightarrow> u8 list option"
    and target :: "'job \<Rightarrow> string"
    and replace :: "io_fault \<Rightarrow> int \<Rightarrow> 'job \<Rightarrow> fs \<Rightarrow> 'e option \<times> fs"
  assumes success: "replace fault now job fs = (None, fs') \<Longrightarrow>
      \<exists>d. content_of job = Some d \<and> fs' (target job) = Some \<lparr>f_data = d, f_mtime = now\<rparr>"
    and failure: "replace fault now job fs = (Some e, fs') \<Longrightarrow> fs' (target job) = fs (target job)"
    and frame: "replace fault now job fs = (r, fs') \<Longrightarrow> p \<noteq> target job \<Longrightarrow> p \<noteq> tmp_path (target job) \<Longrightarrow>
      fs' p = fs p"
    and no_fault: "content_of job \<noteq> None \<Longrightarrow> fst (replace NoFault now job fs) = None"
begin

text \<open>A reader of the target never sees a partial file: the old content or the whole new one.\<close>

lemma old_or_new:
  "snd (replace fault now job fs) (target job) = fs (target job) \<or>
   (\<exists>d. content_of job = Some d \<and>
      snd (replace fault now job fs) (target job) = Some \<lparr>f_data = d, f_mtime = now\<rparr>)"
  using success failure by (cases "replace fault now job fs"; cases "fst (replace fault now job fs)") auto

text \<open>Running several such writes, the target holds the content of the last one that succeeded.\<close>

lemma completes:
  "content_of job = Some d \<Longrightarrow> \<exists>fs'. replace NoFault now job fs = (None, fs') \<and>
    fs' (target job) = Some \<lparr>f_data = d, f_mtime = now\<rparr>"
  using no_fault [of job now fs] success [of NoFault now job fs]
  by (cases "replace NoFault now job fs") auto

end

end
