(* ===== verification/Cache.thy ===== *)
theory Cache
  imports Index FileSys
begin

text \<open>
  funded/cache.go and funded/mmap.go: the binary cache of an index. The file is a 40-byte header
  (magic, version, source modification time, minimum balance, four counts), the four hash tables,
  the four balance tables and the four Bloom filters, each filter with its length. All numbers are
  little-endian. A modification time is an instant in nanoseconds.
\<close>

section \<open>Paths and header\<close>

definition DefaultCacheFile :: string where "DefaultCacheFile = ''funded.cache''"
definition DefaultTSVFile :: string where "DefaultTSVFile = ''funded.tsv''"
definition CacheVersionV3 :: u32 where "CacheVersionV3 = 3"
definition CacheHeaderSize :: nat where "CacheHeaderSize = 4 + 4 + 8 + 8 + 4 * 4"

text \<open>The bytes of \<open>BFND\<close>.\<close>

definition CacheMagic :: "u8 list" where "CacheMagic = [0x42, 0x46, 0x4E, 0x44]"

definition CachePath :: "u64 \<Rightarrow> string" where
  "CachePath minBalance =
     (if minBalance = 0 \<or> minBalance = DefaultMinBalanceSats then DefaultCacheFile
      else ''funded.'' @ show_nat (unat minBalance) @ ''.cache'')"

datatype cache_error =
    CacheTooSmall | InvalidMagic | VersionNeedsRebuild | MtimeMismatch | MinBalanceMismatch
  | TruncatedHash20 | TruncatedHash32 | TruncatedBalance | TruncatedBloomLength | TruncatedBloomData
  | BloomDecode string | BloomEncode string | OsError os_error

record CacheHeader =
  h_Mtime :: int
  h_MinBalanceSats :: u64
  h_LegacyCount :: nat
  h_P2SHCount :: nat
  h_SegwitCount :: nat
  h_TaprootCount :: nat

text \<open>\<open>data[a:b]\<close>\<close>

definition slice :: "u8 list \<Rightarrow> nat \<Rightarrow> nat \<Rightarrow> u8 list" where
  "slice d a b = take (b - a) (drop a d)"

text \<open>\<open>time.Unix(0, int64(u))\<close> and \<open>uint64(t.UnixNano())\<close>\<close>

definition time_of_nano :: "u64 \<Rightarrow> int" where "time_of_nano u = sint u"
definition nano_of_time :: "int \<Rightarrow> u64" where "nano_of_time t = word_of_int t"

definition ParseCacheHeader :: "u8 list \<Rightarrow> cache_error + CacheHeader" where
  "ParseCacheHeader data =
     (if length data < CacheHeaderSize then Inl CacheTooSmall
      else
        (let header = slice data 0 CacheHeaderSize in
         if slice header 0 4 \<noteq> CacheMagic then Inl InvalidMagic
         else if Uint32 (slice header 4 8) \<noteq> CacheVersionV3 then Inl VersionNeedsRebuild
         else Inr \<lparr>h_Mtime = time_of_nano (Uint64 (slice header 8 16)),
           h_MinBalanceSats = Uint64 (slice header 16 24),
           h_LegacyCount = unat (Uint32 (slice header 24 28)),
           h_P2SHCount = unat (Uint32 (slice header 28 32)),
           h_SegwitCount = unat (Uint32 (slice header 32 36)),
           h_TaprootCount = unat (Uint32 (slice header 36 40))\<rparr>))"

definition os_ReadFile :: "fs \<Rightarrow> string \<Rightarrow> cache_error + u8 list" where
  "os_ReadFile fs path = (case fs path of None \<Rightarrow> Inl (OsError NotExist) | Some f \<Rightarrow> Inr (f_data f))"

definition ReadCacheHeader :: "fs \<Rightarrow> string \<Rightarrow> cache_error + CacheHeader" where
  "ReadCacheHeader fs path = bindR (os_ReadFile fs path) ParseCacheHeader"

definition CacheETag :: "fs \<Rightarrow> string \<Rightarrow> cache_error + string" where
  "CacheETag fs path =
     bindR (ReadCacheHeader fs path) (\<lambda>hdr.
       Inr (show_int (h_Mtime hdr) @ ''-'' @ show_nat (unat (h_MinBalanceSats hdr))))"

section \<open>Writing\<close>

definition writeHash20Slice :: "hash20 list \<Rightarrow> u8 list" where
  "writeHash20Slice xs = concat (map array_bytes xs)"

definition writeHash32Slice :: "hash32 list \<Rightarrow> u8 list" where
  "writeHash32Slice xs = concat (map array_bytes xs)"

definition writeBalanceSlice :: "u64 list \<Rightarrow> u8 list" where
  "writeBalanceSlice bs = concat (map PutUint64 bs)"

definition writeBloom :: "'bf bloom_lib \<Rightarrow> 'bf option \<Rightarrow> cache_error + u8 list" where
  "writeBloom B bf =
     (case bf of
        None \<Rightarrow> Inr (PutUint32 0)
      | Some f \<Rightarrow>
          (case bloom_MarshalBinary B f of
             Inl e \<Rightarrow> Inl (BloomEncode e)
           | Inr data \<Rightarrow> Inr (PutUint32 (of_nat (length data)) @ data)))"

definition effective_min :: "'bf Sets \<Rightarrow> u64" where
  "effective_min s = (if MinBalanceSats s = 0 then DefaultMinBalanceSats else MinBalanceSats s)"

definition cache_header :: "'bf Sets \<Rightarrow> int \<Rightarrow> u8 list" where
  "cache_header s srcMtime =
     CacheMagic @ PutUint32 CacheVersionV3 @ PutUint64 (nano_of_time srcMtime) @
     PutUint64 (effective_min s) @
     PutUint32 (of_nat (length (sLegacy s))) @ PutUint32 (of_nat (length (sP2SH s))) @
     PutUint32 (of_nat (length (sSegwitV0 s))) @ PutUint32 (of_nat (length (sTaprootV1 s)))"

text \<open>The bytes the write sequence produces, or the first error of it.\<close>

definition encode_cache :: "'bf bloom_lib \<Rightarrow> 'bf Sets \<Rightarrow> int \<Rightarrow> cache_error + u8 list" where
  "encode_cache B s srcMtime =
     bindR (writeBloom B (LegacyBloom s)) (\<lambda>b1.
     bindR (writeBloom B (P2SHBloom s)) (\<lambda>b2.
     bindR (writeBloom B (SegwitV0Bloom s)) (\<lambda>b3.
     bindR (writeBloom B (TaprootV1Bloom s)) (\<lambda>b4.
       Inr (cache_header s srcMtime @
         writeHash20Slice (sLegacy s) @ writeHash20Slice (sP2SH s) @
         writeHash20Slice (sSegwitV0 s) @ writeHash32Slice (sTaprootV1 s) @
         writeBalanceSlice (LegacyBalance s) @ writeBalanceSlice (P2SHBalance s) @
         writeBalanceSlice (SegwitV0Balance s) @ writeBalanceSlice (TaprootV1Balance s) @
         b1 @ b2 @ b3 @ b4)))))"

text \<open>\<open>WriteCache\<close>: create \<open>path.tmp\<close>, write, close, rename. A write or close error removes the
  temporary file; a rename error leaves it.\<close>

definition WriteCache ::
  "'bf bloom_lib \<Rightarrow> io_fault \<Rightarrow> int \<Rightarrow> string \<times> 'bf Sets \<times> int \<Rightarrow> fs \<Rightarrow> cache_error option \<times> fs" where
  "WriteCache B fault now job fs =
     (case job of (path, s, srcMtime) \<Rightarrow>
        let tmp = tmp_path path in
        if fault = CreateFails then (Some (OsError CreateError), fs)
        else
          (case (if fault = WriteFails then Inl (OsError WriteError) else encode_cache B s srcMtime) of
             Inl writeErr \<Rightarrow> (Some writeErr, fs(tmp := None))
           | Inr data \<Rightarrow>
               if fault = CloseFails then (Some (OsError CloseError), fs(tmp := None))
               else
                 (let written = \<lparr>f_data = data, f_mtime = now\<rparr> in
                  if fault = RenameFails then (Some (OsError RenameError), fs(tmp \<mapsto> written))
                  else (None, fs(tmp := None, path \<mapsto> written)))))"

section \<open>Reading\<close>

text \<open>An \<open>unsafe.Slice\<close> over a region: consecutive fixed-size elements of the bytes.\<close>

definition chunks :: "nat \<Rightarrow> nat \<Rightarrow> u8 list \<Rightarrow> u8 list list" where
  "chunks w n bs = map (\<lambda>i. take w (drop (i * w) bs)) [0..<n]"

definition viewHash20At :: "u8 list \<Rightarrow> nat \<Rightarrow> nat \<Rightarrow> cache_error + (hash20 list \<times> nat)" where
  "viewHash20At data offset count =
     (if count = 0 then Inr ([], offset)
      else
        (let need = count * 20 in
         if offset + need > length data then Inl TruncatedHash20
         else
           (let region = slice data offset (offset + need)
            in Inr (map copy_array (chunks 20 count region), offset + need))))"

definition viewHash32At :: "u8 list \<Rightarrow> nat \<Rightarrow> nat \<Rightarrow> cache_error + (hash32 list \<times> nat)" where
  "viewHash32At data offset count =
     (if count = 0 then Inr ([], offset)
      else
        (let need = count * 32 in
         if offset + need > length data then Inl TruncatedHash32
         else
           (let region = slice data offset (offset + need)
            in Inr (map copy_array (chunks 32 count region), offset + need))))"

definition viewBalanceAt :: "u8 list \<Rightarrow> nat \<Rightarrow> nat \<Rightarrow> cache_error + (u64 list \<times> nat)" where
  "viewBalanceAt data offset count =
     (if count = 0 then Inr ([], offset)
      else
        (let need = count * 8 in
         if offset + need > length data then Inl TruncatedBalance
         else
           (let region = slice data offset (offset + need)
            in Inr (map Uint64 (chunks 8 count region), offset + need))))"

definition readBloomAt ::
  "'bf bloom_lib \<Rightarrow> u8 list \<Rightarrow> nat \<Rightarrow> cache_error + ('bf option \<times> nat)" where
  "readBloomAt B data offset =
     (if offset + 4 > length data then Inl TruncatedBloomLength
      else
        (let n = unat (Uint32 (slice data offset (offset + 4))); offset = offset + 4 in
         if n = 0 then Inr (None, offset)
         else if offset + n > length data then Inl TruncatedBloomData
         else
           (case bloom_UnmarshalBinary B (slice data offset (offset + n)) of
              Inl e \<Rightarrow> Inl (BloomDecode e)
            | Inr bf \<Rightarrow> Inr (Some bf, offset + n))))"

text \<open>Everything behind the header, with the offset where reading stops.\<close>

definition decode_body ::
  "'bf bloom_lib \<Rightarrow> u8 list \<Rightarrow> CacheHeader \<Rightarrow> cache_error + ('bf Sets \<times> nat)" where
  "decode_body B data hdr =
     bindR (viewHash20At data CacheHeaderSize (h_LegacyCount hdr)) (\<lambda>(legacy, offset).
     bindR (viewHash20At data offset (h_P2SHCount hdr)) (\<lambda>(p2sh, offset).
     bindR (viewHash20At data offset (h_SegwitCount hdr)) (\<lambda>(segwit, offset).
     bindR (viewHash32At data offset (h_TaprootCount hdr)) (\<lambda>(taproot, offset).
     bindR (viewBalanceAt data offset (h_LegacyCount hdr)) (\<lambda>(legacyBal, offset).
     bindR (viewBalanceAt data offset (h_P2SHCount hdr)) (\<lambda>(p2shBal, offset).
     bindR (viewBalanceAt data offset (h_SegwitCount hdr)) (\<lambda>(segwitBal, offset).
     bindR (viewBalanceAt data offset (h_TaprootCount hdr)) (\<lambda>(taprootBal, offset).
     bindR (readBloomAt B data offset) (\<lambda>(legacyBloom, offset).
     bindR (readBloomAt B data offset) (\<lambda>(p2shBloom, offset).
     bindR (readBloomAt B data offset) (\<lambda>(segwitBloom, offset).
     bindR (readBloomAt B data offset) (\<lambda>(taprootBloom, offset).
       Inr (\<lparr>sLegacy = legacy, sP2SH = p2sh, sSegwitV0 = segwit, sTaprootV1 = taproot,
              sOther = [], LegacyBalance = legacyBal, P2SHBalance = p2shBal,
              SegwitV0Balance = segwitBal, TaprootV1Balance = taprootBal,
              MinBalanceSats = h_MinBalanceSats hdr, LegacyBloom = legacyBloom,
              P2SHBloom = p2shBloom, SegwitV0Bloom = segwitBloom, TaprootV1Bloom = taprootBloom\<rparr>,
            offset)))))))))))))"

text \<open>The header checks of \<open>DecodeCache\<close> are those of \<open>ParseCacheHeader\<close> in the same order, and then
  the modification time and the minimum balance.\<close>

definition DecodeCache ::
  "'bf bloom_lib \<Rightarrow> u8 list \<Rightarrow> int \<Rightarrow> u64 \<Rightarrow> cache_error + 'bf Sets" where
  "DecodeCache B data expectedMtime minBalance =
     bindR (ParseCacheHeader data) (\<lambda>hdr.
       if h_Mtime hdr \<noteq> expectedMtime then Inl MtimeMismatch
       else if h_MinBalanceSats hdr \<noteq> minBalance then Inl MinBalanceMismatch
       else bindR (decode_body B data hdr) (\<lambda>(sets, offset). Inr sets))"

definition ReadCache ::
  "'bf bloom_lib \<Rightarrow> fs \<Rightarrow> string \<Rightarrow> int \<Rightarrow> u64 \<Rightarrow> cache_error + 'bf Sets" where
  "ReadCache B fs path expectedMtime minBalance =
     bindR (os_ReadFile fs path) (\<lambda>data. DecodeCache B data expectedMtime minBalance)"

definition RemoveCache :: "bool \<Rightarrow> string \<Rightarrow> fs \<Rightarrow> cache_error option \<times> fs" where
  "RemoveCache osFails path fs =
     (if osFails \<and> fs path \<noteq> None then (Some (OsError RemoveError), fs) else (None, fs(path := None)))"

definition RemoveDefaultCache :: "bool \<Rightarrow> fs \<Rightarrow> cache_error option \<times> fs" where
  "RemoveDefaultCache osFails fs = RemoveCache osFails DefaultCacheFile fs"

section \<open>The active mapping\<close>

text \<open>\<open>activeMappedCache\<close>: the bytes that are mapped, if any. \<open>mmapFails\<close> is the failure of the
  system call.\<close>

type_synonym mapping = "u8 list option"

definition UnmapActive :: "mapping \<Rightarrow> mapping" where
  "UnmapActive act = (case act of None \<Rightarrow> None | Some _ \<Rightarrow> None)"

definition MmapLoad ::
  "'bf bloom_lib \<Rightarrow> bool \<Rightarrow> fs \<Rightarrow> string \<Rightarrow> int \<Rightarrow> u64 \<Rightarrow> mapping \<Rightarrow>
     (cache_error + 'bf Sets) \<times> mapping" where
  "MmapLoad B mmapFails fs path expectedMtime minBalance act =
     (let act = UnmapActive act in
      case os_ReadFile fs path of
        Inl e \<Rightarrow> (Inl e, act)
      | Inr data \<Rightarrow>
          if length data < CacheHeaderSize then (Inl CacheTooSmall, act)
          else if mmapFails then (Inl (OsError MmapError), act)
          else
            (case DecodeCache B data expectedMtime minBalance of
               Inl e \<Rightarrow> (Inl e, act)
             | Inr sets \<Rightarrow> (Inr sets, Some data)))"

definition LoadFromCacheFile ::
  "'bf bloom_lib \<Rightarrow> bool \<Rightarrow> fs \<Rightarrow> string \<Rightarrow> mapping \<Rightarrow> (cache_error + 'bf Sets) \<times> mapping" where
  "LoadFromCacheFile B mmapFails fs path act =
     (case ReadCacheHeader fs path of
        Inl e \<Rightarrow> (Inl e, act)
      | Inr hdr \<Rightarrow> MmapLoad B mmapFails fs path (h_Mtime hdr) (h_MinBalanceSats hdr) act)"

section \<open>Fixed-size elements\<close>

text \<open>The contract of an element encoding: always \<open>w\<close> bytes, and decoding undoes it.\<close>

locale fixed_codec =
  fixes enc :: "'a \<Rightarrow> u8 list" and dec :: "u8 list \<Rightarrow> 'a" and w :: nat
  assumes enc_length: "length (enc x) = w"
    and dec_enc: "dec (enc x) = x"
begin

lemma concat_length: "length (concat (map enc xs)) = length xs * w"
  by (induction xs) (simp_all add: enc_length)

lemma drop_concat: "drop (i * w) (concat (map enc xs)) = concat (map enc (drop i xs))"
proof (induction xs arbitrary: i)
  case (Cons x xs)
  then show ?case by (cases i) (simp_all add: enc_length)
qed simp

lemma decode_chunks: "map dec (chunks w (length xs) (concat (map enc xs))) = xs"
proof (rule nth_equalityI)
  fix i assume "i < length (map dec (chunks w (length xs) (concat (map enc xs))))"
  then have i: "i < length xs" by (simp add: chunks_def)
  then have "drop i xs = xs ! i # drop (Suc i) xs" by (rule Cons_nth_drop_Suc [symmetric])
  then have "take w (drop (i * w) (concat (map enc xs))) = enc (xs ! i)"
    by (simp add: drop_concat enc_length)
  then show "map dec (chunks w (length xs) (concat (map enc xs))) ! i = xs ! i"
    using i by (simp add: chunks_def dec_enc)
qed (simp add: chunks_def)

end

interpretation codec20: fixed_codec "array_bytes :: hash20 \<Rightarrow> u8 list" copy_array 20
  by unfold_locales simp_all

interpretation codec32: fixed_codec "array_bytes :: hash32 \<Rightarrow> u8 list" copy_array 32
  by unfold_locales simp_all

interpretation codec64: fixed_codec PutUint64 Uint64 8
  using Uint64_PutUint64 [of _ "[]"] by unfold_locales simp_all

lemma slice_append: "length p = n \<Longrightarrow> slice (p @ d @ r) n (n + length d) = d"
  by (simp add: slice_def)

lemma view_append:
  assumes "length p = n"
  shows "viewHash20At (p @ writeHash20Slice xs @ r) n (length xs) = Inr (xs, n + length xs * 20)"
    and "viewHash32At (p @ writeHash32Slice ys @ r) n (length ys) = Inr (ys, n + length ys * 32)"
    and "viewBalanceAt (p @ writeBalanceSlice bs @ r) n (length bs) = Inr (bs, n + length bs * 8)"
  using assms slice_append [OF assms, of "writeHash20Slice xs" r]
    slice_append [OF assms, of "writeHash32Slice ys" r]
    slice_append [OF assms, of "writeBalanceSlice bs" r]
    codec20.concat_length [of xs] codec32.concat_length [of ys] codec64.concat_length [of bs]
    codec20.decode_chunks [of xs] codec32.decode_chunks [of ys] codec64.decode_chunks [of bs]
  by (simp_all add: viewHash20At_def viewHash32At_def viewBalanceAt_def writeHash20Slice_def
      writeHash32Slice_def writeBalanceSlice_def Let_def)

end
