(* ===== verification/CacheCorrect.thy ===== *)
theory CacheCorrect
  imports Cache
begin

text \<open>
  What the cache file promises: decoding inverts encoding and rejects a stale or truncated file,
  the mapped load returns what a plain read returns, writing is atomic, the paths and ETags tell
  different caches apart.
\<close>

section \<open>Decoding undoes encoding\<close>

text \<open>A filter the package can store: it has an encoding, not empty and below \<open>2\<^sup>3\<^sup>2\<close> bytes, that
  decodes to the same filter.\<close>

definition bloom_storable :: "'bf bloom_lib \<Rightarrow> 'bf option \<Rightarrow> bool" where
  "bloom_storable B bf = (case bf of None \<Rightarrow> True
     | Some f \<Rightarrow> (case bloom_MarshalBinary B f of Inl e \<Rightarrow> False
         | Inr d \<Rightarrow> 0 < length d \<and> length d < 2 ^ 32 \<and> bloom_UnmarshalBinary B d = Inr f))"

definition blooms_storable :: "'bf bloom_lib \<Rightarrow> 'bf Sets \<Rightarrow> bool" where
  "blooms_storable B s \<longleftrightarrow> bloom_storable B (LegacyBloom s) \<and> bloom_storable B (P2SHBloom s) \<and>
     bloom_storable B (SegwitV0Bloom s) \<and> bloom_storable B (TaprootV1Bloom s)"

text \<open>The tables fit the header: the counts are 32-bit numbers and every key has its balance.\<close>

definition storable_table :: "'k list \<Rightarrow> u64 list \<Rightarrow> bool" where
  "storable_table xs bs \<longleftrightarrow> length xs < 2 ^ 32 \<and> length bs = length xs"

definition storable :: "'bf bloom_lib \<Rightarrow> 'bf Sets \<Rightarrow> bool" where
  "storable B s \<longleftrightarrow> storable_table (sLegacy s) (LegacyBalance s) \<and>
     storable_table (sP2SH s) (P2SHBalance s) \<and> storable_table (sSegwitV0 s) (SegwitV0Balance s) \<and>
     storable_table (sTaprootV1 s) (TaprootV1Balance s) \<and> blooms_storable B s"

text \<open>What a cache keeps of an index: everything but the undecodable addresses, with the effective
  minimum balance.\<close>

definition cached :: "'bf Sets \<Rightarrow> 'bf Sets" where
  "cached s = s\<lparr>sOther := [], MinBalanceSats := effective_min s\<rparr>"

text \<open>An instant whose nanoseconds fit 64 bits, which \<open>UnixNano\<close> requires.\<close>

definition nano_ok :: "int \<Rightarrow> bool" where
  "nano_ok t \<longleftrightarrow> - (2 ^ 63) \<le> t \<and> t < 2 ^ 63"

lemma time_of_nano_of_time: "nano_ok t \<Longrightarrow> time_of_nano (nano_of_time t) = t"
  by (simp add: nano_ok_def time_of_nano_def nano_of_time_def sint_sbintrunc' signed_take_bit_int_eq_self)

lemma slice_header:
  "length a = n \<Longrightarrow> length b = k \<Longrightarrow> slice (a @ b @ r) n (n + k) = b"
  using slice_append [of a n b r] by simp

lemma slice_prefix: "b \<le> length d \<Longrightarrow> slice (d @ r) a b = slice d a b"
  by (cases "a \<le> length d") (auto simp: slice_def)

lemma slice_slice: "b \<le> n \<Longrightarrow> slice (slice d 0 n) a b = slice d a b"
  by (simp add: slice_def drop_take min_def)

lemma length_cache_header [simp]: "length (cache_header s t) = CacheHeaderSize"
  by (simp add: cache_header_def CacheMagic_def CacheHeaderSize_def)

lemma unat_count: "n < 2 ^ 32 \<Longrightarrow> unat (of_nat n :: u32) = n"
  by (simp add: unat_of_nat take_bit_nat_eq_self)

definition header_of :: "'bf Sets \<Rightarrow> int \<Rightarrow> CacheHeader" where
  "header_of s t = \<lparr>h_Mtime = t, h_MinBalanceSats = effective_min s,
     h_LegacyCount = length (sLegacy s), h_P2SHCount = length (sP2SH s),
     h_SegwitCount = length (sSegwitV0 s), h_TaprootCount = length (sTaprootV1 s)\<rparr>"

lemma ParseCacheHeader_header:
  assumes "nano_ok t" "storable B s"
  shows "ParseCacheHeader (cache_header s t @ r) = Inr (header_of s t)"
proof -
  let ?n = "\<lambda>xs. PutUint32 (of_nat (length xs))"
  let ?c = "[?n (sLegacy s), ?n (sP2SH s), ?n (sSegwitV0 s), ?n (sTaprootV1 s)]"
  have s: "slice (cache_header s t) 0 4 = CacheMagic"
    "slice (cache_header s t) 4 8 = PutUint32 CacheVersionV3"
    "slice (cache_header s t) 8 16 = PutUint64 (nano_of_time t)"
    "slice (cache_header s t) 16 24 = PutUint64 (effective_min s)"
    "slice (cache_header s t) 24 28 = ?n (sLegacy s)" "slice (cache_header s t) 28 32 = ?n (sP2SH s)"
    "slice (cache_header s t) 32 36 = ?n (sSegwitV0 s)"
    "slice (cache_header s t) 36 40 = ?n (sTaprootV1 s)"
    by (simp_all add: cache_header_def slice_def CacheMagic_def)
  have h: "slice (cache_header s t @ r) 0 CacheHeaderSize = cache_header s t"
    by (simp add: slice_def)
  show ?thesis
    using assms Uint32_PutUint32 [of _ "[]"] Uint64_PutUint64 [of _ "[]"]
    unfolding ParseCacheHeader_def Let_def h s
    by (simp add: header_of_def time_of_nano_of_time unat_count storable_def storable_table_def
        CacheVersionV3_def)
qed

text \<open>One step of the decoder on the encoding of one table, with the offset as the length of what
  precedes it.\<close>

lemma view_step:
  "viewHash20At (p @ writeHash20Slice xs @ r) (length p) (length xs) =
    Inr (xs, length (p @ writeHash20Slice xs))"
  "viewHash32At (p @ writeHash32Slice ys @ r) (length p) (length ys) =
    Inr (ys, length (p @ writeHash32Slice ys))"
  "viewBalanceAt (p @ writeBalanceSlice bs @ r) (length p) (length bs) =
    Inr (bs, length (p @ writeBalanceSlice bs))"
  using view_append [OF refl, of p]
  by (simp_all add: writeHash20Slice_def writeHash32Slice_def writeBalanceSlice_def
      codec20.concat_length codec32.concat_length codec64.concat_length)

lemma bloom_step:
  assumes "bloom_storable B bf" "writeBloom B bf = Inr e"
  shows "readBloomAt B (p @ e @ r) (length p) = Inr (bf, length (p @ e))"
proof (cases bf)
  case None
  then have "e = PutUint32 0" using assms(2) by (simp add: writeBloom_def)
  with None show ?thesis
    using Uint32_PutUint32 [of 0 "[]"] slice_header [of p "length p" "PutUint32 0" 4 r]
    by (simp add: readBloomAt_def)
next
  case (Some f)
  then obtain d where d: "bloom_MarshalBinary B f = Inr d" "0 < length d" "length d < 2 ^ 32"
    "bloom_UnmarshalBinary B d = Inr f" and e: "e = PutUint32 (of_nat (length d)) @ d"
    using assms by (auto simp: bloom_storable_def writeBloom_def split: sum.splits)
  let ?l = "PutUint32 (of_nat (length d))"
  have "slice (p @ e @ r) (length p) (length p + 4) = ?l"
    using slice_header [of p "length p" ?l 4 "d @ r"] by (simp add: e)
  moreover have "slice (p @ e @ r) (length p + 4) (length p + 4 + length d) = d"
    using slice_header [of "p @ ?l" "length p + 4" d "length d" r] by (simp add: e)
  ultimately show ?thesis
    using d Uint32_PutUint32 [of "of_nat (length d)" "[]"]
    by (simp add: readBloomAt_def e unat_count Some Let_def)
qed

lemma writeBloom_storable: "bloom_storable B bf \<Longrightarrow> \<exists>e. writeBloom B bf = Inr e"
  by (auto simp: bloom_storable_def writeBloom_def split: option.splits sum.splits)

text \<open>The parts of an encoding.\<close>

lemma encode_cacheE:
  assumes "encode_cache B s t = Inr data"
  obtains e1 e2 e3 e4 where "writeBloom B (LegacyBloom s) = Inr e1"
    "writeBloom B (P2SHBloom s) = Inr e2" "writeBloom B (SegwitV0Bloom s) = Inr e3"
    "writeBloom B (TaprootV1Bloom s) = Inr e4"
    "data = cache_header s t @ writeHash20Slice (sLegacy s) @ writeHash20Slice (sP2SH s) @
      writeHash20Slice (sSegwitV0 s) @ writeHash32Slice (sTaprootV1 s) @
      writeBalanceSlice (LegacyBalance s) @ writeBalanceSlice (P2SHBalance s) @
      writeBalanceSlice (SegwitV0Balance s) @ writeBalanceSlice (TaprootV1Balance s) @
      e1 @ e2 @ e3 @ e4"
  using assms by (auto simp: encode_cache_def bindR_Inr_iff)

lemma encode_cache_storable:
  assumes "storable B s"
  shows "\<exists>data. encode_cache B s t = Inr data"
proof -
  have "blooms_storable B s" using assms by (simp add: storable_def)
  then obtain e1 e2 e3 e4 where "writeBloom B (LegacyBloom s) = Inr e1"
    "writeBloom B (P2SHBloom s) = Inr e2" "writeBloom B (SegwitV0Bloom s) = Inr e3"
    "writeBloom B (TaprootV1Bloom s) = Inr e4"
    unfolding blooms_storable_def using writeBloom_storable by meson
  then show ?thesis by (simp add: encode_cache_def)
qed

lemma decode_body_encode:
  assumes "storable B s" "encode_cache B s t = Inr data"
  shows "decode_body B data (header_of s t) = Inr (cached s, length data)"
proof -
  obtain e1 e2 e3 e4 where e: "writeBloom B (LegacyBloom s) = Inr e1"
    "writeBloom B (P2SHBloom s) = Inr e2" "writeBloom B (SegwitV0Bloom s) = Inr e3"
    "writeBloom B (TaprootV1Bloom s) = Inr e4"
    and data: "data = cache_header s t @ writeHash20Slice (sLegacy s) @ writeHash20Slice (sP2SH s) @
      writeHash20Slice (sSegwitV0 s) @ writeHash32Slice (sTaprootV1 s) @
      writeBalanceSlice (LegacyBalance s) @ writeBalanceSlice (P2SHBalance s) @
      writeBalanceSlice (SegwitV0Balance s) @ writeBalanceSlice (TaprootV1Balance s) @
      e1 @ e2 @ e3 @ e4"
    by (rule encode_cacheE [OF assms(2)])
  let ?h = "cache_header s t"
  let ?t1 = "writeHash20Slice (sLegacy s)" and ?t2 = "writeHash20Slice (sP2SH s)"
  let ?t3 = "writeHash20Slice (sSegwitV0 s)" and ?t4 = "writeHash32Slice (sTaprootV1 s)"
  let ?b1 = "writeBalanceSlice (LegacyBalance s)" and ?b2 = "writeBalanceSlice (P2SHBalance s)"
  let ?b3 = "writeBalanceSlice (SegwitV0Balance s)" and ?b4 = "writeBalanceSlice (TaprootV1Balance s)"
  let ?p1 = "?h @ ?t1" let ?p2 = "?p1 @ ?t2" let ?p3 = "?p2 @ ?t3" let ?p4 = "?p3 @ ?t4"
  let ?q1 = "?p4 @ ?b1" let ?q2 = "?q1 @ ?b2" let ?q3 = "?q2 @ ?b3" let ?q4 = "?q3 @ ?b4"
  have bl: "bloom_storable B (LegacyBloom s)" "bloom_storable B (P2SHBloom s)"
    "bloom_storable B (SegwitV0Bloom s)" "bloom_storable B (TaprootV1Bloom s)"
    and len: "length (LegacyBalance s) = length (sLegacy s)" "length (P2SHBalance s) = length (sP2SH s)"
      "length (SegwitV0Balance s) = length (sSegwitV0 s)"
      "length (TaprootV1Balance s) = length (sTaprootV1 s)"
    using assms(1) by (simp_all add: storable_def blooms_storable_def storable_table_def)
  have tables: "viewHash20At data (length ?h) (length (sLegacy s)) = Inr (sLegacy s, length ?p1)"
    "viewHash20At data (length ?p1) (length (sP2SH s)) = Inr (sP2SH s, length ?p2)"
    "viewHash20At data (length ?p2) (length (sSegwitV0 s)) = Inr (sSegwitV0 s, length ?p3)"
    "viewHash32At data (length ?p3) (length (sTaprootV1 s)) = Inr (sTaprootV1 s, length ?p4)"
    using view_step(1) [of ?h "sLegacy s"] view_step(1) [of ?p1 "sP2SH s"]
      view_step(1) [of ?p2 "sSegwitV0 s"] view_step(2) [of ?p3 "sTaprootV1 s"]
    unfolding data append_assoc by blast+
  have balances:
    "viewBalanceAt data (length ?p4) (length (LegacyBalance s)) = Inr (LegacyBalance s, length ?q1)"
    "viewBalanceAt data (length ?q1) (length (P2SHBalance s)) = Inr (P2SHBalance s, length ?q2)"
    "viewBalanceAt data (length ?q2) (length (SegwitV0Balance s)) = Inr (SegwitV0Balance s, length ?q3)"
    "viewBalanceAt data (length ?q3) (length (TaprootV1Balance s)) = Inr (TaprootV1Balance s, length ?q4)"
    using view_step(3) [of ?p4 "LegacyBalance s"] view_step(3) [of ?q1 "P2SHBalance s"]
      view_step(3) [of ?q2 "SegwitV0Balance s"] view_step(3) [of ?q3 "TaprootV1Balance s"]
    unfolding data append_assoc by blast+
  have blooms:
    "readBloomAt B data (length ?q4) = Inr (LegacyBloom s, length (?q4 @ e1))"
    "readBloomAt B data (length (?q4 @ e1)) = Inr (P2SHBloom s, length (?q4 @ e1 @ e2))"
    "readBloomAt B data (length (?q4 @ e1 @ e2)) = Inr (SegwitV0Bloom s, length (?q4 @ e1 @ e2 @ e3))"
    "readBloomAt B data (length (?q4 @ e1 @ e2 @ e3)) = Inr (TaprootV1Bloom s, length data)"
    using bloom_step [OF bl(1) e(1), of ?q4] bloom_step [OF bl(2) e(2), of "?q4 @ e1"]
      bloom_step [OF bl(3) e(3), of "?q4 @ e1 @ e2"] bloom_step [OF bl(4) e(4), of "?q4 @ e1 @ e2 @ e3" "[]"]
    unfolding data append_assoc append_Nil2 by blast+
  show ?thesis
    unfolding decode_body_def header_of_def CacheHeader.simps length_cache_header [symmetric, of s t]
      tables balances [unfolded len] blooms bindR_simps prod.case
    by (simp add: cached_def)
qed

section \<open>A truncated file is refused\<close>

text \<open>Reading does not look past the offset it returns: what succeeds on a prefix gives the same
  result on the whole.\<close>

lemma view_prefix:
  "viewHash20At d n c = Inr r \<Longrightarrow> viewHash20At (d @ x) n c = Inr r"
  "viewHash32At d n c = Inr r' \<Longrightarrow> viewHash32At (d @ x) n c = Inr r'"
  "viewBalanceAt d n c = Inr r'' \<Longrightarrow> viewBalanceAt (d @ x) n c = Inr r''"
  by (auto simp: viewHash20At_def viewHash32At_def viewBalanceAt_def Let_def slice_prefix
      split: if_splits)

lemma bloom_prefix:
  assumes "readBloomAt B d n = Inr (bf, n')"
  shows "readBloomAt B (d @ x) n = Inr (bf, n') \<and> n' \<le> length d"
proof -
  have n: "n + 4 \<le> length d" using assms by (auto simp: readBloomAt_def split: if_splits)
  let ?k = "unat (Uint32 (slice d n (n + 4)))"
  have l: "slice (d @ x) n (n + 4) = slice d n (n + 4)" using n by (rule slice_prefix)
  show ?thesis
  proof (cases "?k = 0")
    case True
    then show ?thesis using assms n l by (auto simp: readBloomAt_def)
  next
    case False
    with assms n have k: "n + 4 + ?k \<le> length d"
      by (auto simp: readBloomAt_def Let_def split: if_splits)
    then have "slice (d @ x) (n + 4) (n + 4 + ?k) = slice d (n + 4) (n + 4 + ?k)"
      by (rule slice_prefix)
    with assms False n k show ?thesis
      by (auto simp: readBloomAt_def l Let_def split: if_splits sum.splits)
  qed
qed

lemma bind_prefix:
  assumes "bindR r k = Inr y" "\<And>x. r = Inr x \<Longrightarrow> r' = Inr x" "\<And>x. r = Inr x \<Longrightarrow> k x = Inr y \<Longrightarrow> k' x = Inr y"
  shows "bindR r' k' = Inr y"
  using assms by (auto simp: bindR_Inr_iff)

lemma decode_body_prefix:
  assumes "decode_body B d hdr = Inr (s, n)"
  shows "decode_body B (d @ x) hdr = Inr (s, n) \<and> n \<le> length d"
proof
  show "decode_body B (d @ x) hdr = Inr (s, n)"
    using assms unfolding decode_body_def
    by (elim bind_prefix; clarsimp simp: view_prefix bloom_prefix)+
  from assms show "n \<le> length d"
    by (auto simp: decode_body_def bindR_Inr_iff dest: bloom_prefix)
qed

lemma ParseCacheHeader_prefix:
  assumes "ParseCacheHeader d = Inr hdr"
  shows "ParseCacheHeader (d @ x) = Inr hdr"
proof -
  have "CacheHeaderSize \<le> length d" using assms by (auto simp: ParseCacheHeader_def split: if_splits)
  then have "slice (d @ x) 0 CacheHeaderSize = slice d 0 CacheHeaderSize" by (rule slice_prefix)
  with assms show ?thesis by (auto simp: ParseCacheHeader_def Let_def split: if_splits)
qed

section \<open>The file as a whole\<close>

lemma encode_cache_header:
  "encode_cache B s t = Inr data \<Longrightarrow> \<exists>r. data = cache_header s t @ r"
  by (auto elim: encode_cacheE)

lemma ParseCacheHeader_encode:
  assumes "nano_ok t" "storable B s" "encode_cache B s t = Inr data"
  shows "ParseCacheHeader data = Inr (header_of s t)"
  using encode_cache_header [OF assms(3)] ParseCacheHeader_header [OF assms(1,2)] by auto

lemma DecodeCache_encode:
  assumes "nano_ok t" "storable B s" "encode_cache B s t = Inr data"
  shows "DecodeCache B data t' m =
    (if t' \<noteq> t then Inl MtimeMismatch else if m \<noteq> effective_min s then Inl MinBalanceMismatch
     else Inr (cached s))"
  using decode_body_encode [OF assms(2,3)]
  by (simp add: DecodeCache_def ParseCacheHeader_encode [OF assms]) (simp add: header_of_def)

text \<open>C21. A cache file gives back the index it was written from (without the undecodable
  addresses, with the effective minimum balance) to a reader that asks for the modification time
  and the minimum balance it was written with, and is refused to any other reader.\<close>

theorem cache_roundtrip:
  assumes "nano_ok t" "storable B s" "encode_cache B s t = Inr data"
  shows "DecodeCache B data t' m =
    (if t' \<noteq> t then Inl MtimeMismatch else if m \<noteq> effective_min s then Inl MinBalanceMismatch
     else Inr (cached s))"
  by (rule DecodeCache_encode [OF assms])

text \<open>C22. No proper prefix of a cache file decodes: whatever is cut off, the reader reports an
  error.\<close>

theorem truncated_cache_refused:
  assumes "nano_ok t" "storable B s" "encode_cache B s t = Inr (d @ x)" "x \<noteq> []"
  shows "\<exists>e. DecodeCache B d t' m = Inl e"
proof (rule ccontr)
  assume "\<nexists>e. DecodeCache B d t' m = Inl e"
  then obtain s' where "DecodeCache B d t' m = Inr s'" by (cases "DecodeCache B d t' m") auto
  then obtain hdr n where h: "ParseCacheHeader d = Inr hdr" and b: "decode_body B d hdr = Inr (s', n)"
    by (auto simp: DecodeCache_def bindR_Inr_iff split: if_splits)
  have "hdr = header_of s t"
    using ParseCacheHeader_prefix [OF h, of x] ParseCacheHeader_encode [OF assms(1-3)] by simp
  then have "decode_body B (d @ x) hdr = Inr (cached s, length (d @ x))"
    using decode_body_encode [OF assms(2,3)] by simp
  with decode_body_prefix [OF b, of x] assms(4) show False by (cases x) auto
qed

section \<open>The mapped load\<close>

lemma MmapLoad_eq:
  "MmapLoad B False fs path t m act =
    (ReadCache B fs path t m,
     case ReadCache B fs path t m of Inl e \<Rightarrow> None | Inr s \<Rightarrow> map_option f_data (fs path)) \<and>
   snd (MmapLoad B True fs path t m act) = None"
proof -
  have u: "UnmapActive act = None" by (simp add: UnmapActive_def split: option.split)
  show ?thesis
  proof (cases "fs path")
    case None
    then show ?thesis by (simp add: MmapLoad_def ReadCache_def os_ReadFile_def u)
  next
    case (Some f)
    have small: "length d < CacheHeaderSize \<Longrightarrow> DecodeCache B d t m = Inl CacheTooSmall" for d
      by (simp add: DecodeCache_def ParseCacheHeader_def)
    show ?thesis
      using small [of "f_data f"]
      by (cases "DecodeCache B (f_data f) t m")
        (auto simp: MmapLoad_def ReadCache_def os_ReadFile_def u Some)
  qed
qed

text \<open>Mapping the file gives what reading it gives, error or index, and leaves the file's bytes
  mapped exactly when it succeeds; a failing system call leaves nothing mapped.\<close>

theorem MmapLoad_is_ReadCache:
  "MmapLoad B False fs path t m act =
    (ReadCache B fs path t m,
     case ReadCache B fs path t m of Inl e \<Rightarrow> None | Inr s \<Rightarrow> map_option f_data (fs path)) \<and>
   snd (MmapLoad B True fs path t m act) = None"
  by (rule MmapLoad_eq)

lemma MmapLoad_Inr:
  "MmapLoad B x fs path t m act = (Inr s, act') \<Longrightarrow>
    \<exists>f. fs path = Some f \<and> DecodeCache B (f_data f) t m = Inr s \<and> act' = Some (f_data f)"
  by (auto simp: MmapLoad_def os_ReadFile_def Let_def split: option.splits sum.splits if_splits)

section \<open>Writing\<close>

definition cache_content :: "'bf bloom_lib \<Rightarrow> string \<times> 'bf Sets \<times> int \<Rightarrow> u8 list option" where
  "cache_content B job = (case job of (path, s, t) \<Rightarrow>
     (case encode_cache B s t of Inl e \<Rightarrow> None | Inr d \<Rightarrow> Some d))"

interpretation cache_writer: atomic_writer "cache_content B" fst "WriteCache B"
  for B :: "'bf bloom_lib"
proof
  fix fault now r fs fs' p and e and job :: "string \<times> 'bf Sets \<times> int"
  obtain path s t where job: "job = (path, s, t)" by (cases job)
  note d = WriteCache_def cache_content_def Let_def job
  show "WriteCache B fault now job fs = (None, fs') \<Longrightarrow>
      \<exists>d. cache_content B job = Some d \<and> fs' (fst job) = Some \<lparr>f_data = d, f_mtime = now\<rparr>"
    by (auto simp: d split: if_splits sum.splits)
  show "WriteCache B fault now job fs = (Some e, fs') \<Longrightarrow> fs' (fst job) = fs (fst job)"
    by (auto simp: d split: if_splits sum.splits)
  show "WriteCache B fault now job fs = (r, fs') \<Longrightarrow> p \<noteq> fst job \<Longrightarrow> p \<noteq> tmp_path (fst job) \<Longrightarrow>
      fs' p = fs p"
    by (auto simp: d split: if_splits sum.splits)
  show "cache_content B job \<noteq> None \<Longrightarrow> fst (WriteCache B NoFault now job fs) = None"
    by (auto simp: d split: sum.splits)
qed

text \<open>Writing a cache is atomic for its readers, wherever the sequence of create, write, close
  and rename fails: the target file is either untouched or holds the whole new encoding, it holds
  the new encoding exactly when no error is returned, and no third file changes.\<close>

theorem WriteCache_atomic:
  assumes "WriteCache B fault now (path, s, t) fs = (err, fs')"
  shows "(case err of Some e \<Rightarrow> fs' path = fs path
      | None \<Rightarrow> \<exists>d. encode_cache B s t = Inr d \<and> fs' path = Some \<lparr>f_data = d, f_mtime = now\<rparr>) \<and>
    (\<forall>p. fs' p = fs p \<or> p \<in> {path, tmp_path path})"
proof -
  have "fs' p = fs p \<or> p \<in> {path, tmp_path path}" for p
    using cache_writer.frame [OF assms] by (cases "p = path") auto
  moreover have "\<exists>d. encode_cache B s t = Inr d \<and> fs' path = Some \<lparr>f_data = d, f_mtime = now\<rparr>"
    if "err = None"
    using cache_writer.success [of B fault now "(path, s, t)" fs fs'] assms that
    by (auto simp: cache_content_def split: sum.splits)
  moreover have "fs' path = fs path" if "err = Some e" for e
    using cache_writer.failure [of B fault now "(path, s, t)" fs e fs'] assms that by simp
  ultimately show ?thesis by (simp split: option.split)
qed

lemma LoadFromCacheFile_written:
  assumes "nano_ok t" "storable B s" "encode_cache B s t = Inr d" "fs path = Some f" "f_data f = d"
  shows "LoadFromCacheFile B False fs path act = (Inr (cached s), Some d)"
proof -
  have "ReadCacheHeader fs path = Inr (header_of s t)"
    using ParseCacheHeader_encode [OF assms(1-3)] assms(4,5)
    by (simp add: ReadCacheHeader_def os_ReadFile_def)
  moreover have "ReadCache B fs path t (effective_min s) = Inr (cached s)"
    using DecodeCache_encode [OF assms(1-3)] assms(4,5) by (simp add: ReadCache_def os_ReadFile_def)
  ultimately show ?thesis
    using MmapLoad_eq [of B fs path t "effective_min s" act] assms(4,5)
    by (simp add: LoadFromCacheFile_def header_of_def)
qed

section \<open>Names and tags\<close>

lemma CachePath_eq_iff:
  "CachePath a = CachePath b \<longleftrightarrow> a = b \<or> a \<in> {0, DefaultMinBalanceSats} \<and> b \<in> {0, DefaultMinBalanceSats}"
proof -
  have ne: "show_nat n @ ''.cache'' \<noteq> ''cache''" for n
    by (rule notI, drule arg_cong [where f = length]) simp
  have inj: "unat a = unat b \<longleftrightarrow> a = b"
    by (simp flip: word_unat_eq_iff)
  show ?thesis
    using ne [symmetric] by (auto simp: CachePath_def DefaultCacheFile_def ne inj)
qed

lemma digits_before_dash:
  assumes "\<forall>c \<in> set x. is_digit c" "\<forall>c \<in> set y. is_digit c" "a @ CHR ''-'' # x = b @ CHR ''-'' # y"
  shows "a = b \<and> x = y"
proof -
  have t: "takeWhile is_digit (rev (c @ CHR ''-'' # z)) = rev z" if "\<forall>c \<in> set z. is_digit c" for c z
    using that by (simp add: takeWhile_append is_digit_iff)
  have "rev x = rev y" using t [OF assms(1), of a] t [OF assms(2), of b] assms(3) by simp
  with assms(3) show ?thesis by simp
qed

lemma CacheETag_eq_iff:
  assumes "ReadCacheHeader fs p = Inr h" "ReadCacheHeader fs' p' = Inr h'"
  shows "CacheETag fs p = CacheETag fs' p' \<longleftrightarrow>
    h_Mtime h = h_Mtime h' \<and> h_MinBalanceSats h = h_MinBalanceSats h'"
proof -
  let ?e = "\<lambda>h. show_int (h_Mtime h) @ CHR ''-'' # show_nat (unat (h_MinBalanceSats h))"
  have "?e h = ?e h' \<longleftrightarrow> h_Mtime h = h_Mtime h' \<and> h_MinBalanceSats h = h_MinBalanceSats h'"
    using digits_before_dash [OF show_nat_digits show_nat_digits, of "show_int (h_Mtime h)"
        "unat (h_MinBalanceSats h)" "show_int (h_Mtime h')" "unat (h_MinBalanceSats h')"]
    by (metis show_int_inj show_nat_inj unsigned_word_eqI)
  then show ?thesis by (simp add: CacheETag_def assms)
qed

text \<open>Two minimum balances share a cache file only when they are the same setting: 0 stands for
  the default.\<close>

theorem CachePath_distinguishes:
  "CachePath a = CachePath b \<longleftrightarrow>
    (if a = 0 then DefaultMinBalanceSats else a) = (if b = 0 then DefaultMinBalanceSats else b)"
  by (auto simp: CachePath_eq_iff DefaultMinBalanceSats_def)

text \<open>The ETag of a cache tells the indexes of the cluster apart: two cache files written by the
  program have the same ETag exactly when they have the same source time and minimum balance.\<close>

theorem CacheETag_distinguishes:
  assumes "nano_ok t" "storable B s" "encode_cache B s t = Inr (f_data f)" "fs p = Some f"
    and "nano_ok t'" "storable B' s'" "encode_cache B' s' t' = Inr (f_data f')" "fs' p' = Some f'"
  shows "CacheETag fs p = CacheETag fs' p' \<longleftrightarrow> t = t' \<and> effective_min s = effective_min s'"
proof -
  have "ReadCacheHeader fs p = Inr (header_of s t)" "ReadCacheHeader fs' p' = Inr (header_of s' t')"
    using ParseCacheHeader_encode [OF assms(1-3)] ParseCacheHeader_encode [OF assms(5-7)] assms(4,8)
    by (simp_all add: ReadCacheHeader_def os_ReadFile_def)
  then show ?thesis by (simp add: CacheETag_eq_iff header_of_def)
qed

section \<open>Witnesses\<close>

lemma sample_storable: "storable sample_bloom sample_sets"
proof -
  have "bloom_storable sample_bloom bf" for bf
    by (simp add: bloom_storable_def sample_bloom_def split: option.split)
  then show ?thesis
    by (simp add: storable_def blooms_storable_def storable_table_def)
      (simp add: sample_sets_def BuildBlooms_def zero_Sets_def)
qed

lemma sample_min: "effective_min sample_sets = 30000"
  by (simp add: effective_min_def sample_sets_def BuildBlooms_def zero_Sets_def
      DefaultMinBalanceSats_def)

lemma sample_nano: "nano_ok 5" "nano_ok 6"
  by (simp_all add: nano_ok_def)

theorem cache_roundtrip_witness:
  "\<exists>data. encode_cache sample_bloom sample_sets 5 = Inr data \<and>
    DecodeCache sample_bloom data 5 30000 = Inr (cached sample_sets) \<and>
    DecodeCache sample_bloom data 6 30000 = Inl MtimeMismatch \<and>
    DecodeCache sample_bloom data 5 1 = Inl MinBalanceMismatch"
proof -
  obtain data where d: "encode_cache sample_bloom sample_sets 5 = Inr data"
    using encode_cache_storable [OF sample_storable] by blast
  show ?thesis
    using d cache_roundtrip [OF sample_nano(1) sample_storable d] by (simp add: sample_min)
qed

theorem truncated_cache_refused_witness:
  "\<exists>data e. encode_cache sample_bloom sample_sets 5 = Inr data \<and>
    DecodeCache sample_bloom (butlast data) 5 30000 = Inl e"
proof -
  obtain data where d: "encode_cache sample_bloom sample_sets 5 = Inr data"
    using encode_cache_storable [OF sample_storable] by blast
  then have "data \<noteq> []" using encode_cache_header by (fastforce simp: cache_header_def CacheMagic_def)
  then have "encode_cache sample_bloom sample_sets 5 = Inr (butlast data @ [last data])"
    using d by simp
  from truncated_cache_refused [OF sample_nano(1) sample_storable this, of 5 30000] d
  show ?thesis by auto
qed

theorem WriteCache_atomic_witness:
  "snd (WriteCache sample_bloom RenameFails 7 (''funded.cache'', sample_sets, 5)
    (Map.empty(''funded.cache'' \<mapsto> \<lparr>f_data = [1], f_mtime = 2\<rparr>))) ''funded.cache''
    = Some \<lparr>f_data = [1], f_mtime = 2\<rparr>"
proof -
  let ?fs = "Map.empty(''funded.cache'' \<mapsto> \<lparr>f_data = [1 :: u8], f_mtime = 2\<rparr>)"
  obtain data where d: "encode_cache sample_bloom sample_sets 5 = Inr data"
    using encode_cache_storable [OF sample_storable] by blast
  obtain fs' where w: "WriteCache sample_bloom RenameFails 7 (''funded.cache'', sample_sets, 5) ?fs
      = (Some (OsError RenameError), fs')"
    by (simp add: WriteCache_def d Let_def)
  show ?thesis using WriteCache_atomic [OF w] w by simp
qed

theorem CacheETag_distinguishes_witness:
  "\<exists>d d'. encode_cache sample_bloom sample_sets 5 = Inr d \<and>
    encode_cache sample_bloom sample_sets 6 = Inr d' \<and>
    CacheETag [''a'' \<mapsto> \<lparr>f_data = d, f_mtime = 0\<rparr>] ''a'' \<noteq>
    CacheETag [''b'' \<mapsto> \<lparr>f_data = d', f_mtime = 0\<rparr>] ''b''"
proof -
  obtain d d' where d: "encode_cache sample_bloom sample_sets 5 = Inr d"
    "encode_cache sample_bloom sample_sets 6 = Inr d'"
    using encode_cache_storable [OF sample_storable] by meson
  show ?thesis
    using d CacheETag_distinguishes [OF sample_nano(1) sample_storable, of "\<lparr>f_data = d, f_mtime = 0\<rparr>"
        "[''a'' \<mapsto> \<lparr>f_data = d, f_mtime = 0\<rparr>]" "''a''" 6 sample_bloom sample_sets "\<lparr>f_data = d', f_mtime = 0\<rparr>"
        "[''b'' \<mapsto> \<lparr>f_data = d', f_mtime = 0\<rparr>]" "''b''"] sample_storable sample_nano
    by auto
qed

end
