(* ===== verification/Load.thy ===== *)
theory Load
  imports Builder CacheCorrect
begin

text \<open>
  funded/load.go: \<open>Load\<close> takes the index from a valid cache or parses funded.tsv, sorts, builds the
  filters and writes the cache. The environment of one call (whether the mapping fails, where the
  cache write fails, the clock) is an argument; the reporter's output is left out.
\<close>

text \<open>What the operating system does to the reading of the TSV file: nothing, a failing open, or a read that fails
  after some bytes.\<close>

datatype tsv_fault = TsvOk | TsvOpenFails | TsvReadFails nat

record load_env =
  e_mmapFails :: bool
  e_tsvFault :: tsv_fault
  e_writeFault :: io_fault
  e_now :: int

record LoadOpts =
  o_MinBalance :: u64
  o_TSVPath :: string

datatype load_failure = StatFailed | ParseFailed load_error

definition load_min :: "LoadOpts \<Rightarrow> u64" where
  "load_min opts = (if o_MinBalance opts = 0 then DefaultMinBalanceSats else o_MinBalance opts)"

definition load_path :: "LoadOpts \<Rightarrow> string" where
  "load_path opts = (if o_TSVPath opts = [] then DefaultTSVFile else o_TSVPath opts)"

text \<open>A line that is too long is found before the read that fails.\<close>

definition read_tsv :: "addr_lib \<Rightarrow> tsv_fault \<Rightarrow> u64 \<Rightarrow> string \<Rightarrow> load_error + 'bf Sets" where
  "read_tsv L fault minBalance content =
     (case fault of
        TsvOk \<Rightarrow> parseTSV L minBalance content
      | TsvOpenFails \<Rightarrow> Inl OpenFailed
      | TsvReadFails n \<Rightarrow> if snd (scan_lines (take n content)) then Inl TokenTooLong else Inl ReadFailed)"

text \<open>The mapping is tried first; the plain read only when it fails.\<close>

definition load_cache ::
  "'bf bloom_lib \<Rightarrow> load_env \<Rightarrow> fs \<Rightarrow> int \<Rightarrow> u64 \<Rightarrow> mapping \<Rightarrow> (cache_error + 'bf Sets) \<times> mapping" where
  "load_cache B env fs srcMtime minBalance act =
     (case MmapLoad B (e_mmapFails env) fs (CachePath minBalance) srcMtime minBalance act of
        (Inr sets, act) \<Rightarrow> (Inr sets, act)
      | (Inl cacheErr, act) \<Rightarrow> (ReadCache B fs (CachePath minBalance) srcMtime minBalance, act))"

definition Load ::
  "addr_lib \<Rightarrow> 'bf bloom_lib \<Rightarrow> load_env \<Rightarrow> LoadOpts \<Rightarrow> fs \<Rightarrow> mapping \<Rightarrow>
     (load_failure + 'bf Sets) \<times> fs \<times> mapping" where
  "Load L B env opts fs act =
     (let minBalance = load_min opts; cachePath = CachePath minBalance in
      case fs (load_path opts) of
        None \<Rightarrow> (Inl StatFailed, fs, act)
      | Some tsv \<Rightarrow>
          let srcMtime = f_mtime tsv in
          (case load_cache B env fs srcMtime minBalance act of
             (Inr sets, act) \<Rightarrow>
               if \<not> bloomsComplete sets then
                 (let sets = EnsureBlooms B sets
                  in (Inr sets, snd (WriteCache B (e_writeFault env) (e_now env)
                       (cachePath, sets, srcMtime) fs), act))
               else (Inr sets, fs, act)
           | (Inl cacheErr, act) \<Rightarrow>
               (case read_tsv L (e_tsvFault env) minBalance (bytes_chars (f_data tsv)) of
                  Inl err \<Rightarrow> (Inl (ParseFailed err), fs, act)
                | Inr sets \<Rightarrow>
                    let sets = EnsureBlooms B (Sets_Sort sets)
                    in (Inr sets, snd (WriteCache B (e_writeFault env) (e_now env)
                         (cachePath, sets, srcMtime) fs), act))))"

section \<open>The index a load stands for\<close>

text \<open>Two indexes with the same tables, balances and minimum balance; the filters and the
  undecodable addresses may differ.\<close>

definition same_tables :: "'bf Sets \<Rightarrow> 'bf Sets \<Rightarrow> bool" where
  "same_tables s p \<longleftrightarrow> sLegacy s = sLegacy p \<and> sP2SH s = sP2SH p \<and> sSegwitV0 s = sSegwitV0 p \<and>
     sTaprootV1 s = sTaprootV1 p \<and> LegacyBalance s = LegacyBalance p \<and>
     P2SHBalance s = P2SHBalance p \<and> SegwitV0Balance s = SegwitV0Balance p \<and>
     TaprootV1Balance s = TaprootV1Balance p \<and> MinBalanceSats s = MinBalanceSats p"

text \<open>What may be on disk: a cache that the loader would accept has the tables of the TSV file and
  filters that cover them. A missing, stale or damaged cache is fine.\<close>

definition cache_faithful :: "'bf bloom_lib \<Rightarrow> 'bf Sets \<Rightarrow> fs \<Rightarrow> int \<Rightarrow> u64 \<Rightarrow> bool" where
  "cache_faithful B p fs t m \<longleftrightarrow>
     (case ReadCache B fs (CachePath m) t m of Inl e \<Rightarrow> True
      | Inr s \<Rightarrow> same_tables s p \<and> blooms_cover B s)"

text \<open>The filters of the package survive storing, and the tables fit the 32-bit counts.\<close>

definition tables_fit :: "'bf Sets \<Rightarrow> bool" where
  "tables_fit s \<longleftrightarrow> length (sLegacy s) < 2 ^ 32 \<and> length (sP2SH s) < 2 ^ 32 \<and>
     length (sSegwitV0 s) < 2 ^ 32 \<and> length (sTaprootV1 s) < 2 ^ 32"

lemma load_cache_eq:
  "fst (load_cache B env fs t m act) = ReadCache B fs (CachePath m) t m"
proof (cases "MmapLoad B (e_mmapFails env) fs (CachePath m) t m act")
  case (Pair r a)
  show ?thesis
  proof (cases r)
    case (Inl e)
    then show ?thesis by (simp add: load_cache_def Pair)
  next
    case (Inr s)
    then obtain f where "fs (CachePath m) = Some f" "DecodeCache B (f_data f) t m = Inr s"
      using MmapLoad_Inr Pair by metis
    with Inr show ?thesis by (simp add: load_cache_def Pair ReadCache_def os_ReadFile_def)
  qed
qed

lemma same_tables_ok: "same_tables s p \<Longrightarrow> tables_ok s = tables_ok p"
  by (simp add: same_tables_def tables_ok_def)

lemma same_tables_refl [simp]: "same_tables s s"
  by (simp add: same_tables_def)

lemma same_tables_Ensure [simp]: "same_tables (EnsureBlooms B s) p = same_tables s p"
  by (simp add: same_tables_def EnsureBlooms_def BuildBlooms_def)

lemma same_tables_Sort: "tables_ok s \<Longrightarrow> same_tables (Sets_Sort s) s"
  by (simp add: Sort_tables_ok same_tables_def)

lemma same_tables_lookup: "same_tables s p \<Longrightarrow> sets_lookup s k h = sets_lookup p k h"
  by (cases k) (simp_all add: same_tables_def)

lemma parse_ok: "parseTSV L m c = Inr p \<Longrightarrow> tables_ok p \<and> MinBalanceSats p = m \<and> blooms_cover B p"
proof -
  let ?b = "add_rows L (tsv_rows c) (NewBuilder m)"
  assume "parseTSV L m c = Inr p"
  then have p: "p = Build ?b" by (rule parseTSV_Inr)
  have "tables_ok p" unfolding p by (intro Build_tables_ok add_rows_ok NewBuilder_ok)
  then show ?thesis by (simp add: p) (simp add: Build_def blooms_cover_def covers_def)
qed

lemma storable_same:
  assumes "same_tables s p" "tables_ok p" "tables_fit p" "\<And>f. bloom_storable B (Some f)"
  shows "storable B s"
proof -
  have "bloom_storable B bf" for bf using assms(4) by (cases bf) (simp_all add: bloom_storable_def)
  with assms(1-3) show ?thesis
    by (simp add: storable_def blooms_storable_def storable_table_def same_tables_def tables_fit_def
        tables_ok_def table_ok_def)
qed

text \<open>Writing an index with the tables of the file keeps the cache faithful, whatever fails.\<close>

lemma WriteCache_faithful:
  assumes "same_tables s p" "index_ok B s" "MinBalanceSats p = m" "m \<noteq> 0" "storable B s" "nano_ok t"
    and "cache_faithful B p fs t m"
  shows "cache_faithful B p (snd (WriteCache B fault now (CachePath m, s, t) fs)) t m"
proof (cases "WriteCache B fault now (CachePath m, s, t) fs")
  case (Pair err fs')
  note w = cache_writer.old_or_new [of B fault now "(CachePath m, s, t)" fs]
  show ?thesis
  proof (cases "fs' (CachePath m) = fs (CachePath m)")
    case True
    then show ?thesis using assms(7) by (simp add: Pair cache_faithful_def ReadCache_def os_ReadFile_def)
  next
    case False
    then obtain d where d: "encode_cache B s t = Inr d"
      and f: "fs' (CachePath m) = Some \<lparr>f_data = d, f_mtime = now\<rparr>"
      using w Pair by (auto simp: cache_content_def split: sum.splits)
    have "effective_min s = m" using assms(1,3,4) by (simp add: effective_min_def same_tables_def)
    then have "ReadCache B fs' (CachePath m) t m = Inr (cached s)"
      using DecodeCache_encode [OF assms(6,5) d] f by (simp add: ReadCache_def os_ReadFile_def)
    moreover have "same_tables (cached s) p" "blooms_cover B (cached s)"
      using assms(1-4) by (simp_all add: same_tables_def cached_def effective_min_def index_ok_def blooms_cover_def)
    ultimately show ?thesis by (simp add: Pair cache_faithful_def)
  qed
qed

section \<open>Loading refines parsing\<close>

lemma Load_cached:
  assumes "fs (load_path opts) = Some tsv"
    and "ReadCache B fs (CachePath (load_min opts)) (f_mtime tsv) (load_min opts) = Inr s"
  shows "\<exists>act'. Load L B env opts fs act =
    (Inr (EnsureBlooms B s),
     if bloomsComplete s then fs
     else snd (WriteCache B (e_writeFault env) (e_now env)
       (CachePath (load_min opts), EnsureBlooms B s, f_mtime tsv) fs), act')"
proof -
  obtain act' where "load_cache B env fs (f_mtime tsv) (load_min opts) act = (Inr s, act')"
    using load_cache_eq [of B env fs "f_mtime tsv" "load_min opts" act] assms(2) by (metis prod.collapse)
  then show ?thesis using assms(1) by (simp add: Load_def Let_def EnsureBlooms_def)
qed

lemma Load_parsed:
  assumes "fs (load_path opts) = Some tsv"
    and "ReadCache B fs (CachePath (load_min opts)) (f_mtime tsv) (load_min opts) = Inl e"
    and "parseTSV L (load_min opts) (bytes_chars (f_data tsv)) = Inr p" "e_tsvFault env = TsvOk"
  shows "\<exists>act'. Load L B env opts fs act =
    (Inr (EnsureBlooms B (Sets_Sort p)),
     snd (WriteCache B (e_writeFault env) (e_now env)
       (CachePath (load_min opts), EnsureBlooms B (Sets_Sort p), f_mtime tsv) fs), act')"
proof -
  obtain act' where "load_cache B env fs (f_mtime tsv) (load_min opts) act = (Inl e, act')"
    using load_cache_eq [of B env fs "f_mtime tsv" "load_min opts" act] assms(2) by (metis prod.collapse)
  then show ?thesis using assms(1,3,4) by (simp add: Load_def read_tsv_def Let_def)
qed

text \<open>A load that succeeds succeeds as if nothing could fail while the TSV file is read.\<close>

lemma read_tsv_Inr: "read_tsv L fault m c = Inr p \<Longrightarrow> parseTSV L m c = Inr p"
  by (auto simp: read_tsv_def split: tsv_fault.splits if_splits)

lemma Load_no_fault:
  "Load L B env opts fs act = (Inr s, r) \<Longrightarrow> Load L B (env\<lparr>e_tsvFault := TsvOk\<rparr>) opts fs act = (Inr s, r)"
  by (auto simp: Load_def load_cache_def Let_def read_tsv_def split: option.splits sum.splits prod.splits
      if_splits tsv_fault.splits)

lemma load_min_pos: "load_min opts \<noteq> 0"
  by (simp add: load_min_def DefaultMinBalanceSats_def)

lemma index_ok_Ensure:
  "bloom_lossless B \<Longrightarrow> tables_ok s \<Longrightarrow> blooms_cover B s \<Longrightarrow>
    index_ok B (EnsureBlooms B s) \<and> bloomsComplete (EnsureBlooms B s)"
  using EnsureBlooms_ok [of B s] by (simp add: index_ok_def)

lemma Load_refines:
  assumes "bloom_lossless B" "\<And>f. bloom_storable B (Some f)"
    and tsv: "fs (load_path opts) = Some tsv" "nano_ok (f_mtime tsv)"
    and p: "parseTSV L (load_min opts) (bytes_chars (f_data tsv)) = Inr p" "tables_fit p"
    and faithful: "cache_faithful B p fs (f_mtime tsv) (load_min opts)" "e_tsvFault env = TsvOk"
  obtains s fs' act' where "Load L B env opts fs act = (Inr s, fs', act')"
    "same_tables s p" "index_ok B s" "bloomsComplete s"
    "cache_faithful B p fs' (f_mtime tsv) (load_min opts)"
proof -
  let ?t = "f_mtime tsv" and ?m = "load_min opts"
  have pok: "tables_ok p" "MinBalanceSats p = ?m" "blooms_cover B p" using parse_ok [OF p(1)] by blast+
  have kept: "cache_faithful B p (snd (WriteCache B (e_writeFault env) (e_now env)
      (CachePath ?m, s, ?t) fs)) ?t ?m" if "same_tables s p" "index_ok B s" for s
    using WriteCache_faithful [OF that pok(2) load_min_pos storable_same tsv(2) faithful(1)]
      that(1) pok(1) p(2) assms(2) by blast
  show thesis
  proof (cases "ReadCache B fs (CachePath ?m) ?t ?m")
    case (Inr s)
    then have s: "same_tables s p" "blooms_cover B s" using faithful(1) by (simp_all add: cache_faithful_def)
    then have e: "index_ok B (EnsureBlooms B s)" "bloomsComplete (EnsureBlooms B s)"
      using index_ok_Ensure [OF assms(1)] pok(1) same_tables_ok by blast+
    obtain act' where l: "Load L B env opts fs act = (Inr (EnsureBlooms B s),
        if bloomsComplete s then fs else snd (WriteCache B (e_writeFault env) (e_now env)
          (CachePath ?m, EnsureBlooms B s, ?t) fs), act')"
      using Load_cached [OF tsv(1) Inr, of L env act] by blast
    show thesis by (rule that [OF l]) (use s e kept [of "EnsureBlooms B s"] faithful in simp_all)
  next
    case (Inl err)
    let ?s = "EnsureBlooms B (Sets_Sort p)"
    have s: "same_tables ?s p" using same_tables_Sort [OF pok(1)] by simp
    have "blooms_cover B (Sets_Sort p)" "tables_ok (Sets_Sort p)"
      using pok by (simp_all add: Sort_tables_ok blooms_cover_def tables_ok_def)
    then have e: "index_ok B ?s" "bloomsComplete ?s" using index_ok_Ensure [OF assms(1)] by blast+
    obtain act' where l: "Load L B env opts fs act = (Inr ?s, snd (WriteCache B (e_writeFault env)
        (e_now env) (CachePath ?m, ?s, ?t) fs), act')"
      using Load_parsed [OF tsv(1) Inl p(1) faithful(2), of act] by blast
    show thesis by (rule that [OF l]) (use s e kept in simp_all)
  qed
qed

text \<open>C5. Loading is parsing, with or without a cache. When the cache on disk is missing, stale,
  damaged or faithful to the TSV file, \<open>Load\<close> returns an index with the tables of the file, well
  formed and with all its filters, and leaves a faithful cache behind, wherever the mapping or the
  cache write fails, as long as the TSV file can be read.\<close>

theorem Load_is_parse:
  assumes "bloom_lossless B" "\<And>f. bloom_storable B (Some f)"
    and "fs (load_path opts) = Some tsv" "nano_ok (f_mtime tsv)"
    and "parseTSV L (load_min opts) (bytes_chars (f_data tsv)) = Inr p" "tables_fit p"
    and "cache_faithful B p fs (f_mtime tsv) (load_min opts)" "e_tsvFault env = TsvOk"
  shows "\<exists>s fs' act'. Load L B env opts fs act = (Inr s, fs', act') \<and>
    same_tables s p \<and> index_ok B s \<and> bloomsComplete s \<and>
    cache_faithful B p fs' (f_mtime tsv) (load_min opts)"
  using Load_refines [OF assms, of act] by metis

text \<open>When the cache does not decode, the errors of \<open>Load\<close> are a missing TSV file, one that cannot be read, and an
  over-long line in it; an error leaves the file system as it was.\<close>

theorem Load_errors:
  assumes "\<And>t. \<exists>e. ReadCache B fs (CachePath (load_min opts)) t (load_min opts) = Inl e"
  shows "fst (Load L B env opts fs act) =
    (case fs (load_path opts) of None \<Rightarrow> Inl StatFailed
     | Some tsv \<Rightarrow>
        (case read_tsv L (e_tsvFault env) (load_min opts) (bytes_chars (f_data tsv)) of
           Inl e \<Rightarrow> Inl (ParseFailed e) | Inr p \<Rightarrow> Inr (EnsureBlooms B (Sets_Sort p)))) \<and>
    (isl (fst (Load L B env opts fs act)) \<longrightarrow> fst (snd (Load L B env opts fs act)) = fs)"
proof (cases "fs (load_path opts)")
  case (Some tsv)
  obtain e where "ReadCache B fs (CachePath (load_min opts)) (f_mtime tsv) (load_min opts) = Inl e"
    using assms by blast
  then obtain act' where "load_cache B env fs (f_mtime tsv) (load_min opts) act = (Inl e, act')"
    using load_cache_eq [of B env fs "f_mtime tsv" "load_min opts" act] by (metis prod.collapse)
  then show ?thesis by (simp add: Load_def Let_def Some split: sum.split)
qed (simp add: Load_def Let_def)

section \<open>Witnesses\<close>

definition sample_opts :: LoadOpts where "sample_opts = \<lparr>o_MinBalance = 0, o_TSVPath = []\<rparr>"

definition sample_env :: load_env where
  "sample_env = \<lparr>e_mmapFails = True, e_tsvFault = TsvOk, e_writeFault = NoFault, e_now = 9\<rparr>"

definition sample_fs :: fs where
  "sample_fs = [''funded.tsv'' \<mapsto> \<lparr>f_data = chars_bytes sample_tsv, f_mtime = 5\<rparr>]"

lemma sample_opts_eq: "load_min sample_opts = 30000" "load_path sample_opts = ''funded.tsv''"
  by (simp_all add: load_min_def load_path_def sample_opts_def DefaultMinBalanceSats_def
      DefaultTSVFile_def)

lemma sample_no_cache: "ReadCache B sample_fs (CachePath 30000) t m = Inl (OsError NotExist)"
  by (simp add: ReadCache_def os_ReadFile_def sample_fs_def CachePath_def DefaultCacheFile_def
      DefaultMinBalanceSats_def)

lemma sample_parsed:
  "\<exists>p :: u8 Sets. parseTSV sample_lib 30000 sample_tsv = Inr p \<and> tables_fit p"
proof -
  obtain p :: "u8 Sets" where p: "parseTSV sample_lib 30000 sample_tsv = Inr p"
    by (simp add: parseTSV_def sample_lines Let_def)
  have "tables_fit p"
    by (simp add: parseTSV_Inr [OF p] tables_fit_def Build_def sortedHash20_def sortedHash32_def
        sample_rows Add_def sample_decode mergeBalance20_def NewBuilder_def Let_def)
  with p show ?thesis by blast
qed

lemma sample_bloom_storable: "bloom_storable sample_bloom (Some f)"
  by (simp add: bloom_storable_def sample_bloom_def)

theorem Load_is_parse_witness:
  "\<exists>s fs' act'. Load sample_lib sample_bloom sample_env sample_opts sample_fs None = (Inr s, fs', act') \<and>
    index_ok sample_bloom s \<and> bloomsComplete s"
proof -
  obtain p :: "u8 Sets" where p: "parseTSV sample_lib 30000 sample_tsv = Inr p" "tables_fit p"
    using sample_parsed by blast
  let ?tsv = "\<lparr>f_data = chars_bytes sample_tsv, f_mtime = 5\<rparr>"
  have "sample_fs (load_path sample_opts) = Some ?tsv" by (simp add: sample_opts_eq) (simp add: sample_fs_def)
  note load = Load_is_parse [where fs = sample_fs and opts = sample_opts and L = sample_lib and p = p
      and env = sample_env and act = None, OF sample_bloom_lossless sample_bloom_storable this]
  have "\<exists>s fs' act'. Load sample_lib sample_bloom sample_env sample_opts sample_fs None = (Inr s, fs', act') \<and>
      same_tables s p \<and> index_ok sample_bloom s \<and> bloomsComplete s \<and>
      cache_faithful sample_bloom p fs' 5 30000"
    using load p
    by (simp add: sample_opts_eq sample_nano cache_faithful_def [of _ _ sample_fs] sample_no_cache sample_env_def)
  then show ?thesis by blast
qed

theorem Load_errors_witness:
  "fst (Load sample_lib sample_bloom sample_env sample_opts Map.empty None) = Inl StatFailed"
  using Load_errors [of sample_bloom Map.empty sample_opts sample_lib sample_env None]
  by (simp add: ReadCache_def os_ReadFile_def)

end
