(* ===== verification/HitSound.thy ===== *)
theory HitSound
  imports Load
begin

text \<open>
  The funded package as the search uses it: load an index, match the keys of a wallet, print the
  address of the match. A hit is the address of a row of funded.tsv, and no row that the selected
  formats reach is missed.
\<close>

text \<open>The address kind and the payload a match of a kind is about.\<close>

fun hit_payload :: "MatchKind \<Rightarrow> LookupKeys \<Rightarrow> AddressKind \<times> u8 list" where
  "hit_payload MatchLegacyCompressed keys = (KindLegacy, array_bytes (CompressedHash keys))"
| "hit_payload MatchLegacyUncompressed keys = (KindLegacy, array_bytes (UncompressedHash keys))"
| "hit_payload MatchSegwitV0 keys = (KindSegwitV0, array_bytes (CompressedHash keys))"
| "hit_payload MatchP2SH keys = (KindP2SH, array_bytes (P2SHHash keys))"
| "hit_payload MatchTaproot keys = (KindTaprootV1, array_bytes (TaprootKey keys))"
| "hit_payload MatchKindOther keys = (KindLegacy, [])"

lemma hit_payload_length: "k \<noteq> MatchKindOther \<Longrightarrow> length (snd (hit_payload k keys)) = kind_length (fst (hit_payload k keys))"
  by (cases k) (simp_all add: kind_length_def)

lemma decode_hit_address:
  assumes "address_laws L" "k \<noteq> MatchKindOther"
  shows "DecodeFundedAddressForLoad L (EncodeMatchAddress L k keys) = Inr (hit_payload k keys)"
  using address_decodes [OF assms(1)] assms(2)
  by (cases k) (simp_all add: EncodePubKeyHash_def EncodeScriptHash_def EncodeWitnessPubKeyHash_def
      EncodeTaprootKey_def)

lemma recorded_lookup:
  assumes "tables_ok s" "balance_recorded s keys k b"
  shows "k \<noteq> MatchKindOther \<and> sets_lookup s (fst (hit_payload k keys)) (snd (hit_payload k keys)) = Some b"
  using assms by (cases k) (simp_all add: tables_ok_def table_ok_def map_of_eq_Some_iff)

lemma funded_lookup:
  assumes "tables_ok s" "k \<noteq> MatchKindOther"
  shows "key_funded s keys k \<longleftrightarrow> sets_lookup s (fst (hit_payload k keys)) (snd (hit_payload k keys)) \<noteq> None"
  using assms table_lookup_member by (cases k) (simp_all add: tables_ok_def table_lookup_member)

lemma best_balance_row:
  assumes "best_balance L m rows k h = Some b"
  shows "\<exists>row \<in> set rows. row_for L m k h row \<and> snd row = b"
proof -
  let ?vs = "map snd (filter (row_for L m k h) rows)"
  have "?vs \<noteq> []" "b = Max (set ?vs)" using assms by (auto simp: best_balance_def Let_def split: if_splits)
  then have "b \<in> set ?vs" using Max_in [of "set ?vs"] by (metis List.finite_set set_empty)
  then show ?thesis by auto
qed

lemma best_balance_None: "best_balance L m rows k h = None \<longleftrightarrow> (\<forall>row \<in> set rows. \<not> row_for L m k h row)"
  by (auto simp: best_balance_def Let_def filter_empty_conv)

lemma parsed_lookup:
  assumes "parseTSV L m content = Inr p" "length h = kind_length k"
  shows "sets_lookup p k h = best_balance L m (tsv_rows content) k h"
  by (simp add: parseTSV_Inr [OF assms(1)] Build_lookup add_rows_best [OF assms(2)])

lemma hit_row:
  assumes "parseTSV L m content = Inr p" "same_tables s p" "index_ok B s" "Match B s keys fm = (k, True)"
  shows "\<exists>row \<in> set (tsv_rows content). m \<le> snd row \<and> snd row = BalanceForMatch s k keys \<and>
    k \<noteq> MatchKindOther \<and> DecodeFundedAddressForLoad L (fst row) = Inr (hit_payload k keys)"
proof -
  have ok: "tables_ok s" using assms(3) by (simp add: index_ok_def)
  have "match_spec s keys fm = Some k"
    using assms(3,4) by (auto simp: Match_spec match_result_def split: option.splits)
  then have "key_funded s keys k" by (simp add: match_spec_Some)
  then have "balance_recorded s keys k (BalanceForMatch s k keys)"
    using ok by (simp add: balance_of_funded)
  then have k: "k \<noteq> MatchKindOther" and
    l: "sets_lookup s (fst (hit_payload k keys)) (snd (hit_payload k keys)) = Some (BalanceForMatch s k keys)"
    using recorded_lookup [OF ok] by blast+
  have "best_balance L m (tsv_rows content) (fst (hit_payload k keys)) (snd (hit_payload k keys)) =
      Some (BalanceForMatch s k keys)"
    using l parsed_lookup [OF assms(1) hit_payload_length [OF k]] same_tables_lookup [OF assms(2)] by simp
  from best_balance_row [OF this] k show ?thesis by (auto simp: row_for_def)
qed

lemma no_row_missed:
  assumes "parseTSV L m content = Inr p" "same_tables s p" "index_ok B s"
    and row: "row \<in> set (tsv_rows content)" "m \<le> snd row"
      "DecodeFundedAddressForLoad L (fst row) = Inr (hit_payload k keys)"
    and k: "format_enabled fm k" "k \<noteq> MatchKindOther"
  shows "snd (Match B s keys fm)"
proof (rule ccontr)
  have ok: "tables_ok s" using assms(3) by (simp add: index_ok_def)
  let ?h = "hit_payload k keys"
  have "row_for L m (fst ?h) (snd ?h) row" using row by (simp add: row_for_def)
  then have "best_balance L m (tsv_rows content) (fst ?h) (snd ?h) \<noteq> None"
    using row(1) unfolding best_balance_None by blast
  then have "key_funded s keys k"
    using parsed_lookup [OF assms(1) hit_payload_length [OF k(2)]] same_tables_lookup [OF assms(2)]
      funded_lookup [OF ok k(2)] by simp
  then have "match_spec s keys fm \<noteq> None" using k(1) unfolding match_spec_None by blast
  moreover assume "\<not> snd (Match B s keys fm)"
  ultimately show False using assms(3) by (auto simp: Match_spec match_result_def)
qed

text \<open>The situation of a load: funded.tsv is there and parses to \<open>p\<close>, its time and its tables fit the
  cache format, and a cache that would be accepted is faithful to it.\<close>

definition disk_ok ::
  "addr_lib \<Rightarrow> 'bf bloom_lib \<Rightarrow> fs \<Rightarrow> LoadOpts \<Rightarrow> string \<Rightarrow> 'bf Sets \<Rightarrow> bool" where
  "disk_ok L B fs opts content p \<longleftrightarrow>
     (case fs (load_path opts) of None \<Rightarrow> False
      | Some tsv \<Rightarrow> content = bytes_chars (f_data tsv) \<and> nano_ok (f_mtime tsv) \<and>
          parseTSV L (load_min opts) content = Inr p \<and> tables_fit p \<and>
          cache_faithful B p fs (f_mtime tsv) (load_min opts))"

definition bloom_laws :: "'bf bloom_lib \<Rightarrow> bool" where
  "bloom_laws B \<longleftrightarrow> bloom_lossless B \<and> (\<forall>f. bloom_storable B (Some f))"

lemma disk_loads:
  assumes "bloom_laws B" "disk_ok L B fs opts content p" "e_tsvFault env = TsvOk"
  obtains s fs' act' where "Load L B env opts fs act = (Inr s, fs', act')" "same_tables s p"
    "index_ok B s" "parseTSV L (load_min opts) content = Inr p"
proof -
  obtain tsv where tsv: "fs (load_path opts) = Some tsv" "content = bytes_chars (f_data tsv)"
    "nano_ok (f_mtime tsv)" "parseTSV L (load_min opts) content = Inr p" "tables_fit p"
    "cache_faithful B p fs (f_mtime tsv) (load_min opts)"
    using assms(2) by (auto simp: disk_ok_def split: option.splits)
  have B: "bloom_lossless B" "\<And>f. bloom_storable B (Some f)" using assms(1) by (simp_all add: bloom_laws_def)
  show thesis
    by (rule Load_refines [OF B tsv(1,3) tsv(4) [unfolded tsv(2)] tsv(5,6) assms(3), of act])
      (use tsv in \<open>auto intro: that\<close>)
qed

lemma loaded_disk:
  assumes "bloom_laws B" "disk_ok L B fs opts content p" "Load L B env opts fs act = (Inr s, fs', act')"
  shows "same_tables s p" "index_ok B s" "parseTSV L (load_min opts) content = Inr p"
proof -
  obtain s1 fs1 act1 where "Load L B (env\<lparr>e_tsvFault := TsvOk\<rparr>) opts fs act = (Inr s1, fs1, act1)"
    "same_tables s1 p" "index_ok B s1" "parseTSV L (load_min opts) content = Inr p"
    by (rule disk_loads [OF assms(1,2), of "env\<lparr>e_tsvFault := TsvOk\<rparr>" act]) simp
  then show "same_tables s p" "index_ok B s" "parseTSV L (load_min opts) content = Inr p"
    using Load_no_fault [OF assms(3)] by simp_all
qed

text \<open>C1. A hit is real: when the loaded index matches the keys of a wallet, some row of funded.tsv
  has at least the minimum balance, the very balance the hit reports, and an address that stands
  for the same kind and hash as the address printed for the hit.\<close>

theorem hit_is_funded_row:
  assumes "bloom_laws B" "address_laws L" "disk_ok L B fs opts content p"
    and "Load L B env opts fs act = (Inr s, fs', act')" "Match B s keys fm = (k, True)"
  shows "\<exists>row \<in> set (tsv_rows content). load_min opts \<le> snd row \<and> snd row = BalanceForMatch s k keys \<and>
    DecodeFundedAddressForLoad L (fst row) = Inr (hit_payload k keys) \<and>
    DecodeFundedAddressForLoad L (EncodeMatchAddress L k keys) = Inr (hit_payload k keys)"
proof -
  note s = loaded_disk [OF assms(1,3,4)]
  show ?thesis using hit_row [OF s(3,1,2) assms(5)] decode_hit_address [OF assms(2)] by fast
qed

text \<open>C2. No funded address is missed: a row of funded.tsv with at least the minimum balance whose
  address stands for a key of the wallet in a selected format makes the wallet a match.\<close>

theorem no_funded_row_missed:
  assumes "bloom_laws B" "disk_ok L B fs opts content p"
    and "Load L B env opts fs act = (Inr s, fs', act')"
    and "row \<in> set (tsv_rows content)" "load_min opts \<le> snd row"
      "DecodeFundedAddressForLoad L (fst row) = Inr (hit_payload k keys)"
      "format_enabled fm k" "k \<noteq> MatchKindOther"
  shows "snd (Match B s keys fm)"
proof -
  note s = loaded_disk [OF assms(1,2,3)]
  show ?thesis by (rule no_row_missed [OF s(3,1,2) assms(4-8)])
qed

section \<open>Witnesses\<close>

lemma sample_bloom_laws: "bloom_laws sample_bloom"
  by (simp add: bloom_laws_def sample_bloom_lossless sample_bloom_storable)

lemma sample_env_ok: "e_tsvFault sample_env = TsvOk"
  by (simp add: sample_env_def)

lemma sample_disk: "\<exists>p. disk_ok sample_lib sample_bloom sample_fs sample_opts sample_tsv p"
proof -
  obtain p :: "u8 Sets" where "parseTSV sample_lib 30000 sample_tsv = Inr p" "tables_fit p"
    using sample_parsed by blast
  moreover have "sample_fs ''funded.tsv'' = Some \<lparr>f_data = chars_bytes sample_tsv, f_mtime = 5\<rparr>"
    by (simp add: sample_fs_def)
  ultimately show ?thesis
    by (auto simp: disk_ok_def sample_opts_eq cache_faithful_def sample_no_cache sample_nano)
qed

definition funded_keys :: LookupKeys where
  "funded_keys = zero_keys\<lparr>CompressedHash := copy_array (replicate 20 65)\<rparr>"

lemma funded_row:
  "(''1AAAAAAAAAAAAAAAAAAAA'', 50000) \<in> set (tsv_rows sample_tsv)"
  "DecodeFundedAddressForLoad sample_lib (fst (''1AAAAAAAAAAAAAAAAAAAA'', 50000 :: u64)) =
    Inr (hit_payload MatchLegacyCompressed funded_keys)"
  by (simp_all only: sample_rows fst_conv sample_decode)
    (simp_all add: funded_keys_def array_bytes_copy)

theorem no_funded_row_missed_witness:
  "\<exists>s fs' act'. Load sample_lib sample_bloom sample_env sample_opts sample_fs None = (Inr s, fs', act') \<and>
    snd (Match sample_bloom s funded_keys AllFormats)"
proof -
  obtain p where p: "disk_ok sample_lib sample_bloom sample_fs sample_opts sample_tsv p"
    using sample_disk by blast
  obtain s fs' act' where l:
    "Load sample_lib sample_bloom sample_env sample_opts sample_fs None = (Inr s, fs', act')"
    by (rule disk_loads [OF sample_bloom_laws p sample_env_ok, of None])
  have "snd (Match sample_bloom s funded_keys AllFormats)"
    by (rule no_funded_row_missed [OF sample_bloom_laws p l funded_row(1) _ funded_row(2)])
      (simp_all add: sample_opts_eq AllFormats_def)
  with l show ?thesis by blast
qed

theorem hit_is_funded_row_witness:
  "\<exists>s fs' act' k. Load sample_lib sample_bloom sample_env sample_opts sample_fs None = (Inr s, fs', act') \<and>
    Match sample_bloom s funded_keys AllFormats = (k, True) \<and>
    (\<exists>row \<in> set (tsv_rows sample_tsv). 30000 \<le> snd row \<and> snd row = BalanceForMatch s k funded_keys)"
proof -
  obtain p where p: "disk_ok sample_lib sample_bloom sample_fs sample_opts sample_tsv p"
    using sample_disk by blast
  obtain s fs' act' where l: "same_tables s p" "index_ok sample_bloom s"
    "parseTSV sample_lib (load_min sample_opts) sample_tsv = Inr p"
    "Load sample_lib sample_bloom sample_env sample_opts sample_fs None = (Inr s, fs', act')"
    by (rule disk_loads [OF sample_bloom_laws p sample_env_ok, of None])
  have "snd (Match sample_bloom s funded_keys AllFormats)"
    by (rule no_row_missed [OF l(3,1,2) funded_row(1) _ funded_row(2)])
      (simp_all add: sample_opts_eq AllFormats_def)
  then obtain k where k: "Match sample_bloom s funded_keys AllFormats = (k, True)"
    by (metis prod.collapse)
  show ?thesis
    using hit_is_funded_row [OF sample_bloom_laws sample_lib_laws p l(4) k] l(4) k
    by (simp add: sample_opts_eq) blast
qed

end
