(* ===== verification/Download.thy ===== *)
theory Download
  imports Load
begin

text \<open>
  funded/download.go: keeping funded.tsv up to date. The network and the terminal are the record
  \<open>web\<close>: what each request returns and what the user types. The decompressed stream is the list of
  reads with the result of the write that follows each.
\<close>

section \<open>Copying the stream\<close>

datatype read_end = ReadEOF | ReadFail

text \<open>One turn of the loop: the bytes read, the error that came with them, and how many of them the
  following write accepts and whether it fails.\<close>

record copy_step =
  cs_chunk :: "u8 list"
  cs_end :: "read_end option"
  cs_wn :: nat
  cs_werr :: bool

datatype copy_error = CopyWriteErr | ShortWrite | CopyReadErr

text \<open>The bytes counted, the bytes in the destination, and the error. A reader that is out of steps
  is at its end.\<close>

fun copyWithProgress :: "copy_step list \<Rightarrow> nat \<Rightarrow> u8 list \<Rightarrow> nat \<times> u8 list \<times> copy_error option" where
  "copyWithProgress [] written dst = (written, dst, None)"
| "copyWithProgress (c # cs) written dst =
     (let n = length (cs_chunk c);
          written' = (if n > 0 then written + cs_wn c else written);
          dst' = (if n > 0 then dst @ take (cs_wn c) (cs_chunk c) else dst)
      in if n > 0 \<and> cs_werr c then (written', dst', Some CopyWriteErr)
         else if n > 0 \<and> cs_wn c \<noteq> n then (written', dst', Some ShortWrite)
         else
           (case cs_end c of
              None \<Rightarrow> copyWithProgress cs written' dst'
            | Some ReadEOF \<Rightarrow> (written', dst', None)
            | Some ReadFail \<Rightarrow> (written', dst', Some CopyReadErr)))"

text \<open>What the reader delivers up to its first end: the whole stream, or nothing if it fails.\<close>

fun stream_of :: "copy_step list \<Rightarrow> u8 list option" where
  "stream_of [] = Some []"
| "stream_of (c # cs) =
     (case cs_end c of
        None \<Rightarrow> map_option ((@) (cs_chunk c)) (stream_of cs)
      | Some ReadEOF \<Rightarrow> Some (cs_chunk c)
      | Some ReadFail \<Rightarrow> None)"

lemma copy_whole:
  "copyWithProgress cs written dst = (n, out, None) \<Longrightarrow>
    \<exists>d. stream_of cs = Some d \<and> out = dst @ d \<and> n = written + length d"
proof (induction cs arbitrary: written dst)
  case (Cons c cs)
  let ?k = "length (cs_chunk c)"
  have full: "cs_chunk c = [] \<or> cs_wn c = ?k" using Cons.prems by (auto simp: Let_def split: if_splits)
  show ?case
  proof (cases "cs_end c")
    case None
    have "copyWithProgress cs (written + ?k) (dst @ cs_chunk c) = (n, out, None)"
      using Cons.prems None full by (auto simp: Let_def split: if_splits)
    from Cons.IH [OF this] None show ?thesis by auto
  next
    case (Some e)
    then show ?thesis using Cons.prems full by (cases e) (auto simp: Let_def split: if_splits)
  qed
qed simp

section \<open>The remote file\<close>

datatype head_result = HeadFails | HeadResponse nat string

datatype get_result = GetFails | GetResponse nat "copy_step list option"

record web =
  w_head :: head_result
  w_head_after :: head_result
  w_get :: get_result
  w_parse_time :: "string \<Rightarrow> int option"
  w_answer :: string

datatype download_error =
    HeadFailed | HeadStatus nat | NoLastModified | BadLastModified
  | DownloadFailed | DownloadStatus nat | GzipFailed | TempCreateFailed
  | WriteFailed copy_error | DiskWriteFailed | CloseFailed | RenameFailed | StatError

definition remoteLastModified :: "(string \<Rightarrow> int option) \<Rightarrow> head_result \<Rightarrow> download_error + int" where
  "remoteLastModified parse_time r =
     (case r of
        HeadFails \<Rightarrow> Inl HeadFailed
      | HeadResponse status lastModified \<Rightarrow>
          if status \<noteq> 200 then Inl (HeadStatus status)
          else if lastModified = '''' then Inl NoLastModified
          else (case parse_time lastModified of None \<Rightarrow> Inl BadLastModified | Some t \<Rightarrow> Inr t))"

text \<open>The file half of \<open>downloadTSV\<close>: create the temporary file, copy, close, rename. Every failure
  after the creation removes the temporary file, the rename's too.\<close>

definition install_tsv ::
  "io_fault \<Rightarrow> int \<Rightarrow> copy_step list \<Rightarrow> fs \<Rightarrow> download_error option \<times> fs" where
  "install_tsv fault now steps fs =
     (let tmpFile = tmp_path DefaultTSVFile in
      if fault = CreateFails then (Some TempCreateFailed, fs)
      else
        (case copyWithProgress steps 0 [] of (n, d, err) \<Rightarrow>
           if err \<noteq> None then (Some (WriteFailed (the err)), fs(tmpFile := None))
           else if fault = WriteFails then (Some DiskWriteFailed, fs(tmpFile := None))
           else if fault = CloseFails then (Some CloseFailed, fs(tmpFile := None))
           else if fault = RenameFails then (Some RenameFailed, fs(tmpFile := None))
           else (None, fs(tmpFile := None, DefaultTSVFile \<mapsto> \<lparr>f_data = d, f_mtime = now\<rparr>))))"

definition stream_content :: "copy_step list \<Rightarrow> u8 list option" where
  "stream_content steps =
     (case copyWithProgress steps 0 [] of (n, d, None) \<Rightarrow> Some d | (n, d, Some e) \<Rightarrow> None)"

interpretation tsv_writer: atomic_writer stream_content "\<lambda>_. DefaultTSVFile" install_tsv
proof
  fix fault now r fs fs' p and e and job :: "copy_step list"
  obtain n d err where c: "copyWithProgress job 0 [] = (n, d, err)" by (rule prod_cases3)
  note d = install_tsv_def stream_content_def Let_def c
  show "install_tsv fault now job fs = (None, fs') \<Longrightarrow>
      \<exists>d. stream_content job = Some d \<and> fs' DefaultTSVFile = Some \<lparr>f_data = d, f_mtime = now\<rparr>"
    by (auto simp: d split: if_splits option.splits)
  show "install_tsv fault now job fs = (Some e, fs') \<Longrightarrow> fs' DefaultTSVFile = fs DefaultTSVFile"
    by (auto simp: d split: if_splits)
  show "install_tsv fault now job fs = (r, fs') \<Longrightarrow> p \<noteq> DefaultTSVFile \<Longrightarrow>
      p \<noteq> tmp_path DefaultTSVFile \<Longrightarrow> fs' p = fs p"
    by (auto simp: d split: if_splits)
  show "stream_content job \<noteq> None \<Longrightarrow> fst (install_tsv NoFault now job fs) = None"
    by (auto simp: d split: option.splits)
qed

definition downloadTSV ::
  "web \<Rightarrow> io_fault \<Rightarrow> bool \<Rightarrow> int \<Rightarrow> fs \<Rightarrow> download_error option \<times> fs" where
  "downloadTSV w fault removeFails now fs =
     (case w_get w of
        GetFails \<Rightarrow> (Some DownloadFailed, fs)
      | GetResponse status body \<Rightarrow>
          if status \<noteq> 200 then (Some (DownloadStatus status), fs)
          else
            (case body of
               None \<Rightarrow> (Some GzipFailed, fs)
             | Some steps \<Rightarrow>
                 (case install_tsv fault now steps fs of
                    (Some e, fs) \<Rightarrow> (Some e, fs)
                  | (None, fs) \<Rightarrow>
                      let fs = (case remoteLastModified (w_parse_time w) (w_head_after w) of
                          Inl e \<Rightarrow> fs
                        | Inr remoteMod \<Rightarrow>
                            fs(DefaultTSVFile := map_option (f_mtime_update (\<lambda>_. remoteMod)) (fs DefaultTSVFile)))
                      in (None, snd (RemoveDefaultCache removeFails fs)))))"

text \<open>\<open>strings.ToLower\<close> on the letters that matter: no character outside A-Z has a lower case in
  "y" or "yes".\<close>

definition lower_char :: "char \<Rightarrow> char" where
  "lower_char c = (let n = of_char c :: nat in if 65 \<le> n \<and> n \<le> 90 then char_of (n + 32) else c)"

definition says_yes :: "string \<Rightarrow> bool" where
  "says_yes line = (let answer = TrimSpace (map lower_char line) in answer = ''y'' \<or> answer = ''yes'')"

definition EnsureTSV ::
  "web \<Rightarrow> bool \<Rightarrow> io_fault \<Rightarrow> bool \<Rightarrow> int \<Rightarrow> fs \<Rightarrow> download_error option \<times> fs" where
  "EnsureTSV w statFails fault removeFails now fs =
     (case fs DefaultTSVFile of
        None \<Rightarrow> if statFails then (Some StatError, fs) else downloadTSV w fault removeFails now fs
      | Some info \<Rightarrow>
          if statFails then (Some StatError, fs)
          else
            (case remoteLastModified (w_parse_time w) (w_head w) of
               Inl err \<Rightarrow> (None, fs)
             | Inr remoteMod \<Rightarrow>
                 if f_mtime info < remoteMod then
                   (if says_yes (w_answer w) then downloadTSV w fault removeFails now fs else (None, fs))
                 else (None, fs)))"

section \<open>What an update may do\<close>

text \<open>When the program asks for a download: no file, or a newer remote file and a yes.\<close>

definition wants_download :: "web \<Rightarrow> fs \<Rightarrow> bool" where
  "wants_download w fs =
     (case fs DefaultTSVFile of None \<Rightarrow> True
      | Some info \<Rightarrow>
          (case remoteLastModified (w_parse_time w) (w_head w) of Inl e \<Rightarrow> False
           | Inr remoteMod \<Rightarrow> f_mtime info < remoteMod \<and> says_yes (w_answer w)))"

lemma EnsureTSV_alt:
  "EnsureTSV w False fault rf now fs =
    (if wants_download w fs then downloadTSV w fault rf now fs else (None, fs))"
  by (auto simp: EnsureTSV_def wants_download_def split: option.split sum.split)

lemma tsv_not_cache [simp]:
  "DefaultTSVFile \<noteq> DefaultCacheFile" "DefaultCacheFile \<noteq> DefaultTSVFile"
  "tmp_path DefaultTSVFile \<noteq> DefaultCacheFile" "DefaultCacheFile \<noteq> tmp_path DefaultTSVFile"
  by (simp_all add: DefaultTSVFile_def DefaultCacheFile_def tmp_path_def)

lemma RemoveDefaultCache_other: "p \<noteq> DefaultCacheFile \<Longrightarrow> snd (RemoveDefaultCache x fs) p = fs p"
  by (simp add: RemoveDefaultCache_def RemoveCache_def)

lemma downloadTSV_outcome:
  assumes "downloadTSV w fault rf now fs = (err, fs')"
  shows "case err of
      Some e \<Rightarrow> fs' DefaultTSVFile = fs DefaultTSVFile \<and> fs' DefaultCacheFile = fs DefaultCacheFile
    | None \<Rightarrow> (\<exists>steps d t. w_get w = GetResponse 200 (Some steps) \<and> stream_of steps = Some d \<and>
        fs' DefaultTSVFile = Some \<lparr>f_data = d, f_mtime = t\<rparr> \<and> (rf \<or> fs' DefaultCacheFile = None))"
proof (cases "w_get w")
  case GetFails
  then show ?thesis using assms by (auto simp: downloadTSV_def)
next
  case (GetResponse status body)
  show ?thesis
  proof (cases "status = 200 \<and> body \<noteq> None")
    case False
    then show ?thesis using assms GetResponse by (auto simp: downloadTSV_def split: if_splits)
  next
    case True
    then obtain steps where g: "w_get w = GetResponse 200 (Some steps)" using GetResponse by auto
    obtain r fs1 where i: "install_tsv fault now steps fs = (r, fs1)" by (rule prod.exhaust)
    show ?thesis
    proof (cases r)
      case (Some e)
      have "fs1 DefaultTSVFile = fs DefaultTSVFile" using tsv_writer.failure i Some by blast
      moreover have "fs1 DefaultCacheFile = fs DefaultCacheFile" using tsv_writer.frame [OF i] by simp
      ultimately show ?thesis using assms g i Some by (auto simp: downloadTSV_def)
    next
      case None
      obtain d where d: "stream_content steps = Some d"
        "fs1 DefaultTSVFile = Some \<lparr>f_data = d, f_mtime = now\<rparr>"
        using tsv_writer.success i None by blast
      then have s: "stream_of steps = Some d"
        using copy_whole [of steps 0 "[]"] by (auto simp: stream_content_def split: prod.splits option.splits)
      show ?thesis
        using assms g i None d s
        by (auto simp: downloadTSV_def Let_def RemoveDefaultCache_other split: sum.splits)
          (auto simp: RemoveDefaultCache_def RemoveCache_def split: if_splits)
    qed
  qed
qed

text \<open>C35. Updating never damages funded.tsv. A download happens only when the file is missing, or when
  the server's file is newer and the user says yes; a successful one leaves the complete
  decompressed stream (every byte of it) in place and removes the default cache; after any error,
  and when nothing is downloaded, the file is what it was. A server that cannot be asked is no
  error when the file exists.\<close>

theorem EnsureTSV_safe:
  assumes "EnsureTSV w False fault rf now fs = (err, fs')"
  shows "(\<not> wants_download w fs \<longrightarrow> err = None \<and> fs' = fs) \<and>
    (wants_download w fs \<and> err = None \<longrightarrow>
      (\<exists>steps d t. w_get w = GetResponse 200 (Some steps) \<and> stream_of steps = Some d \<and>
        fs' DefaultTSVFile = Some \<lparr>f_data = d, f_mtime = t\<rparr> \<and> (rf \<or> fs' DefaultCacheFile = None))) \<and>
    (err \<noteq> None \<longrightarrow> fs' DefaultTSVFile = fs DefaultTSVFile \<and> fs' DefaultCacheFile = fs DefaultCacheFile)"
  using assms downloadTSV_outcome [of w fault rf now fs err fs']
  by (cases "wants_download w fs"; cases err) (simp_all add: EnsureTSV_alt)

theorem EnsureTSV_safe_witness:
  "\<exists>fs'. EnsureTSV \<lparr>w_head = HeadFails, w_head_after = HeadFails,
      w_get = GetResponse 200 (Some [\<lparr>cs_chunk = [1, 2], cs_end = None, cs_wn = 2, cs_werr = False\<rparr>,
        \<lparr>cs_chunk = [3], cs_end = Some ReadEOF, cs_wn = 1, cs_werr = False\<rparr>]),
      w_parse_time = (\<lambda>_. None), w_answer = ''''\<rparr> False NoFault False 7 Map.empty = (None, fs') \<and>
    (\<exists>t. fs' DefaultTSVFile = Some \<lparr>f_data = [1, 2, 3], f_mtime = t\<rparr>) \<and> fs' DefaultCacheFile = None"
proof -
  let ?w = "\<lparr>w_head = HeadFails, w_head_after = HeadFails,
      w_get = GetResponse 200 (Some [\<lparr>cs_chunk = [1, 2], cs_end = None, cs_wn = 2, cs_werr = False\<rparr>,
        \<lparr>cs_chunk = [3], cs_end = Some ReadEOF, cs_wn = 1, cs_werr = False\<rparr>]),
      w_parse_time = (\<lambda>_. None), w_answer = ''''\<rparr>"
  have w: "wants_download ?w Map.empty" by (simp add: wants_download_def)
  obtain fs' where e: "EnsureTSV ?w False NoFault False 7 Map.empty = (None, fs')"
    unfolding EnsureTSV_alt using w
    by (simp add: downloadTSV_def install_tsv_def Let_def remoteLastModified_def)
  show ?thesis using EnsureTSV_safe [OF e] w e by auto
qed

end
