(* ===== verification/Derive.thy ===== *)
theory Derive
  imports Index
begin

text \<open>
  bitcoin/hash160.go, lookup.go, wallets.go and search/workers.go: from a private key to the keys
  that are looked up. The curve and the hash functions are the parameter \<open>crypto_lib\<close>. The search
  derives in stages and leaves out what its index cannot match (\<open>deriveKeysStaged\<close>).
\<close>

record ('priv, 'pub) crypto_lib =
  c_PubKey :: "'priv \<Rightarrow> 'pub"
  c_Serialize :: "'priv \<Rightarrow> u8 list"
  c_SerializeCompressed :: "'pub \<Rightarrow> u8 list"
  c_SerializeUncompressed :: "'pub \<Rightarrow> u8 list"
  c_ComputeTaprootKeyNoScript :: "'pub \<Rightarrow> 'pub"
  c_SerializePubKey :: "'pub \<Rightarrow> u8 list"
  c_Sum256 :: "u8 list \<Rightarrow> u8 list"
  c_ripemd160 :: "u8 list \<Rightarrow> u8 list"

record Wallet =
  PrivKey :: "u8 list"
  Keys :: LookupKeys

text \<open>The digest is copied into 20 bytes whatever its length.\<close>

definition Hash160 :: "('priv, 'pub) crypto_lib \<Rightarrow> u8 list \<Rightarrow> hash20" where
  "Hash160 C data = copy_array (c_ripemd160 C (c_Sum256 C data))"

definition redeemScript :: "hash20 \<Rightarrow> u8 list" where
  "redeemScript h = [0x00, 0x14] @ array_bytes h"

section \<open>Deriving everything the mask asks for\<close>

definition DeriveLookupKeysMasked :: "('priv, 'pub) crypto_lib \<Rightarrow> 'priv \<Rightarrow> FormatMask \<Rightarrow> LookupKeys" where
  "DeriveLookupKeysMasked C privKey fm =
     (let pubKey = c_PubKey C privKey;
          keys = zero_keys;
          keys = (if NeedsCompressedPubkeyHash fm
            then keys\<lparr>CompressedHash := Hash160 C (c_SerializeCompressed C pubKey)\<rparr> else keys);
          keys = (if LegacyUncompressed fm
            then keys\<lparr>UncompressedHash := Hash160 C (c_SerializeUncompressed C pubKey)\<rparr> else keys);
          keys = (if P2SH fm
            then keys\<lparr>P2SHHash := Hash160 C (redeemScript (CompressedHash keys))\<rparr> else keys);
          keys = (if Taproot fm
            then keys\<lparr>TaprootKey := copy_array (c_SerializePubKey C
              (c_ComputeTaprootKeyNoScript C pubKey))\<rparr> else keys)
      in keys)"

definition DeriveLookupKeys :: "('priv, 'pub) crypto_lib \<Rightarrow> 'priv \<Rightarrow> LookupKeys" where
  "DeriveLookupKeys C privKey = DeriveLookupKeysMasked C privKey AllFormats"

text \<open>\<open>btcec.NewPrivateKey\<close> draws the key; its error is a panic, \<open>None\<close> here.\<close>

definition GenKeypairMasked ::
  "('priv, 'pub) crypto_lib \<Rightarrow> 'priv option \<Rightarrow> FormatMask \<Rightarrow> Wallet option" where
  "GenKeypairMasked C drawn fm =
     (case drawn of None \<Rightarrow> None
      | Some privKey \<Rightarrow> Some \<lparr>PrivKey = c_Serialize C privKey, Keys = DeriveLookupKeysMasked C privKey fm\<rparr>)"

definition GenKeypair :: "('priv, 'pub) crypto_lib \<Rightarrow> 'priv option \<Rightarrow> Wallet option" where
  "GenKeypair C drawn = GenKeypairMasked C drawn AllFormats"

section \<open>Deriving in stages\<close>

definition bloomTest20 :: "'bf bloom_lib \<Rightarrow> 'bf option \<Rightarrow> hash20 \<Rightarrow> bool" where
  "bloomTest20 B bf key = (case bf of None \<Rightarrow> False | Some f \<Rightarrow> bloom_Test B f (array_bytes key))"

definition hash160BloomMaybe :: "'bf bloom_lib \<Rightarrow> 'bf Sets \<Rightarrow> LookupKeys \<Rightarrow> FormatMask \<Rightarrow> bool" where
  "hash160BloomMaybe B s keys fm =
     (if LegacyCompressed fm \<and> bloomTest20 B (LegacyBloom s) (CompressedHash keys) then True
      else if Segwit fm \<and> bloomTest20 B (SegwitV0Bloom s) (CompressedHash keys) then True
      else if LegacyUncompressed fm \<and> bloomTest20 B (LegacyBloom s) (UncompressedHash keys) then True
      else if P2SH fm \<and> bloomTest20 B (P2SHBloom s) (P2SHHash keys) then True
      else False)"

definition shouldDeriveTaproot :: "'bf bloom_lib \<Rightarrow> 'bf Sets \<Rightarrow> LookupKeys \<Rightarrow> FormatMask \<Rightarrow> bool" where
  "shouldDeriveTaproot B s keys fm =
     (if \<not> Taproot fm \<or> length (sTaprootV1 s) = 0 then False
      else if \<not> LegacyCompressed fm \<and> \<not> LegacyUncompressed fm \<and> \<not> Segwit fm \<and> \<not> P2SH fm then True
      else hash160BloomMaybe B s keys fm)"

definition staged_hashes ::
  "('priv, 'pub) crypto_lib \<Rightarrow> 'pub \<Rightarrow> 'bf Sets \<Rightarrow> FormatMask \<Rightarrow> LookupKeys" where
  "staged_hashes C pubKey s fm =
     (let keys = zero_keys;
          keys = (if NeedsCompressedPubkeyHash fm
            then keys\<lparr>CompressedHash := Hash160 C (c_SerializeCompressed C pubKey)\<rparr> else keys);
          keys = (if P2SH fm \<and> NeedsCompressedPubkeyHash fm \<and> length (sP2SH s) > 0
            then keys\<lparr>P2SHHash := Hash160 C (redeemScript (CompressedHash keys))\<rparr> else keys);
          keys = (if LegacyUncompressed fm \<and> length (sLegacy s) > 0
            then keys\<lparr>UncompressedHash := Hash160 C (c_SerializeUncompressed C pubKey)\<rparr> else keys)
      in keys)"

definition deriveKeysStaged ::
  "('priv, 'pub) crypto_lib \<Rightarrow> 'bf bloom_lib \<Rightarrow> 'pub \<Rightarrow> 'bf Sets \<Rightarrow> FormatMask \<Rightarrow> LookupKeys" where
  "deriveKeysStaged C B pubKey s fm =
     (let keys = staged_hashes C pubKey s fm in
      if shouldDeriveTaproot B s keys fm
      then keys\<lparr>TaprootKey := copy_array (c_SerializePubKey C (c_ComputeTaprootKeyNoScript C pubKey))\<rparr>
      else keys)"

definition genWalletStaged ::
  "('priv, 'pub) crypto_lib \<Rightarrow> 'bf bloom_lib \<Rightarrow> 'priv option \<Rightarrow> 'bf Sets \<Rightarrow> FormatMask \<Rightarrow> Wallet option" where
  "genWalletStaged C B drawn s fm =
     (case drawn of None \<Rightarrow> None
      | Some privKey \<Rightarrow> Some \<lparr>PrivKey = c_Serialize C privKey,
          Keys = deriveKeysStaged C B (c_PubKey C privKey) s fm\<rparr>)"

section \<open>Leaving keys out loses nothing\<close>

text \<open>The keys of each derivation, field by field.\<close>

lemma masked_keys:
  "CompressedHash (DeriveLookupKeysMasked C k fm) = (if NeedsCompressedPubkeyHash fm
     then Hash160 C (c_SerializeCompressed C (c_PubKey C k)) else zero_array)"
  "UncompressedHash (DeriveLookupKeysMasked C k fm) = (if LegacyUncompressed fm
     then Hash160 C (c_SerializeUncompressed C (c_PubKey C k)) else zero_array)"
  "P2SHHash (DeriveLookupKeysMasked C k fm) = (if P2SH fm
     then Hash160 C (redeemScript (Hash160 C (c_SerializeCompressed C (c_PubKey C k)))) else zero_array)"
  "TaprootKey (DeriveLookupKeysMasked C k fm) = (if Taproot fm
     then copy_array (c_SerializePubKey C (c_ComputeTaprootKeyNoScript C (c_PubKey C k))) else zero_array)"
  by (simp_all add: DeriveLookupKeysMasked_def Let_def zero_keys_def NeedsCompressedPubkeyHash_def)

lemma full_keys:
  "CompressedHash (DeriveLookupKeys C k) = Hash160 C (c_SerializeCompressed C (c_PubKey C k))"
  "UncompressedHash (DeriveLookupKeys C k) = Hash160 C (c_SerializeUncompressed C (c_PubKey C k))"
  "P2SHHash (DeriveLookupKeys C k) =
     Hash160 C (redeemScript (Hash160 C (c_SerializeCompressed C (c_PubKey C k))))"
  "TaprootKey (DeriveLookupKeys C k) =
     copy_array (c_SerializePubKey C (c_ComputeTaprootKeyNoScript C (c_PubKey C k)))"
  by (simp_all add: DeriveLookupKeys_def masked_keys AllFormats_def NeedsCompressedPubkeyHash_def)

lemma staged_keys:
  "CompressedHash (staged_hashes C pk s fm) = (if NeedsCompressedPubkeyHash fm
     then Hash160 C (c_SerializeCompressed C pk) else zero_array)"
  "UncompressedHash (staged_hashes C pk s fm) = (if LegacyUncompressed fm \<and> sLegacy s \<noteq> []
     then Hash160 C (c_SerializeUncompressed C pk) else zero_array)"
  "P2SHHash (staged_hashes C pk s fm) = (if P2SH fm \<and> sP2SH s \<noteq> []
     then Hash160 C (redeemScript (Hash160 C (c_SerializeCompressed C pk))) else zero_array)"
  "TaprootKey (staged_hashes C pk s fm) = zero_array"
  by (simp_all add: staged_hashes_def Let_def zero_keys_def NeedsCompressedPubkeyHash_def)

text \<open>Two sets of keys a mask and an index cannot tell apart: they agree on the key of every
  selected format whose table has entries.\<close>

definition same_lookups :: "'bf Sets \<Rightarrow> FormatMask \<Rightarrow> LookupKeys \<Rightarrow> LookupKeys \<Rightarrow> bool" where
  "same_lookups s fm a b \<longleftrightarrow>
     (LegacyCompressed fm \<and> sLegacy s \<noteq> [] \<longrightarrow> CompressedHash a = CompressedHash b) \<and>
     (LegacyUncompressed fm \<and> sLegacy s \<noteq> [] \<longrightarrow> UncompressedHash a = UncompressedHash b) \<and>
     (Segwit fm \<and> sSegwitV0 s \<noteq> [] \<longrightarrow> CompressedHash a = CompressedHash b) \<and>
     (P2SH fm \<and> sP2SH s \<noteq> [] \<longrightarrow> P2SHHash a = P2SHHash b) \<and>
     (Taproot fm \<and> sTaprootV1 s \<noteq> [] \<longrightarrow> TaprootKey a = TaprootKey b)"

lemma maybeFunded_empty [simp]: "\<not> maybeFunded20 B bf [] k" "\<not> maybeFunded32 B bf' [] k'"
  by (simp_all add: maybe20.lookup_eq maybe32.lookup_eq InFunded_lower_bound)

lemma Match_same_lookups:
  assumes "same_lookups s fm a b"
  shows "Match B s a fm = Match B s b fm"
proof -
  have "LegacyCompressed fm \<Longrightarrow> maybeFunded20 B (LegacyBloom s) (sLegacy s) (CompressedHash a) =
      maybeFunded20 B (LegacyBloom s) (sLegacy s) (CompressedHash b)"
    "LegacyUncompressed fm \<Longrightarrow> maybeFunded20 B (LegacyBloom s) (sLegacy s) (UncompressedHash a) =
      maybeFunded20 B (LegacyBloom s) (sLegacy s) (UncompressedHash b)"
    "Segwit fm \<Longrightarrow> maybeFunded20 B (SegwitV0Bloom s) (sSegwitV0 s) (CompressedHash a) =
      maybeFunded20 B (SegwitV0Bloom s) (sSegwitV0 s) (CompressedHash b)"
    "P2SH fm \<Longrightarrow> maybeFunded20 B (P2SHBloom s) (sP2SH s) (P2SHHash a) =
      maybeFunded20 B (P2SHBloom s) (sP2SH s) (P2SHHash b)"
    "Taproot fm \<Longrightarrow> maybeFunded32 B (TaprootV1Bloom s) (sTaprootV1 s) (TaprootKey a) =
      maybeFunded32 B (TaprootV1Bloom s) (sTaprootV1 s) (TaprootKey b)"
    using assms unfolding same_lookups_def by (metis maybeFunded_empty)+
  then show ?thesis unfolding Match_def by (simp cong: conj_cong)
qed

lemma masked_agree:
  "same_lookups s fm (DeriveLookupKeysMasked C k fm) (DeriveLookupKeys C k)"
  by (simp add: same_lookups_def masked_keys full_keys NeedsCompressedPubkeyHash_def)

text \<open>Deriving only what the mask needs loses no match and changes none: against any index, the
  masked keys match exactly as the keys of all formats do.\<close>

theorem masked_derivation_complete:
  "Match B s (DeriveLookupKeysMasked C privKey fm) fm = Match B s (DeriveLookupKeys C privKey) fm"
  by (rule Match_same_lookups [OF masked_agree])

lemma staged_agree:
  assumes "Taproot fm \<Longrightarrow> sTaprootV1 s \<noteq> [] \<Longrightarrow>
    shouldDeriveTaproot B s (staged_hashes C (c_PubKey C k) s fm) fm"
  shows "same_lookups s fm (deriveKeysStaged C B (c_PubKey C k) s fm) (DeriveLookupKeys C k)"
  using assms
  by (simp add: same_lookups_def full_keys deriveKeysStaged_def staged_keys Let_def
      NeedsCompressedPubkeyHash_def)

text \<open>C23. The staged derivation of the hot loop matches exactly as the full derivation does when
  Taproot is off, when it is the only format, when the index has no Taproot keys, and when one of
  the other hashes passes its Bloom filter.\<close>

theorem staged_derivation_complete:
  assumes "\<not> Taproot fm \<or> sTaprootV1 s = [] \<or> fm = NoFormatMask\<lparr>Taproot := True\<rparr> \<or>
    hash160BloomMaybe B s (staged_hashes C (c_PubKey C privKey) s fm) fm"
  shows "Match B s (deriveKeysStaged C B (c_PubKey C privKey) s fm) fm =
    Match B s (DeriveLookupKeys C privKey) fm"
  by (rule Match_same_lookups, rule staged_agree)
    (use assms in \<open>auto simp: shouldDeriveTaproot_def NoFormatMask_def\<close>)

text \<open>What happens otherwise: the Taproot key stays zero, so a Taproot match is lost.\<close>

definition taproot_skipped ::
  "('priv, 'pub) crypto_lib \<Rightarrow> 'bf bloom_lib \<Rightarrow> 'priv \<Rightarrow> 'bf Sets \<Rightarrow> FormatMask \<Rightarrow> bool" where
  "taproot_skipped C B privKey s fm \<longleftrightarrow> Taproot fm \<and> Any (fm\<lparr>Taproot := False\<rparr>) \<and>
     \<not> hash160BloomMaybe B s (staged_hashes C (c_PubKey C privKey) s fm) fm"

lemma hash160BloomMaybe_iff:
  "hash160BloomMaybe B s keys fm \<longleftrightarrow>
     LegacyCompressed fm \<and> bloomTest20 B (LegacyBloom s) (CompressedHash keys) \<or>
     Segwit fm \<and> bloomTest20 B (SegwitV0Bloom s) (CompressedHash keys) \<or>
     LegacyUncompressed fm \<and> bloomTest20 B (LegacyBloom s) (UncompressedHash keys) \<or>
     P2SH fm \<and> bloomTest20 B (P2SHBloom s) (P2SHHash keys)"
  by (simp add: hash160BloomMaybe_def)

lemma bloomTest_covers:
  "covers B bf xs \<Longrightarrow> bloomReady bf (length xs) \<Longrightarrow> k \<in> set xs \<Longrightarrow> bloomTest20 B bf k"
  by (auto simp: bloomTest20_def covers_def list_all_iff bloomReady_def split: option.splits)

text \<open>C24. With Taproot selected beside another format, the Taproot key of a wallet is derived only if
  one of its other hashes passes a Bloom filter. Otherwise the search reports no match for the
  wallet, also when its Taproot key is funded.\<close>

theorem staged_taproot_gap:
  assumes "index_ok B s" "bloomsComplete s" "zero_array \<notin> set (sTaprootV1 s)"
    and "taproot_skipped C B privKey s fm"
  shows "Match B s (deriveKeysStaged C B (c_PubKey C privKey) s fm) fm = (MatchLegacyCompressed, False) \<and>
    (snd (Match B s (DeriveLookupKeys C privKey) fm) \<longleftrightarrow>
      TaprootKey (DeriveLookupKeys C privKey) \<in> set (sTaprootV1 s))"
proof -
  let ?h = "staged_hashes C (c_PubKey C privKey) s fm"
  let ?full = "DeriveLookupKeys C privKey"
  have no: "\<not> hash160BloomMaybe B s ?h fm" and tap: "Taproot fm"
    using assms(4) by (simp_all add: taproot_skipped_def)
  have eq: "deriveKeysStaged C B (c_PubKey C privKey) s fm = ?h"
    using assms(4) by (auto simp: deriveKeysStaged_def Let_def shouldDeriveTaproot_def taproot_skipped_def Any_def)
  have zero: "TaprootKey ?h = zero_array" by (rule staged_keys)
  have cov: "covers B (LegacyBloom s) (sLegacy s)" "covers B (SegwitV0Bloom s) (sSegwitV0 s)"
    "covers B (P2SHBloom s) (sP2SH s)"
    and rdy: "bloomReady (LegacyBloom s) (length (sLegacy s))"
    "bloomReady (SegwitV0Bloom s) (length (sSegwitV0 s))" "bloomReady (P2SHBloom s) (length (sP2SH s))"
    using assms(1,2) by (simp_all add: index_ok_def blooms_cover_def bloomsComplete_def)
  have abs: "\<not> (format_enabled fm k \<and> key_funded s ?h k)" for k
    using no tap assms(3) zero bloomTest_covers [OF cov(1) rdy(1)] bloomTest_covers [OF cov(2) rdy(2)]
      bloomTest_covers [OF cov(3) rdy(3)]
    by (cases k) (auto simp: hash160BloomMaybe_iff)
  have other: "\<not> (format_enabled fm k \<and> key_funded s ?full k)" if "k \<noteq> MatchTaproot" for k
    using abs [of k] that
    by (cases k) (auto simp: staged_keys full_keys NeedsCompressedPubkeyHash_def split: if_splits)
  have "match_spec s ?h fm = None" using abs unfolding match_spec_None by blast
  moreover have "match_spec s ?full fm = None \<longleftrightarrow> \<not> key_funded s ?full MatchTaproot"
    unfolding match_spec_None using other tap by (metis format_enabled.simps(5))
  ultimately show ?thesis
    by (auto simp: Match_spec [OF assms(1)] eq match_result_def split: option.split)
qed

section \<open>Witnesses\<close>

text \<open>A toy curve: a key is one byte and every serialisation is that byte.\<close>

definition sample_crypto :: "(u8, u8) crypto_lib" where
  "sample_crypto = \<lparr>c_PubKey = (\<lambda>k. k), c_Serialize = (\<lambda>k. [k]), c_SerializeCompressed = (\<lambda>p. [p]),
     c_SerializeUncompressed = (\<lambda>p. [p]), c_ComputeTaprootKeyNoScript = (\<lambda>p. p),
     c_SerializePubKey = (\<lambda>p. [p]), c_Sum256 = (\<lambda>d. d), c_ripemd160 = (\<lambda>d. d)\<rparr>"

lemma sample_complete: "bloomsComplete sample_sets"
  using BuildBlooms_ok [OF sample_bloom_lossless, of "zero_Sets\<lparr>
     sLegacy := [copy_array [1, 2, 3], copy_array [9, 9, 9]], LegacyBalance := [50000, 999999],
     sTaprootV1 := [copy_array [7]], TaprootV1Balance := [30000]\<rparr>"] sample_tables_ok
  by (simp add: sample_sets_def BuildBlooms_def bloomsComplete_def BuildBloom_ready)

lemma sample_skipped: "taproot_skipped sample_crypto sample_bloom 7 sample_sets AllFormats"
  by code_simp

lemma sample_taproot:
  "zero_array \<notin> set (sTaprootV1 sample_sets)"
  "TaprootKey (DeriveLookupKeys sample_crypto 7) \<in> set (sTaprootV1 sample_sets)"
  by code_simp+

theorem staged_taproot_gap_witness:
  "\<not> snd (Match sample_bloom sample_sets
      (deriveKeysStaged sample_crypto sample_bloom (c_PubKey sample_crypto 7) sample_sets AllFormats) AllFormats) \<and>
    snd (Match sample_bloom sample_sets (DeriveLookupKeys sample_crypto 7) AllFormats)"
  using staged_taproot_gap [OF sample_index_ok sample_complete sample_taproot(1) sample_skipped]
    sample_taproot(2) by simp

theorem staged_derivation_complete_witness:
  "Match sample_bloom sample_sets (deriveKeysStaged sample_crypto sample_bloom
      (c_PubKey sample_crypto 7) sample_sets (NoFormatMask\<lparr>Taproot := True\<rparr>)) (NoFormatMask\<lparr>Taproot := True\<rparr>) =
    Match sample_bloom sample_sets (DeriveLookupKeys sample_crypto 7) (NoFormatMask\<lparr>Taproot := True\<rparr>)"
  by (rule staged_derivation_complete) simp

end
