(* ===== verification/Process.thy ===== *)
theory Process
  imports Derive HitSound
begin

text \<open>
  search/config.go, hooks.go and process.go: one wallet against the index. A hook is a function on
  the caller's state \<open>'h\<close>; the hit hook may return an error. A missing hook is \<open>None\<close>.
\<close>

record Config =
  cfg_Threads :: int
  cfg_Formats :: FormatMask
  cfg_NumKeys :: int
  cfg_SessionBase :: u64
  cfg_Forever :: bool
  cfg_MaxKeys :: u64
  cfg_CheckpointInterval :: int
  cfg_SimulateHit :: bool
  cfg_SimulateHitAt :: i64
  cfg_VerifyLookup :: bool
  cfg_InjectIndexHit :: string
  cfg_ResetSession :: bool

record HitEvent =
  ev_Wallet :: Wallet
  ev_Kind :: MatchKind
  ev_KeyIndex :: i64
  ev_BalanceSats :: u64
  ev_Simulated :: bool

record LookupVerifyEvent =
  lv_LegacyCompressed :: bool
  lv_LegacyUncompressed :: bool
  lv_SegwitV0 :: bool
  lv_P2SH :: bool
  lv_Taproot :: bool
  lv_RealMatch :: bool
  lv_Kind :: MatchKind
  lv_KindName :: string

datatype search_error = BucketEmpty string | UnknownBucket string | HookError string | ContextDone
  | SessionReset

record ('f, 'h) Hooks =
  OnProgress :: "(int \<Rightarrow> int \<Rightarrow> int \<Rightarrow> 'h \<Rightarrow> 'h) option"
  OnForeverProgress :: "(u64 \<Rightarrow> int \<Rightarrow> u64 \<Rightarrow> 'h \<Rightarrow> 'h) option"
  OnSummary :: "(int \<Rightarrow> int \<Rightarrow> 'f \<Rightarrow> 'h \<Rightarrow> 'h) option"
  OnHit :: "(HitEvent \<Rightarrow> 'h \<Rightarrow> search_error option \<times> 'h) option"
  OnInjectLog :: "(string \<Rightarrow> string \<Rightarrow> 'h \<Rightarrow> 'h) option"
  OnLookupVerify :: "(LookupVerifyEvent \<Rightarrow> 'h \<Rightarrow> 'h) option"

section \<open>Injection and verification\<close>

text \<open>The keys with the first entry of a bucket in place of the wallet's own hash, and the address of
  that entry.\<close>

definition applyInjectIndexHit ::
  "addr_lib \<Rightarrow> 'bf Sets \<Rightarrow> LookupKeys \<Rightarrow> string \<Rightarrow> search_error + (LookupKeys \<times> string)" where
  "applyInjectIndexHit L s keys bucket =
     (if bucket = ''legacy'' then
        (if length (sLegacy s) = 0 then Inl (BucketEmpty ''legacy'')
         else Inr (keys\<lparr>CompressedHash := sLegacy s ! 0\<rparr>, EncodePubKeyHash L (sLegacy s ! 0)))
      else if bucket = ''legacy-uncompressed'' then
        (if length (sLegacy s) = 0 then Inl (BucketEmpty ''legacy'')
         else Inr (keys\<lparr>UncompressedHash := sLegacy s ! 0\<rparr>, EncodePubKeyHash L (sLegacy s ! 0)))
      else if bucket = ''p2sh'' then
        (if length (sP2SH s) = 0 then Inl (BucketEmpty ''p2sh'')
         else Inr (keys\<lparr>P2SHHash := sP2SH s ! 0\<rparr>, EncodeScriptHash L (sP2SH s ! 0)))
      else if bucket = ''segwit'' then
        (if length (sSegwitV0 s) = 0 then Inl (BucketEmpty ''segwit'')
         else Inr (keys\<lparr>CompressedHash := sSegwitV0 s ! 0\<rparr>, EncodeWitnessPubKeyHash L (sSegwitV0 s ! 0)))
      else if bucket = ''taproot'' then
        (if length (sTaprootV1 s) = 0 then Inl (BucketEmpty ''taproot'')
         else Inr (keys\<lparr>TaprootKey := sTaprootV1 s ! 0\<rparr>, EncodeTaprootKey L (sTaprootV1 s ! 0)))
      else Inl (UnknownBucket bucket))"

definition lookup_verify_event ::
  "'bf bloom_lib \<Rightarrow> 'bf Sets \<Rightarrow> LookupKeys \<Rightarrow> MatchKind \<Rightarrow> bool \<Rightarrow> LookupVerifyEvent" where
  "lookup_verify_event B s keys realKind realHit =
     \<lparr>lv_LegacyCompressed = LookupHit20 B (LegacyBloom s) (sLegacy s) (CompressedHash keys),
      lv_LegacyUncompressed = LookupHit20 B (LegacyBloom s) (sLegacy s) (UncompressedHash keys),
      lv_SegwitV0 = LookupHit20 B (SegwitV0Bloom s) (sSegwitV0 s) (CompressedHash keys),
      lv_P2SH = LookupHit20 B (P2SHBloom s) (sP2SH s) (P2SHHash keys),
      lv_Taproot = LookupHit32 B (TaprootV1Bloom s) (sTaprootV1 s) (TaprootKey keys),
      lv_RealMatch = realHit,
      lv_Kind = (if realHit then realKind else MatchLegacyCompressed),
      lv_KindName = (if realHit then MatchKindName realKind else '''')\<rparr>"

definition emitLookupVerify ::
  "'bf bloom_lib \<Rightarrow> ('f, 'h) Hooks \<Rightarrow> 'bf Sets \<Rightarrow> LookupKeys \<Rightarrow> MatchKind \<Rightarrow> bool \<Rightarrow> 'h \<Rightarrow> 'h" where
  "emitLookupVerify B hooks s keys realKind realHit h =
     (case OnLookupVerify hooks of None \<Rightarrow> h
      | Some f \<Rightarrow> f (lookup_verify_event B s keys realKind realHit) h)"

definition simulateDisplayKind :: "LookupKeys \<Rightarrow> MatchKind \<Rightarrow> bool \<Rightarrow> MatchKind" where
  "simulateDisplayKind keys matchedKind matched =
     (if matched then matchedKind else MatchLegacyCompressed)"

section \<open>One wallet\<close>

definition call_hit :: "('f, 'h) Hooks \<Rightarrow> HitEvent \<Rightarrow> 'h \<Rightarrow> search_error option \<times> 'h" where
  "call_hit hooks ev h = (case OnHit hooks of None \<Rightarrow> (None, h) | Some f \<Rightarrow> f ev h)"

text \<open>The keys the wallet is matched with, after the injection step.\<close>

definition injected_keys ::
  "addr_lib \<Rightarrow> Config \<Rightarrow> 'bf Sets \<Rightarrow> Wallet \<Rightarrow> i64 \<Rightarrow> ('f, 'h) Hooks \<Rightarrow> 'h \<Rightarrow> (search_error + LookupKeys) \<times> 'h" where
  "injected_keys L cfg s wallet keyIndex hooks h =
     (if cfg_InjectIndexHit cfg \<noteq> '''' \<and> keyIndex = cfg_SimulateHitAt cfg then
        (case applyInjectIndexHit L s (Keys wallet) (cfg_InjectIndexHit cfg) of
           Inl err \<Rightarrow> (Inl err, h)
         | Inr (keys, fundedAddr) \<Rightarrow>
             (Inr keys, case OnInjectLog hooks of None \<Rightarrow> h
                | Some f \<Rightarrow> f (cfg_InjectIndexHit cfg) fundedAddr h))
      else (Inr (Keys wallet), h))"

definition ProcessWallet ::
  "addr_lib \<Rightarrow> 'bf bloom_lib \<Rightarrow> Config \<Rightarrow> 'bf Sets \<Rightarrow> Wallet \<Rightarrow> i64 \<Rightarrow> ('f, 'h) Hooks \<Rightarrow> 'h \<Rightarrow>
     (bool \<times> search_error option) \<times> 'h" where
  "ProcessWallet L B cfg s wallet keyIndex hooks h =
     (case injected_keys L cfg s wallet keyIndex hooks h of
        (Inl err, h) \<Rightarrow> ((False, Some err), h)
      | (Inr keys, h) \<Rightarrow>
          (case Match B s keys (cfg_Formats cfg) of (kind, ok) \<Rightarrow>
             (case (if ok then call_hit hooks
                      \<lparr>ev_Wallet = wallet\<lparr>Keys := keys\<rparr>, ev_Kind = kind, ev_KeyIndex = keyIndex,
                       ev_BalanceSats = BalanceForMatch s kind keys, ev_Simulated = False\<rparr> h
                    else (None, h)) of
                (Some err, h) \<Rightarrow> ((True, Some err), h)
              | (None, h) \<Rightarrow>
                  let h = (if cfg_VerifyLookup cfg \<and> keyIndex = cfg_SimulateHitAt cfg
                    then emitLookupVerify B hooks s keys kind ok h else h) in
                  if cfg_SimulateHit cfg \<and> keyIndex = cfg_SimulateHitAt cfg \<and> \<not> ok then
                    (case call_hit hooks
                        \<lparr>ev_Wallet = wallet\<lparr>Keys := keys\<rparr>, ev_Kind = simulateDisplayKind keys kind ok,
                         ev_KeyIndex = keyIndex, ev_BalanceSats = 0, ev_Simulated = True\<rparr> h of
                       (Some err, h) \<Rightarrow> ((False, Some err), h)
                     | (None, h) \<Rightarrow> ((ok, None), h))
                  else ((ok, None), h))))"

section \<open>What a wallet reports\<close>

text \<open>The keys after injection, without the hooks.\<close>

definition effective_keys :: "addr_lib \<Rightarrow> Config \<Rightarrow> 'bf Sets \<Rightarrow> Wallet \<Rightarrow> i64 \<Rightarrow> search_error + LookupKeys" where
  "effective_keys L cfg s wallet i =
     (if cfg_InjectIndexHit cfg \<noteq> '''' \<and> i = cfg_SimulateHitAt cfg
      then map_sum id fst (applyInjectIndexHit L s (Keys wallet) (cfg_InjectIndexHit cfg))
      else Inr (Keys wallet))"

lemma fst_injected_keys: "fst (injected_keys L cfg s w i hooks h) = effective_keys L cfg s w i"
  by (simp add: injected_keys_def effective_keys_def split: sum.split)

text \<open>The events a wallet has to report: one for a match, else a simulated one at the chosen index.\<close>

definition expected_hits ::
  "addr_lib \<Rightarrow> 'bf bloom_lib \<Rightarrow> Config \<Rightarrow> 'bf Sets \<Rightarrow> Wallet \<Rightarrow> i64 \<Rightarrow> HitEvent list" where
  "expected_hits L B cfg s w i =
     (case effective_keys L cfg s w i of Inl e \<Rightarrow> []
      | Inr keys \<Rightarrow>
          (case Match B s keys (cfg_Formats cfg) of
             (kind, True) \<Rightarrow> [\<lparr>ev_Wallet = w\<lparr>Keys := keys\<rparr>, ev_Kind = kind, ev_KeyIndex = i,
               ev_BalanceSats = BalanceForMatch s kind keys, ev_Simulated = False\<rparr>]
           | (kind, False) \<Rightarrow>
               if cfg_SimulateHit cfg \<and> i = cfg_SimulateHitAt cfg
               then [\<lparr>ev_Wallet = w\<lparr>Keys := keys\<rparr>, ev_Kind = MatchLegacyCompressed, ev_KeyIndex = i,
                 ev_BalanceSats = 0, ev_Simulated = True\<rparr>]
               else []))"

text \<open>Hooks that record the hits, as the state, and accept them.\<close>

definition recorder :: "('f, HitEvent list) Hooks" where
  "recorder = \<lparr>OnProgress = None, OnForeverProgress = None, OnSummary = None,
     OnHit = Some (\<lambda>ev h. (None, h @ [ev])), OnInjectLog = None, OnLookupVerify = None\<rparr>"

lemma recorder_simps [simp]:
  "call_hit recorder ev h = (None, h @ [ev])"
  "emitLookupVerify B recorder s keys k b h = h"
  "OnInjectLog recorder = None" "OnForeverProgress recorder = None" "OnProgress recorder = None"
  "OnSummary recorder = None"
  by (simp_all add: call_hit_def recorder_def emitLookupVerify_def)

lemma injected_recorder:
  "injected_keys L cfg s w i recorder h = (effective_keys L cfg s w i, h)"
  by (simp add: injected_keys_def effective_keys_def split: sum.split)

lemma Process_recorder:
  "ProcessWallet L B cfg s w i recorder h =
    (case effective_keys L cfg s w i of
       Inl e \<Rightarrow> ((False, Some e), h)
     | Inr keys \<Rightarrow> ((snd (Match B s keys (cfg_Formats cfg)), None), h @ expected_hits L B cfg s w i))"
  by (simp add: ProcessWallet_def injected_recorder expected_hits_def simulateDisplayKind_def Let_def
      split: sum.split prod.split bool.split)

text \<open>A wallet reports at most one hit. It is a real one, with the balance of the matched key,
  exactly when the (possibly injected) keys match the index; otherwise it is a simulated one, with
  balance zero, and only at the simulation index; the result says whether a real one was found.\<close>

theorem ProcessWallet_reports:
  "ProcessWallet L B cfg s w i recorder h =
    (case effective_keys L cfg s w i of
       Inl e \<Rightarrow> ((False, Some e), h)
     | Inr keys \<Rightarrow> ((snd (Match B s keys (cfg_Formats cfg)), None), h @ expected_hits L B cfg s w i)) \<and>
   length (expected_hits L B cfg s w i) \<le> 1"
  by (rule conjI [OF Process_recorder])
    (simp add: expected_hits_def split: sum.split prod.split bool.split)

text \<open>The kind whose lookup an injection into a bucket makes succeed.\<close>

definition bucket_kind :: "string \<Rightarrow> MatchKind" where
  "bucket_kind bucket =
     (if bucket = ''legacy'' then MatchLegacyCompressed
      else if bucket = ''legacy-uncompressed'' then MatchLegacyUncompressed
      else if bucket = ''segwit'' then MatchSegwitV0
      else if bucket = ''p2sh'' then MatchP2SH
      else if bucket = ''taproot'' then MatchTaproot else MatchKindOther)"

lemma inject_funded:
  assumes "applyInjectIndexHit L s keys bucket = Inr (keys', addr)" "address_laws L"
  shows "key_funded s keys' (bucket_kind bucket) \<and>
    DecodeFundedAddressForLoad L addr = Inr (hit_payload (bucket_kind bucket) keys')"
  using assms(1) address_decodes [OF assms(2)]
  by (auto simp: applyInjectIndexHit_def bucket_kind_def split: if_splits)

lemma bucket_enabled:
  "InjectBucketAllowed fm bucket \<Longrightarrow> format_enabled fm (bucket_kind bucket)"
  by (auto simp: InjectBucketAllowed_def bucket_kind_def split: if_splits)

text \<open>The injection test exercises the whole path: with a well-formed index, a bucket the mask
  allows and that is not empty, the wallet at the chosen index is reported as a real hit, and the
  address announced for it decodes to the key that was injected.\<close>

theorem injected_wallet_hits:
  assumes "index_ok B s" "address_laws L" "InjectBucketAllowed (cfg_Formats cfg) (cfg_InjectIndexHit cfg)"
    and "applyInjectIndexHit L s (Keys w) (cfg_InjectIndexHit cfg) = Inr (keys, addr)"
    and "cfg_InjectIndexHit cfg \<noteq> ''''" "i = cfg_SimulateHitAt cfg"
  shows "fst (ProcessWallet L B cfg s w i recorder h) = (True, None) \<and>
    DecodeFundedAddressForLoad L addr = Inr (hit_payload (bucket_kind (cfg_InjectIndexHit cfg)) keys)"
proof -
  have e: "effective_keys L cfg s w i = Inr keys" using assms(4-6) by (simp add: effective_keys_def)
  have "match_spec s keys (cfg_Formats cfg) \<noteq> None"
    using inject_funded [OF assms(4,2)] bucket_enabled [OF assms(3)] unfolding match_spec_None by blast
  then have "snd (Match B s keys (cfg_Formats cfg))"
    by (auto simp: Match_spec [OF assms(1)] match_result_def)
  then show ?thesis using inject_funded [OF assms(4,2)] by (simp add: Process_recorder e)
qed

section \<open>Witnesses\<close>

definition sample_cfg :: Config where
  "sample_cfg = \<lparr>cfg_Threads = 1, cfg_Formats = AllFormats, cfg_NumKeys = 3, cfg_SessionBase = 0,
     cfg_Forever = False, cfg_MaxKeys = 0, cfg_CheckpointInterval = 0, cfg_SimulateHit = False,
     cfg_SimulateHitAt = 2, cfg_VerifyLookup = False, cfg_InjectIndexHit = ''taproot'',
     cfg_ResetSession = False\<rparr>"

definition sample_wallet :: Wallet where "sample_wallet = \<lparr>PrivKey = [1], Keys = zero_keys\<rparr>"

theorem injected_wallet_hits_witness:
  "fst (ProcessWallet sample_lib sample_bloom sample_cfg sample_sets sample_wallet 2 recorder []) =
    (True, None)"
proof -
  have cfg: "cfg_InjectIndexHit sample_cfg = ''taproot''" "cfg_SimulateHitAt sample_cfg = 2"
    "cfg_Formats sample_cfg = AllFormats"
    by (simp_all add: sample_cfg_def)
  have "sTaprootV1 sample_sets = [copy_array [7]]"
    by (simp add: sample_sets_def BuildBlooms_def zero_Sets_def)
  then obtain keys addr where inj:
    "applyInjectIndexHit sample_lib sample_sets (Keys sample_wallet) (cfg_InjectIndexHit sample_cfg) =
      Inr (keys, addr)"
    by (simp add: applyInjectIndexHit_def cfg)
  have "InjectBucketAllowed (cfg_Formats sample_cfg) (cfg_InjectIndexHit sample_cfg)"
    by (simp add: cfg InjectBucketAllowed_def AllFormats_def)
  then show ?thesis
    by (rule injected_wallet_hits [OF sample_index_ok sample_lib_laws _ inj, THEN conjunct1])
      (simp_all add: cfg)
qed

end
