(* ===== verification/Text.thy ===== *)
theory Text
  imports GoStd
begin

text \<open>
  The text the programs print: UTF-8, as in the code, byte by byte where it is not ASCII.
\<close>

definition walletsLogFile :: string where "walletsLogFile = ''wallets.txt''"

definition newline :: string where "newline = [CHR 0x0A]"

definition strings_Repeat :: "string \<Rightarrow> nat \<Rightarrow> string" where
  "strings_Repeat s n = concat (replicate n s)"

text \<open>The characters outside ASCII, byte by byte.\<close>

definition utf8 :: "nat list \<Rightarrow> string" where "utf8 bs = map char_of bs"

definition block_full :: string where "block_full = utf8 [0xE2, 0x96, 0x88]"
definition block_light :: string where "block_light = utf8 [0xE2, 0x96, 0x91]"
definition rule_light :: string where "rule_light = utf8 [0xE2, 0x94, 0x80]"
definition rule_double :: string where "rule_double = utf8 [0xE2, 0x95, 0x90]"
definition bar_double :: string where "bar_double = utf8 [0xE2, 0x95, 0x91]"
definition pointer :: string where "pointer = utf8 [0xE2, 0x96, 0xB8]"
definition em_dash :: string where "em_dash = utf8 [0xE2, 0x80, 0x94]"
definition ellipsis :: string where "ellipsis = utf8 [0xE2, 0x80, 0xA6]"
definition arrow :: string where "arrow = utf8 [0xE2, 0x86, 0x92]"
definition bullet :: string where "bullet = utf8 [0xE2, 0x80, 0xA2]"

definition escape :: string where "escape = [CHR 0x1B]"
definition carriage :: string where "carriage = [CHR 0x0D]"

text \<open>The frame; \<open>rule_double\<close> is drawn 62 times, a row is 60 characters between its bars.\<close>

definition frame :: "nat list \<Rightarrow> nat list \<Rightarrow> string" where
  "frame l r = utf8 l @ strings_Repeat rule_double 62 @ utf8 r"

section \<open>Sizes\<close>

text \<open>The loop with which a size finds its unit: the divisor, and the index of the unit's letter.\<close>

function formatBytes_loop :: "int \<Rightarrow> int \<Rightarrow> nat \<Rightarrow> int \<times> nat" where
  "formatBytes_loop v unit level = (if v \<ge> 1024 then formatBytes_loop (v div 1024) (unit * 1024) (level + 1) else (unit, level))"
  by pat_completeness auto
termination by (relation "measure (\<lambda>(v, unit, level). nat v)") auto

declare formatBytes_loop.simps [simp del]

lemma formatBytes_loop_eq:
  assumes "v \<ge> 1"
  shows "\<exists>k. formatBytes_loop v unit level = (unit * 1024 ^ k, level + k) \<and> 1024 ^ k \<le> v \<and> v < 1024 ^ Suc k"
  using assms
proof (induction v unit level rule: formatBytes_loop.induct)
  case (1 v unit level)
  show ?case
  proof (cases "v \<ge> 1024")
    case True
    then obtain k where "formatBytes_loop (v div 1024) (unit * 1024) (level + 1) = (unit * 1024 * 1024 ^ k, level + 1 + k)"
        "1024 ^ k \<le> v div 1024" "v div 1024 < 1024 ^ Suc k"
      using 1 by force
    moreover from this(2,3) have "1024 ^ Suc k \<le> v" "v < 1024 ^ Suc (Suc k)" by simp_all
    ultimately show ?thesis using True by (intro exI [of _ "Suc k"]) (simp add: formatBytes_loop.simps [of v unit level])
  qed (use 1 in \<open>auto simp: formatBytes_loop.simps [of v unit level] intro!: exI [of _ 0]\<close>)
qed

lemma formatBytes_loop_unit:
  assumes "n < 2 ^ 63" "n \<ge> 1024"
  shows "\<exists>k<6. formatBytes_loop (n div 1024) 1024 0 = (1024 ^ Suc k, k) \<and> 1024 ^ Suc k \<le> n \<and> n < 1024 ^ Suc (Suc k)"
proof -
  obtain k where k: "formatBytes_loop (n div 1024) 1024 0 = (1024 * 1024 ^ k, k)"
      "1024 ^ k \<le> n div 1024" "n div 1024 < 1024 ^ Suc k"
    using formatBytes_loop_eq [of "n div 1024" 1024 0] assms(2) by force
  then have n: "1024 ^ Suc k \<le> n" "n < 1024 ^ Suc (Suc k)" by simp_all
  have "(1024 :: int) ^ Suc k < 1024 ^ 7" using n(1) assms by simp
  then have "Suc k < 7" using power_less_imp_less_exp [of "1024 :: int" "Suc k" 7] by simp
  then show ?thesis using k(1) n by auto
qed

end
