(* ===== verification/CoordPrint.thy ===== *)
theory CoordPrint
  imports Text
begin

text \<open>
  coordinator/ui.go: the terminal of the coordinator, and what its server prints on it. A terminal is what has been
  written to it.
\<close>

section \<open>Text of a fixed width\<close>

text \<open>The number of characters of UTF-8 text: its bytes that do not continue one. The widths of \<open>fmt\<close> count these.\<close>

definition rune_count :: "string \<Rightarrow> nat" where
  "rune_count s = length (filter (\<lambda>c. \<not> (0x80 \<le> (of_char c :: nat) \<and> (of_char c :: nat) < 0xC0)) s)"

definition pad_right :: "nat \<Rightarrow> string \<Rightarrow> string" where
  "pad_right w s = s @ replicate (w - rune_count s) CHR '' ''"

definition pad_left :: "nat \<Rightarrow> string \<Rightarrow> string" where
  "pad_left w s = replicate (w - rune_count s) CHR '' '' @ s"

section \<open>The terminal\<close>

record CoordTerm =
  ct_color :: bool
  ct_quiet :: bool
  ct_tty :: bool
  ct_err :: string

definition NewCoordUI :: "bool \<Rightarrow> bool \<Rightarrow> bool \<Rightarrow> CoordTerm" where
  "NewCoordUI tty quiet noColor = \<lparr>ct_color = tty \<and> \<not> noColor, ct_quiet = quiet, ct_tty = tty, ct_err = ''''\<rparr>"

definition Eventf :: "string \<Rightarrow> CoordTerm \<Rightarrow> CoordTerm" where "Eventf s u = u\<lparr>ct_err := ct_err u @ s\<rparr>"

definition coord_Infof :: "string \<Rightarrow> CoordTerm \<Rightarrow> CoordTerm" where
  "coord_Infof s u = (if ct_quiet u then u else Eventf s u)"

definition coord_Warnf :: "string \<Rightarrow> CoordTerm \<Rightarrow> CoordTerm" where "coord_Warnf s u = Eventf (''Warning: '' @ s) u"

definition coord_Section :: "string \<Rightarrow> CoordTerm \<Rightarrow> CoordTerm" where
  "coord_Section title u = (if ct_quiet u then u else Eventf (pointer @ '' '' @ title @ newline) u)"

definition LogWorkerConnected :: "string \<Rightarrow> int \<Rightarrow> int \<Rightarrow> int \<Rightarrow> CoordTerm \<Rightarrow> CoordTerm" where
  "LogWorkerConnected hostname workerThreads totalWorkers totalThreads u =
     Eventf (pointer @ '' Worker connected: '' @ hostname @ '' ('' @ show_int workerThreads @ '' threads) '' @ em_dash @
       '' '' @ show_int totalWorkers @ '' worker(s), '' @ show_int totalThreads @ '' threads total'' @ newline) u"

definition LogListening :: "string \<Rightarrow> CoordTerm \<Rightarrow> CoordTerm" where
  "LogListening addr u = Eventf (pointer @ '' Coordinator listening on '' @ addr @ '' '' @ em_dash @
     '' waiting for workers'' @ newline) u"

section \<open>The frame of a cluster hit\<close>

definition truncate_text :: "string \<Rightarrow> nat \<Rightarrow> string" where
  "truncate_text s maxLen =
     (if length s \<le> maxLen then s
      else if maxLen \<le> 3 then take maxLen s
      else take (maxLen - 3) s @ ''...'')"

definition cluster_row :: "string \<Rightarrow> string \<Rightarrow> string" where
  "cluster_row label cell = bar_double @ ''  '' @ pad_right 10 label @ pad_right 49 cell @ '' '' @ bar_double"

text \<open>The rows between the frame's lines; a balance of zero has none.\<close>

definition cluster_rows :: "string \<Rightarrow> string \<Rightarrow> string \<Rightarrow> string \<Rightarrow> u64 \<Rightarrow> i64 \<Rightarrow> string list" where
  "cluster_rows address wif fid label balanceSats keyIndex =
     [cluster_row ''Address'' (truncate_text address 49),
      cluster_row ''Format'' (truncate_text (fid @ '' ('' @ label @ '')'') 49),
      cluster_row ''WIF'' (truncate_text wif 49)] @
     (if balanceSats > 0
      then [cluster_row ''Balance'' (truncate_text (show_nat (unat balanceSats) @ '' sats'') 49)] else []) @
     [cluster_row ''Key #'' (show_int (sint keyIndex))]"

definition PrintClusterHit :: "string \<Rightarrow> string \<Rightarrow> string \<Rightarrow> string \<Rightarrow> u64 \<Rightarrow> i64 \<Rightarrow> CoordTerm \<Rightarrow> CoordTerm" where
  "PrintClusterHit address wif fid label balanceSats keyIndex u =
     coord_Infof (''  Saved to '' @ walletsLogFile @ newline @ newline)
       (fold (\<lambda>row. coord_Infof (row @ newline))
          ([newline @ frame [0xE2, 0x95, 0x94] [0xE2, 0x95, 0x97],
            bar_double @ ''  WALLET FOUND (cluster)                                      '' @ bar_double,
            frame [0xE2, 0x95, 0xA0] [0xE2, 0x95, 0xA3]] @
           cluster_rows address wif fid label balanceSats keyIndex @
           [frame [0xE2, 0x95, 0x9A] [0xE2, 0x95, 0x9D]]) u)"

end
