(* ===== verification/Lobby.thy ===== *)
theory Lobby
  imports Cache CoordPrint
begin

text \<open>
  coordinator/config.go and lobby.go: the coordinator's workers and the state of the cluster run.
  The map of workers is an association list with distinct keys. The clock and the random worker id
  are arguments; rates are floats, opened only through \<open>float_lib\<close>. Every operation runs under the
  server's lock, so operations do not overlap. A number of threads is an \<open>int\<close> read from a request; sums of them
  wrap at 64 bits, as in the code. The terminal the server prints on is part of its state.
\<close>

section \<open>State\<close>

definition StateLobby :: string where "StateLobby = ''lobby''"
definition StateRunning :: string where "StateRunning = ''running''"
definition StateStopping :: string where "StateStopping = ''stopping''"
definition StateEnded :: string where "StateEnded = ''ended''"

lemmas state_names = StateLobby_def StateRunning_def StateStopping_def StateEnded_def

record CoordConfig =
  cc_Listen :: string
  cc_TLSCert :: string
  cc_TLSKey :: string
  cc_AuthToken :: string
  cc_Insecure :: bool
  cc_Formats :: FormatMask
  cc_MinBalance :: u64
  cc_AutoStart :: bool
  cc_Quiet :: bool
  cc_NoColor :: bool
  cc_Verbose :: bool
  cc_MTLSCA :: string
  cc_MTLSRequireClientCert :: bool
  cc_MaxWorkers :: int
  cc_AllowCIDR :: "string list"
  cc_RateRegister :: int
  cc_RateCache :: int
  cc_RateAPI :: int

record RunConfig =
  rc_Formats :: "string list"
  rc_MinBalanceSats :: u64
  rc_CacheETag :: string

record RegisterRequest =
  rq_Hostname :: string
  rq_Threads :: int
  rq_Version :: string

record RegisterResponse =
  rp_WorkerID :: string
  rp_RunState :: string
  rp_Config :: RunConfig

record RunResponse =
  rr_State :: string
  rr_Config :: RunConfig

record 'f StatsRequest =
  sq_WorkerID :: string
  sq_KeysTriedDelta :: u64
  sq_KeysPerSecond :: 'f
  sq_RunKeysTried :: u64

datatype workerState = workerWaiting | workerRunning | workerOffline

record 'f workerEntry =
  we_ID :: string
  we_Hostname :: string
  we_Threads :: int
  we_Version :: string
  we_State :: workerState
  we_LastSeen :: int
  we_RunKeys :: u64
  we_KeysPerSec :: 'f

record 'f Server =
  sv_cfg :: CoordConfig
  sv_ui :: CoordTerm
  sv_workers :: "(string \<times> 'f workerEntry) list"
  sv_runState :: string
  sv_runConfig :: RunConfig
  sv_cachePath :: string
  sv_clusterTotal :: u64
  sv_clusterKPS :: 'f
  sv_clusterHits :: u64
  sv_startedAt :: int
  sv_hitAddresses :: "string list"

record 'f float_lib =
  f_zero :: 'f
  f_add :: "'f \<Rightarrow> 'f \<Rightarrow> 'f"

definition empty_RunConfig :: RunConfig where
  "empty_RunConfig = \<lparr>rc_Formats = [], rc_MinBalanceSats = 0, rc_CacheETag = ''''\<rparr>"

definition NewServer :: "'f float_lib \<Rightarrow> CoordConfig \<Rightarrow> CoordTerm \<Rightarrow> 'f Server" where
  "NewServer F cfg ui = \<lparr>sv_cfg = cfg, sv_ui = ui, sv_workers = [], sv_runState = StateLobby,
     sv_runConfig = empty_RunConfig, sv_cachePath = '''', sv_clusterTotal = 0, sv_clusterKPS = f_zero F,
     sv_clusterHits = 0, sv_startedAt = 0, sv_hitAddresses = []\<rparr>"

definition setRunConfig :: "string \<Rightarrow> 'f Server \<Rightarrow> 'f Server" where
  "setRunConfig etag s = s\<lparr>sv_runConfig := \<lparr>rc_Formats = FormatList (cc_Formats (sv_cfg s)),
     rc_MinBalanceSats = cc_MinBalance (sv_cfg s), rc_CacheETag = etag\<rparr>\<rparr>"

section \<open>Operations\<close>

definition newWorkerID :: "u8 list \<Rightarrow> string" where
  "newWorkerID b = ''w-'' @ hex_EncodeToString b"

definition empty_RegisterResponse :: RegisterResponse where
  "empty_RegisterResponse = \<lparr>rp_WorkerID = '''', rp_RunState = '''', rp_Config = empty_RunConfig\<rparr>"

definition register ::
  "'f float_lib \<Rightarrow> u8 list \<Rightarrow> int \<Rightarrow> RegisterRequest \<Rightarrow> 'f Server \<Rightarrow> RegisterResponse \<times> 'f Server" where
  "register F rnd now req s =
     (if cc_MaxWorkers (sv_cfg s) > 0 \<and> int (length (sv_workers s)) \<ge> cc_MaxWorkers (sv_cfg s)
      then (empty_RegisterResponse, s)
      else
        (let id = newWorkerID rnd;
             w = \<lparr>we_ID = id, we_Hostname = rq_Hostname req, we_Threads = rq_Threads req,
               we_Version = rq_Version req, we_State = workerWaiting, we_LastSeen = now,
               we_RunKeys = 0, we_KeysPerSec = f_zero F\<rparr>;
             ws = AList.update id w (sv_workers s);
             totalThreads = sint (fold (\<lambda>(_, w) n. n + word_of_int (we_Threads w)) ws (0 :: i64))
         in (\<lparr>rp_WorkerID = id, rp_RunState = sv_runState s, rp_Config = sv_runConfig s\<rparr>,
             s\<lparr>sv_workers := ws,
               sv_ui := LogWorkerConnected (rq_Hostname req) (rq_Threads req) (int (length ws)) totalThreads (sv_ui s)\<rparr>)))"

text \<open>The boolean says that the worker is known; an unknown one is the error \<open>errUnknownWorker\<close>.\<close>

definition heartbeat :: "int \<Rightarrow> string \<Rightarrow> string \<Rightarrow> 'f Server \<Rightarrow> bool \<times> 'f Server" where
  "heartbeat now workerID state s =
     (case map_of (sv_workers s) workerID of
        None \<Rightarrow> (False, s)
      | Some w \<Rightarrow>
          let w = w\<lparr>we_LastSeen := now\<rparr>;
              w = (if state = ''running'' then w\<lparr>we_State := workerRunning\<rparr>
                   else if state = ''waiting'' then w\<lparr>we_State := workerWaiting\<rparr> else w)
          in (True, s\<lparr>sv_workers := AList.update workerID w (sv_workers s)\<rparr>))"

definition freshWindow :: int where "freshWindow = 30 * 1000000000"

definition recordStats :: "'f float_lib \<Rightarrow> int \<Rightarrow> 'f StatsRequest \<Rightarrow> 'f Server \<Rightarrow> 'f Server" where
  "recordStats F now req s =
     (case map_of (sv_workers s) (sq_WorkerID req) of
        None \<Rightarrow> s
      | Some w \<Rightarrow>
          let w = w\<lparr>we_LastSeen := now, we_RunKeys := sq_RunKeysTried req,
                we_KeysPerSec := sq_KeysPerSecond req, we_State := workerRunning\<rparr>;
              ws = AList.update (sq_WorkerID req) w (sv_workers s);
              sum = fold (\<lambda>(_, ww) acc.
                  if we_State ww = workerRunning \<and> now - we_LastSeen ww < freshWindow
                  then f_add F acc (we_KeysPerSec ww) else acc) ws (f_zero F)
          in s\<lparr>sv_workers := ws, sv_clusterTotal := sv_clusterTotal s + sq_KeysTriedDelta req,
               sv_clusterKPS := sum\<rparr>)"

definition runStatus :: "'f Server \<Rightarrow> RunResponse" where
  "runStatus s = \<lparr>rr_State = sv_runState s, rr_Config = sv_runConfig s\<rparr>"

definition startRun :: "'f float_lib \<Rightarrow> int \<Rightarrow> 'f Server \<Rightarrow> 'f Server" where
  "startRun F now s = s\<lparr>sv_runState := StateRunning, sv_startedAt := now, sv_clusterTotal := 0,
     sv_clusterHits := 0, sv_hitAddresses := [],
     sv_workers := map (\<lambda>(id, w). (id, w\<lparr>we_State := workerRunning, we_RunKeys := 0,
       we_KeysPerSec := f_zero F\<rparr>)) (sv_workers s)\<rparr>"

definition stopRun :: "'f Server \<Rightarrow> 'f Server" where
  "stopRun s = s\<lparr>sv_runState := StateStopping\<rparr>"

definition endRun :: "'f Server \<Rightarrow> 'f Server" where
  "endRun s = s\<lparr>sv_runState := StateEnded\<rparr>"

definition resetLobby :: "'f Server \<Rightarrow> 'f Server" where
  "resetLobby s = s\<lparr>sv_runState := StateLobby,
     sv_workers := map (\<lambda>(id, w). (id, w\<lparr>we_State := workerWaiting\<rparr>)) (sv_workers s)\<rparr>"

text \<open>A stale worker is marked offline and deleted; only the deletion is visible.\<close>

definition pruneStale :: "int \<Rightarrow> 'f Server \<Rightarrow> 'f Server" where
  "pruneStale now s =
     (let cutoff = now - freshWindow
      in s\<lparr>sv_workers := filter (\<lambda>(id, w). \<not> we_LastSeen w < cutoff) (sv_workers s)\<rparr>)"

definition workerSnapshot :: "'f Server \<Rightarrow> 'f workerEntry list" where
  "workerSnapshot s = map snd (sv_workers s)"

definition clusterSnapshot :: "'f Server \<Rightarrow> string \<times> u64 \<times> 'f \<times> u64 \<times> int" where
  "clusterSnapshot s = (sv_runState s, sv_clusterTotal s, sv_clusterKPS s, sv_clusterHits s, sv_startedAt s)"

end
