(* ===== verification/Hits.thy ===== *)
theory Hits
  imports Lobby
begin

text \<open>
  coordinator/hits.go: a worker reports a hit, the coordinator writes it to wallets.txt once. The
  file is appended to; the time stamp is an argument, and so is the point at which the write fails.
\<close>

record HitRequest =
  hq_WorkerID :: string
  hq_Address :: string
  hq_WIF :: string
  hq_Format :: string
  hq_BalanceSats :: u64
  hq_KeyIndex :: i64

text \<open>The block of one hit.\<close>

definition wallet_record ::
  "string \<Rightarrow> i64 \<Rightarrow> string \<Rightarrow> string \<Rightarrow> string \<Rightarrow> string \<Rightarrow> u64 \<Rightarrow> string" where
  "wallet_record stamp keyIndex formatID formatLabel address wif balanceSats =
     ''--- wallet found '' @ stamp @ '' ---'' @ newline @
     ''key_index: '' @ show_int (sint keyIndex) @ newline @
     ''format: '' @ formatID @ '' ('' @ formatLabel @ '')'' @ newline @
     ''address: '' @ address @ newline @
     ''balance_sats: '' @ show_nat (unat balanceSats) @ newline @
     ''wif: '' @ wif @ newline @ newline"

text \<open>Where appending fails, if it does: opening, changing the mode of a new file, writing (after some
  bytes), or the final sync.\<close>

datatype log_fault = LogOk | LogOpenFails | LogChmodFails | LogWriteFails nat | LogSyncFails

definition file_data :: "fs \<Rightarrow> string \<Rightarrow> u8 list" where
  "file_data fs path = (case fs path of None \<Rightarrow> [] | Some f \<Rightarrow> f_data f)"

definition append_to :: "int \<Rightarrow> string \<Rightarrow> u8 list \<Rightarrow> fs \<Rightarrow> fs" where
  "append_to now path d fs = fs(path \<mapsto> \<lparr>f_data = file_data fs path @ d, f_mtime = now\<rparr>)"

text \<open>The boolean is the absence of an error.\<close>

definition appendWalletHit ::
  "log_fault \<Rightarrow> int \<Rightarrow> string \<Rightarrow> string \<Rightarrow> i64 \<Rightarrow> string \<Rightarrow> string \<Rightarrow> string \<Rightarrow> string \<Rightarrow> u64 \<Rightarrow> fs \<Rightarrow> bool \<times> fs" where
  "appendWalletHit fault now stamp path keyIndex formatID formatLabel address wif balanceSats fs =
     (let newFile = (fs path = None);
          text = chars_bytes (wallet_record stamp keyIndex formatID formatLabel address wif balanceSats) in
      if fault = LogOpenFails then (False, fs)
      else if newFile \<and> fault = LogChmodFails then (False, append_to now path [] fs)
      else
        (case fault of
           LogWriteFails n \<Rightarrow> (False, append_to now path (take n text) fs)
         | LogSyncFails \<Rightarrow> (False, append_to now path text fs)
         | _ \<Rightarrow> (True, append_to now path text fs)))"

definition kindFromFormatID :: "string \<Rightarrow> string \<times> string" where
  "kindFromFormatID fid =
     (if fid = ''legacy_compressed'' then (''legacy_compressed'', ''P2PKH compressed'')
      else if fid = ''legacy_uncompressed'' then (''legacy_uncompressed'', ''P2PKH uncompressed'')
      else if fid = ''segwit_v0'' then (''segwit_v0'', ''Native SegWit (bc1q)'')
      else if fid = ''p2sh'' then (''p2sh'', ''P2SH (3...)'')
      else if fid = ''taproot'' then (''taproot'', ''Taproot (bc1p)'')
      else (fid, ''Unknown''))"

datatype hit_error = UnknownWorker | LogFailed

definition handleHit ::
  "log_fault \<Rightarrow> int \<Rightarrow> string \<Rightarrow> HitRequest \<Rightarrow> 'f Server \<times> fs \<Rightarrow> hit_error option \<times> 'f Server \<times> fs" where
  "handleHit fault now stamp req st =
     (case st of (s, fs) \<Rightarrow>
        if map_of (sv_workers s) (hq_WorkerID req) = None then (Some UnknownWorker, s, fs)
        else
          (case kindFromFormatID (hq_Format req) of (fid, label) \<Rightarrow>
             if hq_Address req \<noteq> '''' \<and> hq_Address req \<in> set (sv_hitAddresses s)
             then (None, s\<lparr>sv_ui := coord_Warnf (''duplicate hit report for address '' @ hq_Address req @
                 '' (ignored)'' @ newline) (sv_ui s)\<rparr>, fs)
             else
               (let s = (if hq_Address req \<noteq> '''' then s\<lparr>sv_hitAddresses := sv_hitAddresses s @ [hq_Address req]\<rparr> else s)
                in case appendWalletHit fault now stamp walletsLogFile (hq_KeyIndex req) fid label
                       (hq_Address req) (hq_WIF req) (hq_BalanceSats req) fs of
                     (False, fs) \<Rightarrow> (Some LogFailed, s, fs)
                   | (True, fs) \<Rightarrow> (None, s\<lparr>sv_clusterHits := sv_clusterHits s + 1,
                       sv_ui := PrintClusterHit (hq_Address req) (hq_WIF req) fid label (hq_BalanceSats req)
                         (hq_KeyIndex req) (sv_ui s)\<rparr>, fs))))"

section \<open>Every hit is written once\<close>

text \<open>The block a request stands for.\<close>

definition request_record :: "string \<Rightarrow> HitRequest \<Rightarrow> u8 list" where
  "request_record stamp req =
     (case kindFromFormatID (hq_Format req) of (fid, label) \<Rightarrow>
        chars_bytes (wallet_record stamp (hq_KeyIndex req) fid label (hq_Address req) (hq_WIF req) (hq_BalanceSats req)))"

text \<open>What the coordinator prints of it.\<close>

definition hit_printed :: "HitRequest \<Rightarrow> CoordTerm \<Rightarrow> CoordTerm" where
  "hit_printed req u =
     (case kindFromFormatID (hq_Format req) of (fid, label) \<Rightarrow>
        PrintClusterHit (hq_Address req) (hq_WIF req) fid label (hq_BalanceSats req) (hq_KeyIndex req) u)"

definition hit_ignored :: "HitRequest \<Rightarrow> CoordTerm \<Rightarrow> CoordTerm" where
  "hit_ignored req u = coord_Warnf (''duplicate hit report for address '' @ hq_Address req @ '' (ignored)'' @ newline) u"

text \<open>The reference: the requests in order, without those whose (non-empty) address was seen.\<close>

fun fresh_hits :: "string list \<Rightarrow> (string \<times> HitRequest) list \<Rightarrow> (string \<times> HitRequest) list" where
  "fresh_hits seen [] = []"
| "fresh_hits seen (r # rs) =
     (let a = hq_Address (snd r) in
      if a \<noteq> '''' \<and> a \<in> set seen then fresh_hits seen rs
      else r # fresh_hits (if a \<noteq> '''' then seen @ [a] else seen) rs)"

text \<open>A sequence of calls of \<open>handleHit\<close>, each with what the disk does, the clock, its text and the request; this is a way
  to state what the calls do together, not code of the program.\<close>

type_synonym hit_call = "log_fault \<times> int \<times> string \<times> HitRequest"

fun reported :: "hit_call \<Rightarrow> string \<times> HitRequest" where
  "reported (fault, now, stamp, req) = (stamp, req)"

definition handle_hits :: "hit_call list \<Rightarrow> 'f Server \<times> fs \<Rightarrow> 'f Server \<times> fs" where
  "handle_hits calls st = fold (\<lambda>(fault, now, stamp, req) st. snd (handleHit fault now stamp req st)) calls st"

lemma handle_hits_simps [simp]:
  "handle_hits [] st = st"
  "handle_hits ((fault, now, stamp, req) # calls) st = handle_hits calls (snd (handleHit fault now stamp req st))"
  by (simp_all add: handle_hits_def)

lemma handleHit_workers [simp]:
  "sv_workers (fst (snd (handleHit fault now stamp req st))) = sv_workers (fst st)"
  by (simp add: handleHit_def Let_def split: prod.split bool.split)

lemma handleHit_fresh:
  assumes "map_of (sv_workers s) (hq_WorkerID req) \<noteq> None"
    and "hq_Address req = '''' \<or> hq_Address req \<notin> set (sv_hitAddresses s)"
  shows "handleHit LogOk now stamp req (s, fs) =
    (None, s\<lparr>sv_hitAddresses := sv_hitAddresses s @ (if hq_Address req \<noteq> '''' then [hq_Address req] else []),
        sv_clusterHits := sv_clusterHits s + 1, sv_ui := hit_printed req (sv_ui s)\<rparr>,
      append_to now walletsLogFile (request_record stamp req) fs)"
proof -
  obtain fid label where "kindFromFormatID (hq_Format req) = (fid, label)" by (rule prod.exhaust)
  with assms show ?thesis
    by (auto simp: handleHit_def appendWalletHit_def request_record_def hit_printed_def Let_def)
qed

lemma handleHit_seen:
  assumes "map_of (sv_workers s) (hq_WorkerID req) \<noteq> None"
    and "hq_Address req \<noteq> ''''" "hq_Address req \<in> set (sv_hitAddresses s)"
  shows "handleHit fault now stamp req (s, fs) = (None, s\<lparr>sv_ui := hit_ignored req (sv_ui s)\<rparr>, fs)"
  using assms by (auto simp: handleHit_def hit_ignored_def split: prod.split)

lemma file_data_append [simp]: "file_data (append_to now p d fs) p = file_data fs p @ d"
  by (simp add: append_to_def file_data_def)

lemma handle_hits_log:
  assumes "\<And>call. call \<in> set calls \<Longrightarrow> fst call = LogOk \<and> map_of (sv_workers s) (hq_WorkerID (snd (reported call))) \<noteq> None"
    and "handle_hits calls (s, fs) = (s', fs')"
  shows "file_data fs' walletsLogFile = file_data fs walletsLogFile @
      concat (map (\<lambda>(stamp, req). request_record stamp req) (fresh_hits (sv_hitAddresses s) (map reported calls))) \<and>
    sv_clusterHits s' = sv_clusterHits s + of_nat (length (fresh_hits (sv_hitAddresses s) (map reported calls)))"
  using assms
proof (induction calls arbitrary: s fs)
  case (Cons r calls)
  obtain fault now stamp req where r: "r = (fault, now, stamp, req)" by (rule prod_cases4)
  have known: "map_of (sv_workers s) (hq_WorkerID req) \<noteq> None" and ok: "fault = LogOk" using Cons.prems(1) [of r] r by simp_all
  show ?case
  proof (cases "hq_Address req \<noteq> '''' \<and> hq_Address req \<in> set (sv_hitAddresses s)")
    case True
    then show ?thesis
      using Cons.IH [of "s\<lparr>sv_ui := hit_ignored req (sv_ui s)\<rparr>" fs] Cons.prems handleHit_seen [OF known] by (simp add: r ok)
  next
    case False
    let ?s = "s\<lparr>sv_hitAddresses := sv_hitAddresses s @ (if hq_Address req \<noteq> '''' then [hq_Address req] else []),
        sv_clusterHits := sv_clusterHits s + 1, sv_ui := hit_printed req (sv_ui s)\<rparr>"
    let ?fs = "append_to now walletsLogFile (request_record stamp req) fs"
    let ?fresh = "\<lambda>s. fresh_hits (sv_hitAddresses s) (map reported calls)"
    have "handle_hits calls (?s, ?fs) = (s', fs')"
      using Cons.prems(2) handleHit_fresh [OF known, of now stamp fs] False by (simp add: r ok)
    then have "file_data fs' walletsLogFile = file_data ?fs walletsLogFile @
        concat (map (\<lambda>(stamp, req). request_record stamp req) (?fresh ?s)) \<and>
      sv_clusterHits s' = sv_clusterHits ?s + of_nat (length (?fresh ?s))"
      using Cons.IH [of ?s ?fs] Cons.prems(1) by simp
    then show ?thesis using False by (auto simp: r Let_def)
  qed
qed simp

lemma fresh_hits_distinct:
  "distinct (filter (\<lambda>a. a \<noteq> '''') (map (hq_Address \<circ> snd) (fresh_hits seen reqs))) \<and>
   (\<forall>a \<in> set seen. a \<noteq> '''' \<longrightarrow> a \<notin> set (map (hq_Address \<circ> snd) (fresh_hits seen reqs)))"
proof (induction seen reqs rule: fresh_hits.induct)
  case (2 seen q rs)
  let ?a = "hq_Address (snd q)"
  show ?case
  proof (cases "?a \<noteq> '''' \<and> ?a \<in> set seen")
    case True
    then show ?thesis using 2(1) [OF refl True] by simp
  next
    case False
    then have ih: "distinct (filter (\<lambda>a. a \<noteq> '''') (map (hq_Address \<circ> snd)
        (fresh_hits (if ?a \<noteq> '''' then seen @ [?a] else seen) rs)))"
      "\<forall>a \<in> set (if ?a \<noteq> '''' then seen @ [?a] else seen). a \<noteq> '''' \<longrightarrow>
        a \<notin> set (map (hq_Address \<circ> snd) (fresh_hits (if ?a \<noteq> '''' then seen @ [?a] else seen) rs))"
      using 2(2) [OF refl False] by blast+
    have eq: "fresh_hits seen (q # rs) = q # fresh_hits (if ?a \<noteq> '''' then seen @ [?a] else seen) rs"
      unfolding fresh_hits.simps Let_def using False by (rule if_not_P)
    show ?thesis
      unfolding eq using ih False by (cases "?a = ''''") (auto simp: comp_def)
  qed
qed simp

lemma fresh_hits_complete:
  "r \<in> set reqs \<Longrightarrow> hq_Address (snd r) \<noteq> '''' \<Longrightarrow> hq_Address (snd r) \<notin> set seen \<Longrightarrow>
    hq_Address (snd r) \<in> hq_Address ` snd ` set (fresh_hits seen reqs)"
proof (induction seen reqs rule: fresh_hits.induct)
  case (2 seen q rs)
  then show ?case
    by (cases "hq_Address (snd r) = hq_Address (snd q)") (auto simp: Let_def)
qed simp

text \<open>C16. Hits that registered workers report are written to wallets.txt once each: when the disk
  works, the file grows by the blocks of the requests in order, without repeated addresses, and is
  never rewritten; every reported address is in it; and the hit counter counts the blocks.\<close>

theorem hits_logged_once:
  assumes "\<And>call. call \<in> set calls \<Longrightarrow> fst call = LogOk \<and> map_of (sv_workers s) (hq_WorkerID (snd (reported call))) \<noteq> None"
    and "handle_hits calls (s, fs) = (s', fs')" "reqs = map reported calls"
  shows "file_data fs' walletsLogFile = file_data fs walletsLogFile @
      concat (map (\<lambda>(stamp, req). request_record stamp req) (fresh_hits (sv_hitAddresses s) reqs)) \<and>
    sv_clusterHits s' = sv_clusterHits s + of_nat (length (fresh_hits (sv_hitAddresses s) reqs)) \<and>
    distinct (filter (\<lambda>a. a \<noteq> '''') (map (hq_Address \<circ> snd) (fresh_hits (sv_hitAddresses s) reqs))) \<and>
    (\<forall>r \<in> set reqs. hq_Address (snd r) \<noteq> '''' \<longrightarrow> hq_Address (snd r) \<in> set (sv_hitAddresses s) \<or>
      hq_Address (snd r) \<in> hq_Address ` snd ` set (fresh_hits (sv_hitAddresses s) reqs))"
  using handle_hits_log [OF assms(1,2)] fresh_hits_distinct [of "sv_hitAddresses s" reqs]
    fresh_hits_complete [of _ reqs "sv_hitAddresses s"] unfolding assms(3) by blast

text \<open>The address is remembered before the block is written, so a hit whose write fails is lost:
  the worker gets an error and reports again, the coordinator answers that all is well, and the
  second report writes nothing and counts nothing.\<close>

theorem failed_write_loses_hit:
  assumes "map_of (sv_workers s) (hq_WorkerID req) \<noteq> None" "hq_Address req \<noteq> ''''"
    and "handleHit fault now stamp req (s, fs) = (Some LogFailed, s', fs')"
  shows "handleHit fault' now' stamp' req (s', fs') = (None, s'\<lparr>sv_ui := hit_ignored req (sv_ui s')\<rparr>, fs') \<and>
    sv_clusterHits s' = sv_clusterHits s \<and>
    (fault = LogOpenFails \<longrightarrow> fs' = fs)"
proof -
  have s': "s' = s\<lparr>sv_hitAddresses := sv_hitAddresses s @ [hq_Address req]\<rparr>"
    using assms by (auto simp: handleHit_def Let_def split: if_splits prod.splits bool.splits)
  have "fault = LogOpenFails \<Longrightarrow> fs' = fs"
    using assms by (auto simp: handleHit_def Let_def appendWalletHit_def split: if_splits prod.splits bool.splits)
  moreover have "handleHit fault' now' stamp' req (s', fs') = (None, s'\<lparr>sv_ui := hit_ignored req (sv_ui s')\<rparr>, fs')"
    by (rule handleHit_seen) (use assms in \<open>simp_all add: s'\<close>)
  ultimately show ?thesis by (simp add: s')
qed

end
