(* ===== verification/Float64.thy ===== *)
theory Float64
  imports Complex_Main "HOL-Library.Log_Nat"
begin

text \<open>
  The double-precision numbers of Go where a value of the program depends on them: a float64 is a rational number, and
  every operation rounds its exact result to 53 bits, ties to even. The exponents of IEEE 754 are not bounded here;
  the quotients of two 64-bit counts, and the products with small constants, stay far inside the bounds.
\<close>

definition round_even :: "rat \<Rightarrow> int" where
  "round_even x =
     (let n = \<lfloor>x\<rfloor>; r = x - of_int n in if r < 1 / 2 \<or> r = 1 / 2 \<and> even n then n else n + 1)"

text \<open>The exponent of the last of the 53 bits of a positive number.\<close>

definition float_exp :: "rat \<Rightarrow> int" where
  "float_exp x =
     (case quotient_of x of (p, q) \<Rightarrow>
        let e = bitlen p - bitlen q - 53 in if x < 2 powi (e + 53) then e else e + 1)"

definition float_pos :: "rat \<Rightarrow> rat" where
  "float_pos x = of_int (round_even (x * 2 powi (- float_exp x))) * 2 powi float_exp x"

definition float64 :: "rat \<Rightarrow> rat" where
  "float64 x = (if x = 0 then 0 else if x < 0 then - float_pos (- x) else float_pos x)"

text \<open>The conversion to an integer drops the fraction.\<close>

definition float_int :: "rat \<Rightarrow> int" where
  "float_int x = (if x < 0 then - \<lfloor>- x\<rfloor> else \<lfloor>x\<rfloor>)"

lemma round_even_bounds: "0 \<le> x \<Longrightarrow> 0 \<le> round_even x" "x \<le> of_int n \<Longrightarrow> round_even x \<le> n"
proof -
  show "0 \<le> x \<Longrightarrow> 0 \<le> round_even x" by (simp add: round_even_def Let_def)
  show "x \<le> of_int n \<Longrightarrow> round_even x \<le> n"
  proof (cases "x = of_int n")
    case False
    assume "x \<le> of_int n"
    then have "\<lfloor>x\<rfloor> < n" using False by (simp add: floor_less_iff)
    then show ?thesis by (auto simp: round_even_def Let_def)
  qed (simp add: round_even_def Let_def)
qed

lemma float_exp_le:
  assumes "0 < x"
  shows "2 powi (float_exp x + 52) \<le> x"
proof -
  obtain p q where pq: "quotient_of x = (p, q)" by (rule prod.exhaust)
  have q: "0 < q" and x: "x = of_int p / of_int q"
    using quotient_of_denom_pos [OF pq] quotient_of_div [OF pq] by simp_all
  then have p: "0 < p" using assms by (simp add: zero_less_divide_iff)
  let ?e = "bitlen p - bitlen q - 53"
  have "2 ^ nat (bitlen p - 1) \<le> p" "q < 2 ^ nat (bitlen q)" using bitlen_bounds [OF p] bitlen_bounds [OF q] by simp_all
  then have b: "(2::rat) ^ nat (bitlen p - 1) \<le> of_int p" "of_int q \<le> (2::rat) ^ nat (bitlen q)"
    by (metis of_int_le_iff of_int_power of_int_numeral order_less_imp_le)+
  have nonneg: "0 \<le> bitlen p - 1" "0 \<le> bitlen q" using bitlen_bounds [OF p] p by (simp_all add: bitlen_nonneg bitlen_def floorlog_def)
  then have pw: "2 powi (bitlen p - 1) \<le> (of_int p :: rat)" "of_int q \<le> (2 :: rat) powi bitlen q"
    using b by (simp_all add: power_int_def)
  have "2 powi (?e + 52) = 2 powi (bitlen p - 1) / (2 :: rat) powi bitlen q"
    by (simp add: power_int_diff [symmetric] algebra_simps)
  also have "\<dots> \<le> of_int p / of_int q"
    by (rule frac_le) (use pw q p in auto)
  finally have "2 powi (?e + 52) \<le> x" by (simp add: x)
  then show ?thesis by (auto simp: float_exp_def pq Let_def algebra_simps not_less)
qed

lemma float64_nonneg: "0 \<le> x \<Longrightarrow> 0 \<le> float64 x"
  by (simp add: float64_def float_pos_def round_even_bounds)

text \<open>Rounding does not pass a small whole number.\<close>

lemma float64_upper:
  assumes "x \<le> of_nat n" "n < 2 ^ 52"
  shows "float64 x \<le> of_nat n"
proof (cases "0 < x")
  case True
  define e where "e = float_exp x"
  have "of_nat n < (2 :: rat) ^ 52" using assms(2) by (metis of_nat_less_iff of_nat_numeral of_nat_power)
  then have lt: "(2 :: rat) powi (e + 52) < 2 powi 52"
    using float_exp_le [OF True] assms(1) unfolding e_def power_int_numeral by (meson le_less_trans)
  then have "\<not> 52 \<le> e + 52" using power_int_increasing [of 52 "e + 52" "2 :: rat"] by auto
  then obtain k where k: "- e = int k" by (metis add_le_cancel_right add_0 linear neg_0_le_iff_le zero_le_imp_eq_int)
  have up: "(2 :: rat) powi (- e) = of_nat (2 ^ k)" unfolding k by simp
  have "x * 2 powi (- e) \<le> of_int (int (n * 2 ^ k))"
    unfolding up using assms(1) by (simp add: mult_right_mono)
  from round_even_bounds(2) [OF this]
  have "of_int (round_even (x * 2 powi (- e))) \<le> (of_nat n * 2 powi (- e) :: rat)"
    unfolding up by (metis of_int_le_iff of_int_of_nat_eq of_nat_mult)
  then have "float_pos x \<le> of_nat n * 2 powi (- e) * 2 powi e"
    unfolding float_pos_def e_def by (intro mult_right_mono) simp_all
  also have "\<dots> = of_nat n" by (simp add: mult.assoc power_int_add [symmetric])
  finally show ?thesis using True by (simp add: float64_def)
next
  case False
  then have "float64 x = - float64 (- x)" "0 \<le> float64 (- x)"
    using float64_nonneg [of "- x"] by (simp_all add: float64_def)
  then show ?thesis by (metis neg_le_0_iff_le of_nat_0_le_iff order_trans)
qed

lemma float_int_bounds: "0 \<le> x \<Longrightarrow> x \<le> of_nat n \<Longrightarrow> 0 \<le> float_int x \<and> float_int x \<le> int n"
  by (auto simp: float_int_def floor_le_iff)

end
