(* ===== verification/Output.thy ===== *)
theory Output
  imports Process Hits Float64
begin

text \<open>
  output.go and wallet_log.go: the terminal of the main program. A terminal is what has been written to it and
  the state of its progress line. Text is UTF-8, as in the code. The share done that a progress bar shows is computed as
  in the code, in double precision (\<open>Float64\<close>); the printed forms of floating-point numbers, and the printer of the
  text package with its separators, are the parameter \<open>text_lib\<close>.
\<close>

section \<open>Text\<close>

record 'f text_lib =
  tl_int :: "int \<Rightarrow> string"
  tl_percent :: "rat \<Rightarrow> string"
  tl_ratio :: "int \<Rightarrow> int \<Rightarrow> string"
  tl_kps :: "int \<Rightarrow> int \<Rightarrow> string"
  tl_seconds :: "nat \<Rightarrow> int \<Rightarrow> string"
  tl_seconds_full :: "int \<Rightarrow> string"
  tl_average :: "'f \<Rightarrow> string"

text \<open>\<open>%08d\<close> of an unsigned integer.\<close>

definition show_padded :: "nat \<Rightarrow> nat \<Rightarrow> string" where
  "show_padded w n = replicate (w - length (show_nat n)) CHR ''0'' @ show_nat n"

definition spinnerFrames :: "string list" where
  "spinnerFrames = map (\<lambda>b. utf8 [0xE2, 0xA0, b])
     [0x8B, 0x99, 0xB9, 0xB8, 0xBC, 0xB4, 0xA6, 0xA7, 0x87, 0x8F]"

definition ansiReset :: string where "ansiReset = escape @ ''[0m''"
definition ansiBold :: string where "ansiBold = escape @ ''[1m''"
definition ansiDim :: string where "ansiDim = escape @ ''[2m''"
definition ansiGreen :: string where "ansiGreen = escape @ ''[32m''"
definition ansiYellow :: string where "ansiYellow = escape @ ''[33m''"
definition ansiCyan :: string where "ansiCyan = escape @ ''[36m''"

definition truncateString :: "string \<Rightarrow> nat \<Rightarrow> string" where
  "truncateString s maxLen =
     (if length s \<le> maxLen then s
      else if maxLen \<le> 3 then take maxLen s
      else take (maxLen - 3) s @ ''...'')"

text \<open>An index out of the unit letters is a panic (\<open>None\<close>).\<close>

definition formatBytes :: "'f text_lib \<Rightarrow> int \<Rightarrow> string option" where
  "formatBytes T n =
     (if n < 1024 then Some (show_int n @ '' B'')
      else
        (case formatBytes_loop (n div 1024) 1024 0 of
           (unit, level) \<Rightarrow>
             if level < length ''KMGTPE'' then Some (tl_ratio T n unit @ '' '' @ [''KMGTPE'' ! level] @ ''B'') else None))"

definition kindLabels :: "MatchKind \<Rightarrow> string \<times> string" where
  "kindLabels kind =
     (case kind of
        MatchLegacyCompressed \<Rightarrow> (''legacy_compressed'', ''P2PKH compressed'')
      | MatchLegacyUncompressed \<Rightarrow> (''legacy_uncompressed'', ''P2PKH uncompressed'')
      | MatchSegwitV0 \<Rightarrow> (''segwit_v0'', ''Native SegWit (bc1q)'')
      | MatchP2SH \<Rightarrow> (''p2sh'', ''P2SH (3...)'')
      | MatchTaproot \<Rightarrow> (''taproot'', ''Taproot (bc1p)'')
      | _ \<Rightarrow> (''unknown'', ''Unknown''))"

definition formatBalanceSats :: "'f text_lib \<Rightarrow> u64 \<Rightarrow> string \<times> string" where
  "formatBalanceSats T sats =
     (show_nat (unat (sats div 100000000)) @ ''.'' @ show_padded 8 (unat (sats mod 100000000)) @ '' BTC'',
      tl_int T (sint sats))"

text \<open>A row of the banner.\<close>

definition border :: "string \<Rightarrow> string" where
  "border s =
     (let s = truncateString s 58
      in bar_double @ ''  '' @ s @ strings_Repeat '' '' (58 - length s) @ bar_double)"

section \<open>The terminal\<close>

record UI =
  ui_color :: bool
  ui_quiet :: bool
  ui_verbose :: bool
  ui_tty :: bool
  ui_out :: string
  ui_err :: string
  ui_progressActive :: bool
  ui_indeterminate :: bool
  ui_indeterminateLabel :: string
  ui_spinnerFrame :: nat
  ui_lastProgressUpdate :: int

definition NewUI :: "bool \<Rightarrow> bool \<Rightarrow> bool \<Rightarrow> bool \<Rightarrow> UI" where
  "NewUI tty noColor quiet verbose =
     \<lparr>ui_color = tty \<and> \<not> noColor, ui_quiet = quiet, ui_verbose = verbose, ui_tty = tty, ui_out = '''', ui_err = '''',
      ui_progressActive = False, ui_indeterminate = False, ui_indeterminateLabel = '''', ui_spinnerFrame = 0,
      ui_lastProgressUpdate = 0\<rparr>"

definition colorize :: "UI \<Rightarrow> string \<Rightarrow> string \<Rightarrow> string" where
  "colorize u code s = (if \<not> ui_color u then s else code @ s @ ansiReset)"

definition PrintfOut :: "string \<Rightarrow> UI \<Rightarrow> UI" where "PrintfOut s u = u\<lparr>ui_out := ui_out u @ s\<rparr>"
definition PrintfErr :: "string \<Rightarrow> UI \<Rightarrow> UI" where "PrintfErr s u = u\<lparr>ui_err := ui_err u @ s\<rparr>"
definition PrintlnErr :: "string \<Rightarrow> UI \<Rightarrow> UI" where "PrintlnErr s u = PrintfErr (s @ newline) u"

definition Banner :: "UI \<Rightarrow> UI" where
  "Banner u = (if ui_quiet u then u
     else PrintlnErr (strings_Repeat rule_light 28)
       (PrintlnErr (colorize u ansiBold (''btcfind '' @ em_dash @ '' Bitcoin key search'')) u))"

definition Section :: "string \<Rightarrow> UI \<Rightarrow> UI" where
  "Section title u = (if ui_quiet u then u
     else PrintfErr (colorize u ansiCyan pointer @ '' '' @ title @ newline) u)"

definition Infof :: "string \<Rightarrow> UI \<Rightarrow> UI" where "Infof s u = (if ui_quiet u then u else PrintfErr s u)"
definition Warnf :: "string \<Rightarrow> UI \<Rightarrow> UI" where "Warnf s u = PrintfErr (''Warning: '' @ s) u"

subsection \<open>The progress line\<close>

text \<open>At most one update in 100 milliseconds.\<close>

definition throttled :: "int \<Rightarrow> UI \<Rightarrow> bool" where
  "throttled now u \<longleftrightarrow> ui_progressActive u \<and> now - ui_lastProgressUpdate u < 100 * 1000000"

definition spinner :: "UI \<Rightarrow> string" where
  "spinner u = spinnerFrames ! (ui_spinnerFrame u mod length spinnerFrames)"

definition spin :: "UI \<Rightarrow> UI" where "spin u = u\<lparr>ui_spinnerFrame := ui_spinnerFrame u + 1\<rparr>"

text \<open>\<open>strings.Repeat\<close> panics (\<open>None\<close>) for a negative count.\<close>

definition repeat_or_panic :: "string \<Rightarrow> int \<Rightarrow> string option" where
  "repeat_or_panic s n = (if n < 0 then None else Some (strings_Repeat s (nat n)))"

text \<open>The bar is 24 blocks wide. A file that grows while it is read has more bytes read than its size; its share is 1.\<close>

definition progress_text :: "'f text_lib \<Rightarrow> UI \<Rightarrow> string \<Rightarrow> int \<Rightarrow> int \<Rightarrow> string option" where
  "progress_text T u label current outOf =
     (if outOf > 0 then
        (let share = float64 (float64 (of_int current) / float64 (of_int outOf));
             share = (if share > 1 then 1 else share);
             filled = float_int (float64 (share * 24))
         in case (repeat_or_panic block_full filled, repeat_or_panic block_light (24 - filled),
                  formatBytes T current, formatBytes T outOf) of
              (Some full, Some light, Some done, Some whole) \<Rightarrow>
                Some (carriage @ label @ '' '' @ full @ light @ '' '' @ tl_percent T (float64 (share * 100)) @ ''% ('' @
                  done @ '' / '' @ whole @ '')   '')
            | _ \<Rightarrow> None)
      else map_option (\<lambda>done. carriage @ label @ '' '' @ spinner u @ '' '' @ done @ ''   '') (formatBytes T current))"

definition Progress :: "'f text_lib \<Rightarrow> int \<Rightarrow> string \<Rightarrow> int \<Rightarrow> int \<Rightarrow> UI \<Rightarrow> UI option" where
  "Progress T now label current outOf u =
     (if ui_quiet u \<or> throttled now u then Some u
      else
        (let u = u\<lparr>ui_lastProgressUpdate := now, ui_indeterminate := False, ui_progressActive := True\<rparr>
         in map_option (\<lambda>s. spin (PrintfErr s u)) (progress_text T u label current outOf)))"

definition ProgressIndeterminate :: "int \<Rightarrow> string \<Rightarrow> UI \<Rightarrow> UI" where
  "ProgressIndeterminate now label u =
     (if ui_quiet u \<or> ui_indeterminateLabel u = label \<and> throttled now u then u
      else
        (let u = u\<lparr>ui_lastProgressUpdate := now, ui_indeterminate := True, ui_indeterminateLabel := label,
           ui_progressActive := True\<rparr>
         in spin (PrintfErr (carriage @ spinner u @ '' '' @ label @ ''   '') u)))"

definition ClearProgress :: "UI \<Rightarrow> UI" where
  "ClearProgress u =
     (if \<not> ui_progressActive u then u
      else
        (let u = u\<lparr>ui_progressActive := False, ui_indeterminate := False, ui_indeterminateLabel := ''''\<rparr>
         in PrintfErr (if ui_tty u then carriage @ escape @ ''[K'' else newline) u))"

definition BeginForeverSearch :: "UI \<Rightarrow> UI" where
  "BeginForeverSearch u = (if ui_tty u then u else PrintfOut ''Running forever (Ctrl+C to stop)... '' u)"

definition BeginSearch :: "'f text_lib \<Rightarrow> int \<Rightarrow> UI \<Rightarrow> UI" where
  "BeginSearch T count u = (if ui_tty u then u else PrintfOut (''Testing '' @ tl_int T count @ '' keys... '') u)"

definition kps_text :: "'f text_lib \<Rightarrow> int \<Rightarrow> int \<Rightarrow> string" where
  "kps_text T processed elapsed = (if elapsed < 1000000 then ''0.0'' else tl_kps T processed elapsed)"

definition search_line :: "int \<Rightarrow> string \<Rightarrow> UI \<Rightarrow> UI" where
  "search_line now s u =
     (if \<not> ui_tty u \<or> ui_quiet u \<or> throttled now u then u
      else PrintfErr s (u\<lparr>ui_lastProgressUpdate := now, ui_progressActive := True, ui_indeterminate := False\<rparr>))"

definition ForeverProgress :: "'f text_lib \<Rightarrow> int \<Rightarrow> u64 \<Rightarrow> int \<Rightarrow> u64 \<Rightarrow> UI \<Rightarrow> UI" where
  "ForeverProgress T now processed elapsed hits u =
     search_line now (carriage @ ''Keys tried: '' @ tl_int T (sint processed) @ '' ('' @
       kps_text T (uint processed) elapsed @ ''k/s avg) | Hits: '' @ tl_int T (sint hits) @ ''   '') u"

definition SearchProgress :: "'f text_lib \<Rightarrow> int \<Rightarrow> int \<Rightarrow> int \<Rightarrow> int \<Rightarrow> UI \<Rightarrow> UI" where
  "SearchProgress T now processed count elapsed u =
     search_line now (carriage @ ''Testing '' @ tl_int T count @ '' keys'' @ ellipsis @ '' '' @ tl_int T processed @
       '' ('' @ kps_text T processed elapsed @ ''k/s)   '') u"

definition PrintSummary :: "'f text_lib \<Rightarrow> int \<Rightarrow> int \<Rightarrow> 'f \<Rightarrow> UI \<Rightarrow> UI" where
  "PrintSummary T took numKeys avg u =
     PrintfOut (''Took '' @ tl_seconds_full T took @ ''s... Average '' @ tl_average T avg @ '' keys per second'' @ newline)
       (ClearProgress u)"


subsection \<open>The loaded index\<close>

definition LogFundedLoad :: "'f text_lib \<Rightarrow> 'bf Sets \<Rightarrow> int \<Rightarrow> bool \<Rightarrow> UI \<Rightarrow> UI" where
  "LogFundedLoad T sets elapsed fromCache u =
     (if ui_quiet u then u
      else
        (let source = (if fromCache then ''cache hit'' else ''parsed TSV'');
             minBal = (if MinBalanceSats sets = 0 then DefaultMinBalanceSats else MinBalanceSats sets);
             count = (\<lambda>n. tl_int T (int n))
         in PrintfErr (''  legacy '' @ count (length (sLegacy sets)) @ ''  p2sh '' @ count (length (sP2SH sets)) @
              ''  segwit '' @ count (length (sSegwitV0 sets)) @ ''  taproot '' @ count (length (sTaprootV1 sets)) @
              ''  other '' @ count (length (sOther sets)) @ ''  ('' @ count (Total sets) @ '' total)'' @ newline)
            (Section (''Funded data '' @ em_dash @ '' '' @ source @ '' ('' @ tl_seconds T 1 elapsed @ ''s, min '' @
              tl_int T (sint minBal) @ '' sats)'') u)))"

definition LogBloomBuild :: "'f text_lib \<Rightarrow> int \<Rightarrow> UI \<Rightarrow> UI" where
  "LogBloomBuild T elapsed u =
     (if ui_quiet u then u else PrintfErr (''  Bloom filters built in '' @ tl_seconds T 2 elapsed @ ''s'' @ newline) u)"

section \<open>wallets.txt\<close>

text \<open>What the environment does when a hit is logged: the failure point, the clock and its text form.\<close>

record log_env =
  le_fault :: log_fault
  le_now :: int
  le_stamp :: string

definition appendWalletHitAt ::
  "log_env \<Rightarrow> string \<Rightarrow> i64 \<Rightarrow> MatchKind \<Rightarrow> string \<Rightarrow> string \<Rightarrow> u64 \<Rightarrow> fs \<Rightarrow> bool \<times> fs" where
  "appendWalletHitAt env path keyIndex kind address wif balanceSats fs =
     (let newFile = (fs path = None) in
      if le_fault env = LogOpenFails then (False, fs)
      else if newFile \<and> le_fault env = LogChmodFails then (False, append_to (le_now env) path [] fs)
      else
        (case kindLabels kind of
           (fid, label) \<Rightarrow>
             let text = chars_bytes (wallet_record (le_stamp env) keyIndex fid label address wif balanceSats) in
             (case le_fault env of
                LogWriteFails n \<Rightarrow> (False, append_to (le_now env) path (take n text) fs)
              | LogSyncFails \<Rightarrow> (False, append_to (le_now env) path text fs)
              | _ \<Rightarrow> (True, append_to (le_now env) path text fs))))"

section \<open>A hit\<close>

definition hit_title :: "UI \<Rightarrow> bool \<Rightarrow> string" where
  "hit_title u simulated =
     (if simulated then
        (if ui_color u then colorize u ansiYellow ''WALLET FOUND'' @ colorize u ansiDim ''  [SIMULATED]''
         else ''WALLET FOUND  [SIMULATED]'')
      else if ui_color u then colorize u (ansiGreen @ ansiBold) ''WALLET FOUND''
      else ''WALLET FOUND'')"

definition hit_lines :: "'f text_lib \<Rightarrow> UI \<Rightarrow> MatchKind \<Rightarrow> string \<Rightarrow> string \<Rightarrow> u64 \<Rightarrow> i64 \<Rightarrow> bool \<Rightarrow> string list" where
  "hit_lines T u kind addr wif balanceSats keyIndex simulated =
     (case kindLabels kind of
        (fid, label) \<Rightarrow>
          ['''', frame [0xE2, 0x95, 0x94] [0xE2, 0x95, 0x97], border (hit_title u simulated),
           frame [0xE2, 0x95, 0xA0] [0xE2, 0x95, 0xA3],
           border (''Address   '' @ addr), border (''Format    '' @ fid @ '' ('' @ label @ '')''),
           border (''WIF       '' @ wif)] @
          (if balanceSats > 0 then
             (case formatBalanceSats T balanceSats of
                (btc, sats) \<Rightarrow> [border (''Balance   '' @ btc @ '' ('' @ sats @ '' sats)'')])
           else []) @
          [border (''Key #     '' @ tl_int T (sint keyIndex)), frame [0xE2, 0x95, 0x9A] [0xE2, 0x95, 0x9D]])"

text \<open>The instructions below the frame; \<open>%q\<close> puts the WIF, a base58 text, in quotes.\<close>

definition recovery_lines :: "string \<Rightarrow> string list" where
  "recovery_lines wif =
     ['''', ''Recover funds (do this on an offline or trusted machine):'', '''',
      ''  1. Install a wallet: Electrum, Sparrow, or Bitcoin Core.'',
      ''  2. Choose \"Import private key\" / \"Sweep private key\" (not \"watch-only\").'',
      ''  3. Paste the WIF above. Use mainnet; do not change the key.'',
      ''  4. Wait for sync, then send funds to a new address you control.'', '''',
      ''  Electrum: Wallet '' @ arrow @ '' Private keys '' @ arrow @ '' Import'',
      ''  Sparrow:  File '' @ arrow @ '' Import wallet '' @ arrow @ '' Import private key'',
      ''  Core:     bitcoin-cli importprivkey \"'' @ wif @ ''\" \"\" false'', '''',
      ''Security:'',
      ''  '' @ bullet @ '' Anyone with this WIF controls the funds '' @ em_dash @ '' store offline, never share.'',
      ''  '' @ bullet @ '' Prefer sweeping to a new wallet; the discovered key was public in this output.'', '''']"

text \<open>The hit is logged unless it is simulated, then printed. An address that cannot be encoded is a panic
  (\<open>None\<close>). The file error is printed with the warning.\<close>

definition PrintHit ::
  "addr_lib \<Rightarrow> 'f text_lib \<Rightarrow> (u8 list \<Rightarrow> string) \<Rightarrow> log_env \<Rightarrow> string \<Rightarrow> Wallet \<Rightarrow> MatchKind \<Rightarrow> i64 \<Rightarrow> u64 \<Rightarrow> bool \<Rightarrow>
     UI \<times> fs \<Rightarrow> (UI \<times> fs) option" where
  "PrintHit L T formatWIF env errText wallet kind keyIndex balanceSats simulated st =
     (case st of (u, fs) \<Rightarrow>
        let addr = EncodeMatchAddress L kind (Keys wallet) in
        if addr = '''' then None
        else
          (let wif = formatWIF (PrivKey wallet);
               (saved, u, fs) =
                 (if simulated then (False, u, fs)
                  else
                    (case appendWalletHitAt env walletsLogFile keyIndex kind addr wif balanceSats fs of
                       (True, fs) \<Rightarrow> (True, u, fs)
                     | (False, fs) \<Rightarrow>
                         (False, Warnf (''could not write '' @ walletsLogFile @ '': '' @ errText @ newline) u, fs)));
               u = fold PrintlnErr (hit_lines T u kind addr wif balanceSats keyIndex simulated) u;
               u = (if saved then PrintfErr (''  Saved to '' @ walletsLogFile @ newline) u else u)
           in Some (fold PrintlnErr (recovery_lines wif) u, fs)))"


section \<open>Sizes\<close>

text \<open>A size is printed in its unit: a count of 1024 bytes or more is divided by the power of 1024 below it, and
  for any 64-bit count that power is at most the sixth, so the unit letter exists; nothing panics.\<close>

theorem formatBytes_unit:
  assumes "n < 2 ^ 63"
  shows "formatBytes T n =
    (if n < 1024 then Some (show_int n @ '' B'')
     else Some (tl_ratio T n (1024 ^ Suc (snd (formatBytes_loop (n div 1024) 1024 0))) @ '' '' @
       [''KMGTPE'' ! snd (formatBytes_loop (n div 1024) 1024 0)] @ ''B'')) \<and>
    (n \<ge> 1024 \<longrightarrow> snd (formatBytes_loop (n div 1024) 1024 0) < 6 \<and>
      1024 ^ Suc (snd (formatBytes_loop (n div 1024) 1024 0)) \<le> n \<and>
      n < 1024 ^ Suc (Suc (snd (formatBytes_loop (n div 1024) 1024 0))))"
  using formatBytes_loop_unit [OF assms] by (cases "n < 1024") (auto simp: formatBytes_def split: prod.splits)

section \<open>The progress bar\<close>

text \<open>A count that is not negative fills between none and all of the 24 blocks, whatever the size and the rounding.\<close>

lemma bar_fits:
  assumes "0 \<le> current" "0 < outOf" "share = float64 (float64 (of_int current) / float64 (of_int outOf))"
  shows "0 \<le> float_int (float64 ((if share > 1 then 1 else share) * 24)) \<and>
    float_int (float64 ((if share > 1 then 1 else share) * 24)) \<le> 24"
proof -
  let ?f = "if share > 1 then 1 else share"
  have "0 \<le> share" unfolding assms(3) using assms(1,2) by (intro float64_nonneg divide_nonneg_nonneg) simp_all
  then have "0 \<le> ?f * 24" "?f * 24 \<le> of_nat 24" by auto
  then show ?thesis using float_int_bounds [of "float64 (?f * 24)" 24] float64_nonneg float64_upper [of "?f * 24" 24] by simp
qed

lemma progress_text_defined:
  assumes "0 \<le> current \<or> outOf \<le> 0" "formatBytes T current \<noteq> None" "formatBytes T outOf \<noteq> None"
  shows "\<exists>s. progress_text T u label current outOf = Some s"
proof (cases "0 < outOf")
  case True
  let ?share = "float64 (float64 (of_int current) / float64 (of_int outOf))"
  let ?filled = "float_int (float64 ((if ?share > 1 then 1 else ?share) * 24))"
  have "0 \<le> ?filled" "?filled \<le> 24" using bar_fits [OF _ True refl, of current] assms(1) True by simp_all
  then obtain full light where bar: "repeat_or_panic block_full ?filled = Some full"
    "repeat_or_panic block_light (24 - ?filled) = Some light"
    by (simp add: repeat_or_panic_def del: if_split)
  obtain a b where "formatBytes T current = Some a" "formatBytes T outOf = Some b" using assms(2,3) by blast
  then show ?thesis unfolding progress_text_def Let_def bar using True by simp
next
  case False
  then show ?thesis using assms(2) by (auto simp: progress_text_def)
qed

text \<open>A file of 2000 bytes of which 3000 have been read: the bar is full. Without the bound on the share it would have 36
  blocks, and the rest a negative count.\<close>

lemma bar_of_grown_file:
  "progress_text T u label 3000 2000 = Some (carriage @ label @ '' '' @ strings_Repeat block_full 24 @ '' '' @
     tl_percent T 100 @ ''% ('' @ tl_ratio T 3000 1024 @ '' KB / '' @ tl_ratio T 2000 1024 @ '' KB)   '')"
proof -
  have f: "float64 (float64 3000 / float64 2000) = 3 / 2" "float64 24 = 24" "float64 100 = 100"
    "float_int (float64 (float64 (float64 3000 / float64 2000) * 24)) = 36" by code_simp+
  have "float_int 24 = 24" by (simp add: float_int_def)
  then show ?thesis
    by (simp add: progress_text_def repeat_or_panic_def f formatBytes_def Let_def strings_Repeat_def formatBytes_loop.simps)
qed

section \<open>The frame of a hit\<close>

lemma truncateString_length: "length (truncateString s m) = min (length s) m"
  by (auto simp: truncateString_def)

lemma length_strings_Repeat [simp]: "length (strings_Repeat s n) = n * length s"
  by (induction n) (simp_all add: strings_Repeat_def)

lemma border_length: "length (border s) = 66"
  using truncateString_length [of s 58]
  by (simp add: border_def Let_def bar_double_def utf8_def)

text \<open>The WIF of a compressed main-net key is 52 characters: the frame has no room for it.\<close>

theorem frame_cuts_wif:
  assumes "length wif = 52"
  shows "border (''WIF       '' @ wif) = bar_double @ ''  WIF       '' @ take 45 wif @ ''...'' @ bar_double"
  using assms by (simp add: border_def truncateString_def Let_def strings_Repeat_def)

section \<open>Amounts\<close>

lemma length_show_nat: "n < 10 ^ k \<Longrightarrow> 0 < k \<Longrightarrow> length (show_nat n) \<le> k"
proof (induction n arbitrary: k rule: show_nat.induct)
  case (1 n)
  show ?case
  proof (cases "n < 10")
    case False
    then obtain j where j: "k = Suc j" "0 < j" using "1.prems" by (cases k; cases "k - 1") auto
    then have "n div 10 < 10 ^ j" using "1.prems" by (simp add: less_mult_imp_div_less mult.commute)
    then show ?thesis using 1(1) [OF False, of j] j False by (simp add: show_nat.simps [of n])
  qed (use 1 in \<open>simp add: show_nat.simps [of n]\<close>)
qed

lemma decimal_value_append: "decimal_value (s @ t) = decimal_value s * 10 ^ length t + decimal_value t"
proof (induction t rule: rev_induct)
  case (snoc c t)
  then show ?case
    using decimal_value_snoc [of "s @ t" c] decimal_value_snoc [of t c] by (simp add: algebra_simps)
qed (simp add: decimal_value_def)

lemma decimal_value_zeros: "decimal_value (replicate k CHR ''0'') = 0"
  by (induction k) (simp_all add: decimal_value_def digit_val_def)

lemma show_padded_digits:
  assumes "n < 10 ^ w" "0 < w"
  shows "length (show_padded w n) = w" "decimal_value (show_padded w n) = n" "\<forall>c \<in> set (show_padded w n). is_digit c"
  using length_show_nat [OF assms] decimal_value_show [of n] show_nat_digits [of n]
  by (auto simp: show_padded_def decimal_value_append decimal_value_zeros is_digit_def)

text \<open>An amount is printed exactly: the whole coins, a point and eight digits, which together are the digits of
  the number of satoshis.\<close>

theorem printed_amount_exact:
  "\<exists>w f. fst (formatBalanceSats T sats) = w @ ''.'' @ f @ '' BTC'' \<and> length f = 8 \<and>
    (\<forall>c \<in> set (w @ f). is_digit c) \<and> decimal_value (w @ f) = unat sats"
proof -
  let ?w = "show_nat (unat (sats div 100000000))" and ?f = "show_padded 8 (unat (sats mod 100000000))"
  have "unat (sats mod 100000000) < 10 ^ 8" by (simp add: unat_mod)
  note f = show_padded_digits [OF this zero_less_numeral]
  have "length ?f = 8" "decimal_value ?f = unat (sats mod 100000000)" by (fact f)+
  then have "decimal_value (?w @ ?f) = unat sats"
    unfolding decimal_value_append decimal_value_show by (simp add: unat_mod unat_div)
  then show ?thesis using f show_nat_digits [of "unat (sats div 100000000)"]
    by (intro exI [of _ ?w] exI [of _ ?f]) (auto simp: formatBalanceSats_def)
qed

section \<open>One log, two writers\<close>

lemma kindLabels_id: "fst (kindLabels kind) = MatchKindName kind"
  by (cases kind) (simp_all add: kindLabels_def)

lemma kindLabels_known: "kind \<noteq> MatchKindOther \<Longrightarrow> kindFromFormatID (MatchKindName kind) = kindLabels kind"
  by (cases kind) (simp_all add: kindLabels_def kindFromFormatID_def)

text \<open>The main program and the coordinator write the same log: for every kind a match can have, appending a hit
  locally leaves the file, and reports the failure, that appending it from the identifier a worker posts does.\<close>

theorem logs_agree:
  assumes "kind \<noteq> MatchKindOther"
  shows "appendWalletHitAt env path keyIndex kind address wif balanceSats fs =
    (case kindFromFormatID (MatchKindName kind) of
       (fid, label) \<Rightarrow> appendWalletHit (le_fault env) (le_now env) (le_stamp env) path keyIndex fid label address wif
         balanceSats fs)"
  by (simp add: kindLabels_known [OF assms] appendWalletHitAt_def appendWalletHit_def Let_def split: prod.split log_fault.split)

end
