(* ===== verification/Reporter.thy ===== *)
theory Reporter
  imports Download Text
begin

text \<open>
  funded/reporter.go, and what \<open>EnsureTSV\<close>, \<open>Load\<close> and \<open>BuildBlooms\<close> report while they work. A reporter is a
  record of functions on the state of its terminal. The reporting operations are the operations of the theories
  \<open>Download\<close> and \<open>Load\<close> with that state threaded through; the outcome is theirs whatever the reporter does.
\<close>

section \<open>The interface\<close>

record ('bf, 'u) Reporter =
  rep_Section :: "string \<Rightarrow> 'u \<Rightarrow> 'u"
  rep_Infof :: "string \<Rightarrow> 'u \<Rightarrow> 'u"
  rep_Warnf :: "string \<Rightarrow> 'u \<Rightarrow> 'u"
  rep_PrintfErr :: "string \<Rightarrow> 'u \<Rightarrow> 'u"
  rep_PrintlnErr :: "string \<Rightarrow> 'u \<Rightarrow> 'u"
  rep_Progress :: "int \<Rightarrow> string \<Rightarrow> i64 \<Rightarrow> i64 \<Rightarrow> 'u \<Rightarrow> 'u"
  rep_ProgressIndeterminate :: "int \<Rightarrow> string \<Rightarrow> 'u \<Rightarrow> 'u"
  rep_ClearProgress :: "'u \<Rightarrow> 'u"
  rep_LogFundedLoad :: "'bf Sets \<Rightarrow> int \<Rightarrow> bool \<Rightarrow> 'u \<Rightarrow> 'u"
  rep_LogBloomBuild :: "'bf Sets \<Rightarrow> int \<Rightarrow> 'u \<Rightarrow> 'u"
  rep_Quiet :: "'u \<Rightarrow> bool"
  rep_Verbose :: "'u \<Rightarrow> bool"

text \<open>A progress call carries the time at which it is made.\<close>

definition NopReporter :: "('bf, 'u) Reporter" where
  "NopReporter = \<lparr>rep_Section = (\<lambda>_ u. u), rep_Infof = (\<lambda>_ u. u), rep_Warnf = (\<lambda>_ u. u),
     rep_PrintfErr = (\<lambda>_ u. u), rep_PrintlnErr = (\<lambda>_ u. u), rep_Progress = (\<lambda>_ _ _ _ u. u),
     rep_ProgressIndeterminate = (\<lambda>_ _ u. u), rep_ClearProgress = (\<lambda>u. u),
     rep_LogFundedLoad = (\<lambda>_ _ _ u. u), rep_LogBloomBuild = (\<lambda>_ _ u. u),
     rep_Quiet = (\<lambda>_. True), rep_Verbose = (\<lambda>_. False)\<rparr>"

text \<open>A nil reporter is replaced by one that does nothing.\<close>

definition some_reporter :: "('bf, 'u) Reporter option \<Rightarrow> ('bf, 'u) Reporter" where
  "some_reporter rep = (case rep of None \<Rightarrow> NopReporter | Some R \<Rightarrow> R)"

text \<open>The printed forms of times, floats and errors, and what the filter package says of a filter.\<close>

record 'bf rep_text =
  rt_local :: "int \<Rightarrow> string"
  rt_utc :: "int \<Rightarrow> string"
  rt_ratio :: "int \<Rightarrow> int \<Rightarrow> string"
  rt_seconds1 :: "int \<Rightarrow> string"
  rt_seconds :: "int \<Rightarrow> string"
  rt_error :: "download_error \<Rightarrow> string"
  rt_cacheError :: "cache_error \<Rightarrow> string"
  rt_Cap :: "'bf \<Rightarrow> nat"
  rt_K :: "'bf \<Rightarrow> nat"
  rt_fp :: "nat \<Rightarrow> nat \<Rightarrow> nat \<Rightarrow> string"

text \<open>\<open>formatBytes\<close> of this package, on 64 bits.\<close>

definition funded_formatBytes :: "(int \<Rightarrow> int \<Rightarrow> string) \<Rightarrow> i64 \<Rightarrow> string" where
  "funded_formatBytes ratio n =
     (if sint n < 1024 then show_int (sint n) @ '' B''
      else
        (case formatBytes_loop (sint n div 1024) 1024 0 of
           (unit, level) \<Rightarrow> ratio (sint n) unit @ '' '' @ [''KMGTPE'' ! level] @ ''B''))"

text \<open>The index is in range for every 64-bit size.\<close>

lemma funded_unit_in_range:
  "sint (n :: i64) \<ge> 1024 \<Longrightarrow> snd (formatBytes_loop (sint n div 1024) 1024 0) < length ''KMGTPE''"
  using formatBytes_loop_unit [of "sint n"] sint_lt [of n] by force

section \<open>Keeping funded.tsv up to date\<close>

definition DownloadURL :: string where
  "DownloadURL = ''http://addresses.loyce.club/blockchair_bitcoin_addresses_and_balance_LATEST.tsv.gz''"

text \<open>The clock of one call of \<open>EnsureTSV\<close>: the absolute path, when the check begins and how many milliseconds it
  takes, when the copy begins, and the time after each of its reads.\<close>

record ensure_clock =
  ec_abs :: "string option"
  ec_check :: int
  ec_head :: int
  ec_copyStart :: int
  ec_copy :: "nat \<Rightarrow> int"

definition reportGap :: int where "reportGap = 200 * 1000000"

fun copy_reported ::
  "('bf, 'u) Reporter \<Rightarrow> (nat \<Rightarrow> int) \<Rightarrow> nat \<Rightarrow> int \<Rightarrow> copy_step list \<Rightarrow> nat \<Rightarrow> u8 list \<Rightarrow> 'u \<Rightarrow>
     (nat \<times> u8 list \<times> copy_error option) \<times> 'u" where
  "copy_reported R clock k lastReport [] written dst u = ((written, dst, None), u)"
| "copy_reported R clock k lastReport (c # cs) written dst u =
     (let n = length (cs_chunk c);
          written' = (if n > 0 then written + cs_wn c else written);
          dst' = (if n > 0 then dst @ take (cs_wn c) (cs_chunk c) else dst)
      in if n > 0 \<and> cs_werr c then ((written', dst', Some CopyWriteErr), u)
         else if n > 0 \<and> cs_wn c \<noteq> n then ((written', dst', Some ShortWrite), u)
         else
           (let due = (n > 0 \<and> clock k - lastReport \<ge> reportGap);
                u = (if due then rep_Progress R (clock k) ''Decompressing'' (of_nat written') 0 u else u);
                lastReport = (if due then clock k else lastReport)
            in case cs_end c of
                 None \<Rightarrow> copy_reported R clock (Suc k) lastReport cs written' dst' u
               | Some ReadEOF \<Rightarrow> ((written', dst', None), u)
               | Some ReadFail \<Rightarrow> ((written', dst', Some CopyReadErr), u)))"

lemma copy_reported_fst: "fst (copy_reported R clock k lastReport cs written dst u) = copyWithProgress cs written dst"
  by (induction cs arbitrary: k lastReport written dst u)
    (simp_all add: Let_def split: option.split read_end.split)

text \<open>A download. The temporary file is created before the copy begins.\<close>

definition downloadTSV_reported ::
  "('bf, 'u) Reporter \<Rightarrow> 'bf rep_text \<Rightarrow> ensure_clock \<Rightarrow> web \<Rightarrow> io_fault \<Rightarrow> bool \<Rightarrow> int \<Rightarrow> fs \<Rightarrow> 'u \<Rightarrow>
     (download_error option \<times> fs) \<times> 'u" where
  "downloadTSV_reported R X clk w fault removeFails now fs u =
     (let u = rep_Infof R (''  Source: '' @ DownloadURL @ newline) u;
          u = (if rep_Verbose R u
               then rep_Infof R (''  note: will remove '' @ DefaultCacheFile @ '' after download'' @ newline) u else u)
      in case w_get w of
           GetFails \<Rightarrow> ((Some DownloadFailed, fs), u)
         | GetResponse status body \<Rightarrow>
             if status \<noteq> 200 then ((Some (DownloadStatus status), fs), u)
             else
               (case body of
                  None \<Rightarrow> ((Some GzipFailed, fs), u)
                | Some steps \<Rightarrow>
                    if fault = CreateFails then ((Some TempCreateFailed, fs), u)
                    else
                      (let ((written, d, copyErr), u) =
                             copy_reported R (ec_copy clk) 0 (ec_copyStart clk) steps 0 [] u;
                           u = rep_ClearProgress R u
                       in case install_tsv fault now steps fs of
                          (Some e, fs) \<Rightarrow> ((Some e, fs), u)
                        | (None, fs) \<Rightarrow>
                            let fs = (case remoteLastModified (w_parse_time w) (w_head_after w) of
                                Inl e \<Rightarrow> fs
                              | Inr remoteMod \<Rightarrow> fs(DefaultTSVFile :=
                                  map_option (f_mtime_update (\<lambda>_. remoteMod)) (fs DefaultTSVFile)));
                                (rmErr, fs) = RemoveDefaultCache removeFails fs;
                                u = (case rmErr of None \<Rightarrow> u
                                  | Some e \<Rightarrow> rep_Warnf R (''could not remove '' @ DefaultCacheFile @ '': '' @
                                      rt_cacheError X e @ newline) u)
                            in ((None, fs), rep_Infof R (''  Saved '' @ DefaultTSVFile @ '' ('' @
                                 funded_formatBytes (rt_ratio X) (of_nat written) @ '')'' @ newline) u))))"

lemma install_create: "install_tsv CreateFails now steps fs = (Some TempCreateFailed, fs)"
  by (simp add: install_tsv_def)

lemma downloadTSV_reported_fst:
  "fst (downloadTSV_reported R X clk w fault rf now fs u) = downloadTSV w fault rf now fs"
  by (simp add: downloadTSV_reported_def downloadTSV_def install_create Let_def
      split: get_result.split option.split prod.split)

definition logLocalFundedFile :: "('bf, 'u) Reporter \<Rightarrow> 'bf rep_text \<Rightarrow> os_file \<Rightarrow> 'u \<Rightarrow> 'u" where
  "logLocalFundedFile R X info u =
     rep_Infof R (''  '' @ DefaultTSVFile @ ''  '' @ funded_formatBytes (rt_ratio X) (of_nat (length (f_data info))) @
       ''  modified '' @ rt_utc X (f_mtime info) @ newline) u"

definition EnsureTSV_reported ::
  "('bf, 'u) Reporter option \<Rightarrow> 'bf rep_text \<Rightarrow> ensure_clock \<Rightarrow> web \<Rightarrow> bool \<Rightarrow> io_fault \<Rightarrow> bool \<Rightarrow> int \<Rightarrow> fs \<Rightarrow> 'u \<Rightarrow>
     (download_error option \<times> fs) \<times> 'u" where
  "EnsureTSV_reported rep X clk w statFails fault removeFails now fs u =
     (let R = some_reporter rep in
      case fs DefaultTSVFile of
        None \<Rightarrow>
          if statFails then ((Some StatError, fs), u)
          else
            (let u = (if rep_Quiet R u then rep_PrintfErr R (''funded.tsv not found, downloading...'' @ newline) u
                 else rep_Section R ''Downloading funded.tsv'' u)
             in downloadTSV_reported R X clk w fault removeFails now fs u)
      | Some info \<Rightarrow>
          if statFails then ((Some StatError, fs), u)
          else
            (let u = (if \<not> rep_Quiet R u then
                   (let u = logLocalFundedFile R X info (rep_Section R ''Funded data check'' u) in
                    if rep_Verbose R u then
                      (let u = (case ec_abs clk of None \<Rightarrow> u
                            | Some path \<Rightarrow> rep_Infof R (''  path: '' @ path @ newline) u)
                       in rep_Infof R (''  remote URL: '' @ DownloadURL @ newline) u)
                    else u)
                 else u);
                 u = rep_ProgressIndeterminate R (ec_check clk) (''Checking for updates'' @ ellipsis) u;
                 u = rep_ClearProgress R u
             in case remoteLastModified (w_parse_time w) (w_head w) of
                  Inl err \<Rightarrow>
                    let u = rep_Warnf R (''could not check for updates ('' @ rt_error X err @ ''), using local file'' @
                          newline) u
                    in ((None, fs), if \<not> rep_Quiet R u then rep_Infof R (''  Using local file'' @ newline) u else u)
                | Inr remoteMod \<Rightarrow>
                    let u = (if \<not> rep_Quiet R u then
                          (let u = (if rep_Verbose R u
                               then rep_Infof R (''  HEAD request: '' @ show_int (ec_head clk) @ ''ms'' @ newline) u else u)
                           in rep_Infof R (''  remote      '' @ rt_utc X remoteMod @ newline) u)
                        else u)
                    in if f_mtime info < remoteMod then
                         (let u = rep_PrintfErr R (''funded.tsv is out of date (local: '' @ rt_local X (f_mtime info) @
                                '', remote: '' @ rt_utc X remoteMod @ '')'' @ newline) u;
                              u = (if rep_Verbose R u then rep_Infof R (''  note: download will remove '' @
                                DefaultCacheFile @ newline) u else u);
                              u = rep_PrintfErr R ''Download update? [y/N]: '' u
                          in if says_yes (w_answer w) then downloadTSV_reported R X clk w fault removeFails now fs u
                             else ((None, fs), rep_PrintlnErr R ''Using existing funded.tsv'' u))
                       else ((None, fs), if \<not> rep_Quiet R u
                         then rep_Infof R (''  Up to date '' @ em_dash @ '' using local file'' @ newline) u else u)))"

lemma fst_LetI: "(\<And>v. fst (f v) = c) \<Longrightarrow> fst (Let a f) = c"
  by (simp add: Let_def)

lemma EnsureTSV_reported_fst:
  "fst (EnsureTSV_reported rep X clk w sf fault rf now fs u) = EnsureTSV w sf fault rf now fs"
  unfolding EnsureTSV_reported_def EnsureTSV_def
  by (intro fst_LetI)
    (auto simp: downloadTSV_reported_fst intro!: fst_LetI split: option.split sum.split)

section \<open>Building the filters\<close>

definition logBloomBucket ::
  "('bf, 'u) Reporter \<Rightarrow> 'bf rep_text \<Rightarrow> string \<Rightarrow> 'bf option \<Rightarrow> nat \<Rightarrow> 'u \<Rightarrow> 'u" where
  "logBloomBucket R X name bf entries u =
     (case bf of
        None \<Rightarrow> u
      | Some f \<Rightarrow> rep_PrintfErr R (''    '' @ name @ '': '' @ show_nat entries @ '' entries, '' @ show_nat (rt_Cap X f) @
          '' bits, '' @ show_nat (rt_K X f) @ '' hashes, est FP '' @ rt_fp X (rt_Cap X f) (rt_K X f) entries @
          newline) u)"

definition BuildBlooms_reported ::
  "('bf, 'u) Reporter option \<Rightarrow> 'bf rep_text \<Rightarrow> int \<Rightarrow> 'bf bloom_lib \<Rightarrow> 'bf Sets \<Rightarrow> 'u \<Rightarrow> 'bf Sets \<times> 'u" where
  "BuildBlooms_reported rep X elapsed B s u =
     (let s = BuildBlooms B s in
      case rep of
        None \<Rightarrow> (s, u)
      | Some R \<Rightarrow>
          let u = rep_LogBloomBuild R s elapsed u in
          if rep_Verbose R u then
            (let u = rep_PrintlnErr R ''Bloom filter details:'' u;
                 u = logBloomBucket R X ''legacy'' (LegacyBloom s) (length (sLegacy s)) u;
                 u = logBloomBucket R X ''p2sh'' (P2SHBloom s) (length (sP2SH s)) u;
                 u = logBloomBucket R X ''segwit'' (SegwitV0Bloom s) (length (sSegwitV0 s)) u
             in (s, logBloomBucket R X ''taproot'' (TaprootV1Bloom s) (length (sTaprootV1 s)) u))
          else (s, u))"

definition EnsureBlooms_reported ::
  "('bf, 'u) Reporter option \<Rightarrow> 'bf rep_text \<Rightarrow> int \<Rightarrow> 'bf bloom_lib \<Rightarrow> 'bf Sets \<Rightarrow> 'u \<Rightarrow> 'bf Sets \<times> 'u" where
  "EnsureBlooms_reported rep X elapsed B s u =
     (if bloomsComplete s then (s, u) else BuildBlooms_reported rep X elapsed B s u)"

lemma EnsureBlooms_reported_fst: "fst (EnsureBlooms_reported rep X elapsed B s u) = EnsureBlooms B s"
  by (simp add: EnsureBlooms_reported_def EnsureBlooms_def BuildBlooms_reported_def Let_def split: option.split)

section \<open>Loading\<close>

text \<open>The clock of one load: when parsing begins and the time and the bytes read at each line, when the sorting and
  an upgrade begin, and how long the sorting, the filters and the whole load take. The bytes read are an \<open>int64\<close> that
  starts at zero and grows by the count of each read: it is never negative, and has 63 bits.\<close>

record load_clock =
  lc_parseStart :: int
  lc_line :: "nat \<Rightarrow> int"
  lc_read :: "nat \<Rightarrow> 63 word"
  lc_sort :: int
  lc_upgrade :: int
  lc_sorted :: int
  lc_blooms :: int
  lc_elapsed :: int

fun parse_loop_reported ::
  "('bf, 'u) Reporter \<Rightarrow> load_clock \<Rightarrow> i64 \<Rightarrow> addr_lib \<Rightarrow> nat \<Rightarrow> int \<Rightarrow> string list \<Rightarrow> Builder \<Rightarrow> 'u \<Rightarrow> Builder \<times> 'u" where
  "parse_loop_reported R clk fileSize L k lastProgress [] b u = (b, u)"
| "parse_loop_reported R clk fileSize L k lastProgress (line # lines) b u =
     (let due = (lc_line clk k - lastProgress \<ge> reportGap);
          u = (if due then rep_Progress R (lc_line clk k) ''Parsing funded.tsv'' (ucast (lc_read clk k)) fileSize u else u)
      in parse_loop_reported R clk fileSize L (Suc k) (if due then lc_line clk k else lastProgress) lines
           (case ParseTSVLine line of None \<Rightarrow> b | Some row \<Rightarrow> Add L row b) u)"

lemma parse_loop_fst:
  "fst (parse_loop_reported R clk fileSize L k lastProgress lines b u) =
    fold (\<lambda>line b. case ParseTSVLine line of None \<Rightarrow> b | Some row \<Rightarrow> Add L row b) lines b"
  by (induction lines arbitrary: k lastProgress b u) (simp_all add: Let_def)

definition parseTSV_reported ::
  "('bf, 'u) Reporter \<Rightarrow> load_clock \<Rightarrow> i64 \<Rightarrow> addr_lib \<Rightarrow> tsv_fault \<Rightarrow> u64 \<Rightarrow> string \<Rightarrow> 'u \<Rightarrow> (load_error + 'bf Sets) \<times> 'u" where
  "parseTSV_reported R clk fileSize L fault minBalance content u =
     (if fault = TsvOpenFails then (Inl OpenFailed, u)
      else
        (let content = (case fault of TsvReadFails n \<Rightarrow> take n content | _ \<Rightarrow> content);
             (lines, tooLong) = scan_lines content;
             (builder, u) = parse_loop_reported R clk fileSize L 0 (lc_parseStart clk) (drop 1 lines)
               (NewBuilder minBalance) u;
             u = rep_ClearProgress R u
         in if tooLong then (Inl TokenTooLong, u)
            else if fault \<noteq> TsvOk then (Inl ReadFailed, u)
            else (Inr (Build builder), u)))"

lemma parseTSV_reported_fst:
  "fst (parseTSV_reported R clk fileSize L fault m content u) = read_tsv L fault m content"
  by (cases fault)
    (simp_all add: parseTSV_reported_def read_tsv_def parseTSV_def parse_loop_fst Let_def case_prod_unfold)

definition Load_reported ::
  "('bf, 'u) Reporter option \<Rightarrow> 'bf rep_text \<Rightarrow> load_clock \<Rightarrow> addr_lib \<Rightarrow> 'bf bloom_lib \<Rightarrow> load_env \<Rightarrow> LoadOpts \<Rightarrow>
     fs \<Rightarrow> mapping \<Rightarrow> 'u \<Rightarrow> ((load_failure + 'bf Sets) \<times> fs \<times> mapping) \<times> 'u" where
  "Load_reported rep X clk L B env opts fs act u =
     (let R = some_reporter rep; minBalance = load_min opts; cachePath = CachePath minBalance in
      case fs (load_path opts) of
        None \<Rightarrow> ((Inl StatFailed, fs, act), u)
      | Some tsv \<Rightarrow>
          let srcMtime = f_mtime tsv;
              u = rep_Section R ''Loading funded wallets'' u
          in (case load_cache B env fs srcMtime minBalance act of
                (Inr sets, act) \<Rightarrow>
                  if \<not> bloomsComplete sets then
                    (let u = rep_ProgressIndeterminate R (lc_upgrade clk) ''Upgrading cache (building bloom filters)'' u;
                         (sets, u) = EnsureBlooms_reported (Some R) X (lc_blooms clk) B sets u;
                         u = rep_ClearProgress R u;
                         (err, fs) = WriteCache B (e_writeFault env) (e_now env) (cachePath, sets, srcMtime) fs;
                         u = (case err of None \<Rightarrow> u
                           | Some e \<Rightarrow> rep_Warnf R (''could not upgrade cache: '' @ rt_cacheError X e @ newline) u)
                     in ((Inr sets, fs, act), rep_LogFundedLoad R sets (lc_elapsed clk) True u))
                  else ((Inr sets, fs, act), rep_LogFundedLoad R sets (lc_elapsed clk) True u)
              | (Inl cacheErr, act) \<Rightarrow>
                  (case parseTSV_reported R clk (of_nat (length (f_data tsv))) L (e_tsvFault env) minBalance
                       (bytes_chars (f_data tsv)) u of
                     (Inl err, u) \<Rightarrow> ((Inl (ParseFailed err), fs, act), u)
                   | (Inr sets, u) \<Rightarrow>
                       let u = rep_ProgressIndeterminate R (lc_sort clk) ''Sorting funded wallets'' u;
                           sets = Sets_Sort sets;
                           u = rep_Infof R (''  Sorted in '' @ rt_seconds X (lc_sorted clk) @ ''s'' @ newline)
                             (rep_ClearProgress R u);
                           (sets, u) = EnsureBlooms_reported (Some R) X (lc_blooms clk) B sets u;
                           (err, fs) = WriteCache B (e_writeFault env) (e_now env) (cachePath, sets, srcMtime) fs;
                           u = (case err of
                               Some e \<Rightarrow> rep_Warnf R (''could not write cache: '' @ rt_cacheError X e @ newline) u
                             | None \<Rightarrow> rep_Infof R (''  Wrote '' @ cachePath @ newline) u)
                       in ((Inr sets, fs, act), rep_LogFundedLoad R sets (lc_elapsed clk) False u))))"

lemma Load_reported_fst: "fst (Load_reported rep X clk L B env opts fs act u) = Load L B env opts fs act"
proof (cases "fs (load_path opts)")
  case (Some tsv)
  obtain c act' where c: "load_cache B env fs (f_mtime tsv) (load_min opts) act = (c, act')" by (rule prod.exhaust)
  show ?thesis
  proof (cases c)
    case (Inl e)
    let ?p = "parseTSV_reported (some_reporter rep) clk (of_nat (length (f_data tsv))) L (e_tsvFault env) (load_min opts)
      (bytes_chars (f_data tsv)) (rep_Section (some_reporter rep) ''Loading funded wallets'' u)"
    obtain r u1 where p: "?p = (r, u1)" by (rule prod.exhaust)
    then have "read_tsv L (e_tsvFault env) (load_min opts) (bytes_chars (f_data tsv)) = r"
      using parseTSV_reported_fst by (metis fst_conv)
    then show ?thesis
      using Some c Inl p
      by (simp add: Load_reported_def Load_def Let_def case_prod_unfold EnsureBlooms_reported_fst split: sum.split)
  next
    case (Inr s)
    then show ?thesis
      using Some c by (simp add: Load_reported_def Load_def Let_def case_prod_unfold EnsureBlooms_reported_fst)
  qed
qed (simp add: Load_reported_def Load_def Let_def)

section \<open>Samples\<close>

definition sample_text :: "u8 rep_text" where
  "sample_text = \<lparr>rt_local = (\<lambda>_. ''t''), rt_utc = (\<lambda>_. ''t''), rt_ratio = (\<lambda>_ _. ''1.0''), rt_seconds1 = (\<lambda>_. ''0.1''),
     rt_seconds = (\<lambda>_. ''0.10''), rt_error = (\<lambda>_. ''error''), rt_cacheError = (\<lambda>_. ''error''), rt_Cap = (\<lambda>_. 8),
     rt_K = (\<lambda>_. 1), rt_fp = (\<lambda>_ _ _. ''0.000100'')\<rparr>"

definition sample_clock :: ensure_clock where
  "sample_clock = \<lparr>ec_abs = None, ec_check = 0, ec_head = 0, ec_copyStart = 0, ec_copy = (\<lambda>_. 0)\<rparr>"

definition sample_load_clock :: load_clock where
  "sample_load_clock = \<lparr>lc_parseStart = 0, lc_line = (\<lambda>_. 0), lc_read = (\<lambda>_. 0), lc_sort = 0, lc_upgrade = 0,
     lc_sorted = 0, lc_blooms = 0, lc_elapsed = 0\<rparr>"

end
