(* ===== verification/ReporterLaws.thy ===== *)
theory ReporterLaws
  imports Reporter
begin

text \<open>
  What every reporter may rely on: a property of its terminal that each call of the reporter keeps (a progress line with
  a total has a count that is not negative) is kept by
  \<open>EnsureTSV\<close>, \<open>BuildBlooms\<close> and \<open>Load\<close>, however the files, the network and the clocks behave.
\<close>

locale kept_by_reporter =
  fixes R :: "('bf, 'u) Reporter" and ok :: "'u \<Rightarrow> bool"
  assumes section_keeps: "ok u \<Longrightarrow> ok (rep_Section R title u)"
    and infof_keeps: "ok u \<Longrightarrow> ok (rep_Infof R s u)"
    and warnf_keeps: "ok u \<Longrightarrow> ok (rep_Warnf R s u)"
    and printfErr_keeps: "ok u \<Longrightarrow> ok (rep_PrintfErr R s u)"
    and printlnErr_keeps: "ok u \<Longrightarrow> ok (rep_PrintlnErr R s u)"
    and progress_keeps: "ok u \<Longrightarrow> 0 \<le> sint current \<or> outOf = 0 \<Longrightarrow> ok (rep_Progress R now s current outOf u)"
    and indeterminate_keeps: "ok u \<Longrightarrow> ok (rep_ProgressIndeterminate R now s u)"
    and clear_keeps: "ok u \<Longrightarrow> ok (rep_ClearProgress R u)"
    and fundedLoad_keeps: "ok u \<Longrightarrow> ok (rep_LogFundedLoad R sets elapsed fromCache u)"
    and bloomBuild_keeps: "ok u \<Longrightarrow> ok (rep_LogBloomBuild R sets elapsed u)"
begin

lemmas call_keeps = section_keeps infof_keeps warnf_keeps printfErr_keeps printlnErr_keeps progress_keeps
  indeterminate_keeps clear_keeps fundedLoad_keeps bloomBuild_keeps

lemma read_nonneg: "0 \<le> sint (ucast (n :: 63 word) :: i64)"
  using uint_bounded [of n] by (simp add: sint_uint uint_up_ucast is_up signed_take_bit_eq_if_positive bit_uint_iff
      bit_ucast_iff)

lemma copy_keeps: "ok u \<Longrightarrow> ok (snd (copy_reported R clock k lastReport cs written dst u))"
  by (induction cs arbitrary: k lastReport written dst u)
    (simp_all add: Let_def call_keeps split: option.split read_end.split)

lemma download_keeps: "ok u \<Longrightarrow> ok (snd (downloadTSV_reported R X clk w fault rf now fs u))"
  using copy_keeps [of "rep_Infof R (''  Source: '' @ DownloadURL @ newline) u"]
    copy_keeps [of "rep_Infof R (''  note: will remove '' @ DefaultCacheFile @ '' after download'' @ newline)
      (rep_Infof R (''  Source: '' @ DownloadURL @ newline) u)"]
  by (simp add: downloadTSV_reported_def Let_def case_prod_unfold call_keeps split: get_result.split option.split)

lemma local_keeps: "ok u \<Longrightarrow> ok (logLocalFundedFile R X info u)"
  by (simp add: logLocalFundedFile_def call_keeps)

lemma branch_keeps:
  "ok a \<Longrightarrow> (\<And>v. ok v \<Longrightarrow> ok (f v)) \<Longrightarrow> ok (Let a f)"
  "ok a \<Longrightarrow> (\<And>v. ok v \<Longrightarrow> ok (snd (g v))) \<Longrightarrow> ok (snd (Let a g))"
  "ok a \<Longrightarrow> ok b \<Longrightarrow> ok (if c then a else b)"
  "ok (snd x) \<Longrightarrow> ok (snd y) \<Longrightarrow> ok (snd (if c then x else y))"
  "ok a \<Longrightarrow> (\<And>p. ok (h p)) \<Longrightarrow> ok (case q of None \<Rightarrow> a | Some p \<Rightarrow> h p)"
  "ok (snd x) \<Longrightarrow> (\<And>p. ok (snd (k p))) \<Longrightarrow> ok (snd (case q of None \<Rightarrow> x | Some p \<Rightarrow> k p))"
  "(\<And>e. ok (snd (l e))) \<Longrightarrow> (\<And>p. ok (snd (m p))) \<Longrightarrow> ok (snd (case r of Inl e \<Rightarrow> l e | Inr p \<Rightarrow> m p))"
  "ok a \<Longrightarrow> ok (snd (z, a))"
  by (simp_all add: Let_def split: option.split sum.split)

lemma ensure_keeps: "ok u \<Longrightarrow> ok (snd (EnsureTSV_reported (Some R) X clk w sf fault rf now fs u))"
  unfolding EnsureTSV_reported_def some_reporter_def option.case Let_def [of R]
  by (intro branch_keeps call_keeps local_keeps download_keeps) assumption+

lemma bucket_keeps: "ok u \<Longrightarrow> ok (logBloomBucket R X name bf entries u)"
  by (simp add: logBloomBucket_def call_keeps split: option.split)

lemma blooms_keep: "ok u \<Longrightarrow> ok (snd (EnsureBlooms_reported (Some R) X elapsed B s u))"
  by (simp add: EnsureBlooms_reported_def BuildBlooms_reported_def Let_def call_keeps bucket_keeps)

lemma count_keeps: "ok u \<Longrightarrow> ok (rep_Progress R now s (ucast (n :: 63 word)) outOf u)"
  by (rule progress_keeps) (simp_all add: read_nonneg)

lemma parse_loop_keeps: "ok u \<Longrightarrow> ok (snd (parse_loop_reported R clk fileSize L k lastProgress lines b u))"
  by (induction lines arbitrary: k lastProgress b u) (simp_all add: Let_def count_keeps)

lemma parse_keeps: "ok u \<Longrightarrow> ok (snd (parseTSV_reported R clk fileSize L fault m content u))"
  by (simp add: parseTSV_reported_def Let_def case_prod_unfold call_keeps parse_loop_keeps)

lemma load_keeps:
  assumes "ok u"
  shows "ok (snd (Load_reported (Some R) X clk L B env opts fs act u))"
proof (cases "fs (load_path opts)")
  case None
  then show ?thesis using assms by (simp add: Load_reported_def Let_def)
next
  case (Some tsv)
  obtain c act' where c: "load_cache B env fs (f_mtime tsv) (load_min opts) act = (c, act')" by (rule prod.exhaust)
  show ?thesis
  proof (cases c)
    case (Inl e)
    let ?u = "rep_Section R ''Loading funded wallets'' u"
    obtain r u1 where p: "parseTSV_reported R clk (of_nat (length (f_data tsv))) L (e_tsvFault env) (load_min opts)
        (bytes_chars (f_data tsv)) ?u = (r, u1)" by (rule prod.exhaust)
    moreover have "ok u1" using parse_keeps [of ?u] assms p by (metis section_keeps snd_conv)
    ultimately show ?thesis
      using Some c Inl
      by (simp add: Load_reported_def some_reporter_def Let_def case_prod_unfold call_keeps blooms_keep split: sum.split option.split)
  next
    case (Inr s)
    then show ?thesis
      using Some c assms
      by (simp add: Load_reported_def some_reporter_def Let_def case_prod_unfold call_keeps blooms_keep split: option.split)
  qed
qed

end

end
