(* ===== verification/MainReporter.thy ===== *)
theory MainReporter
  imports Output ReporterLaws
begin

text \<open>
  cryptogen.go: the reporter by which the main program hears of the loading. It prints on the terminal of
  \<open>Output\<close>; a panic while a progress line is printed ends the program, and the terminal is then \<open>None\<close>.
\<close>

definition mainReporter :: "'f text_lib \<Rightarrow> ('bf, UI option) Reporter" where
  "mainReporter T =
     \<lparr>rep_Section = (\<lambda>title. map_option (Section title)), rep_Infof = (\<lambda>s. map_option (Infof s)),
      rep_Warnf = (\<lambda>s. map_option (Warnf s)), rep_PrintfErr = (\<lambda>s. map_option (PrintfErr s)),
      rep_PrintlnErr = (\<lambda>s. map_option (PrintlnErr s)),
      rep_Progress = (\<lambda>now label current outOf u. Option.bind u (Progress T now label (sint current) (sint outOf))),
      rep_ProgressIndeterminate = (\<lambda>now label. map_option (ProgressIndeterminate now label)),
      rep_ClearProgress = map_option ClearProgress,
      rep_LogFundedLoad = (\<lambda>sets elapsed fromCache. map_option (LogFundedLoad T sets elapsed fromCache)),
      rep_LogBloomBuild = (\<lambda>sets elapsed. map_option (LogBloomBuild T elapsed)),
      rep_Quiet = (\<lambda>u. case u of None \<Rightarrow> True | Some v \<Rightarrow> ui_quiet v),
      rep_Verbose = (\<lambda>u. case u of None \<Rightarrow> False | Some v \<Rightarrow> ui_verbose v)\<rparr>"

text \<open>What the command line set, and what has been written to standard output.\<close>

definition ui_fixed :: "UI \<Rightarrow> bool \<times> bool \<times> bool \<times> bool \<times> string" where
  "ui_fixed u = (ui_color u, ui_quiet u, ui_verbose u, ui_tty u, ui_out u)"

lemmas ui_printing = Section_def Infof_def Warnf_def PrintfErr_def PrintlnErr_def ClearProgress_def
  ProgressIndeterminate_def LogFundedLoad_def LogBloomBuild_def spin_def

lemma printing_fixed:
  "ui_fixed (Section s u) = ui_fixed u" "ui_fixed (Infof s u) = ui_fixed u" "ui_fixed (Warnf s u) = ui_fixed u"
  "ui_fixed (PrintfErr s u) = ui_fixed u" "ui_fixed (PrintlnErr s u) = ui_fixed u"
  "ui_fixed (ProgressIndeterminate now s u) = ui_fixed u" "ui_fixed (ClearProgress u) = ui_fixed u"
  "ui_fixed (LogFundedLoad T sets elapsed fromCache u) = ui_fixed u" "ui_fixed (LogBloomBuild T elapsed u) = ui_fixed u"
  by (simp_all add: ui_fixed_def ui_printing Let_def)

lemma size_printed: "\<exists>s. formatBytes T (sint (n :: i64)) = Some s"
  using formatBytes_unit [of "sint n" T] sint_lt [of n] by (auto split: if_splits)

lemma progress_fixed:
  assumes "0 \<le> sint current \<or> outOf = 0"
  shows "\<exists>v. Progress T now label (sint (current :: i64)) (sint (outOf :: i64)) u = Some v \<and> ui_fixed v = ui_fixed u"
proof -
  let ?u = "u\<lparr>ui_lastProgressUpdate := now, ui_indeterminate := False, ui_progressActive := True\<rparr>"
  obtain s where "progress_text T ?u label (sint current) (sint outOf) = Some s"
    using progress_text_defined [of "sint current" "sint outOf" T ?u label] size_printed [of T] assms by fastforce
  then show ?thesis by (auto simp: Progress_def Let_def ui_fixed_def spin_def PrintfErr_def)
qed

lemma main_progress_fixed:
  assumes "\<exists>v. u = Some v \<and> ui_fixed v = c" "0 \<le> sint current \<or> outOf = 0"
  shows "\<exists>v. rep_Progress (mainReporter T) now label current outOf u = Some v \<and> ui_fixed v = c"
proof -
  from assms(1) obtain v where "u = Some v" "ui_fixed v = c" by blast
  then show ?thesis using progress_fixed [OF assms(2), of T now label v] by (auto simp: mainReporter_def)
qed

interpretation main_terminal: kept_by_reporter "mainReporter T" "\<lambda>u. \<exists>v. u = Some v \<and> ui_fixed v = c"
    for T :: "'f text_lib" and c
  by unfold_locales (erule main_progress_fixed, assumption | force simp: mainReporter_def printing_fixed)+

lemma ensure_main:
  "\<exists>u1. EnsureTSV_reported (Some (mainReporter T)) X clk w sf fault rf now fs (Some u) =
    (EnsureTSV w sf fault rf now fs, Some u1) \<and> ui_fixed u1 = ui_fixed u"
  using EnsureTSV_reported_fst [of "Some (mainReporter T)" X clk w sf fault rf now fs "Some u"]
    main_terminal.ensure_keeps [of "Some u" "ui_fixed u" T X clk w sf fault rf now fs] by (metis prod.collapse)

lemma load_main:
  "\<exists>u1. Load_reported (Some (mainReporter T)) X clk L B env opts fs act (Some u) =
    (Load L B env opts fs act, Some u1) \<and> ui_fixed u1 = ui_fixed u"
  using Load_reported_fst [of "Some (mainReporter T)" X clk L B env opts fs act "Some u"]
    main_terminal.load_keeps [of "Some u" "ui_fixed u" T X clk L B env opts fs act] by (metis prod.collapse)

text \<open>C39. Reporting does not disturb what is reported. Whatever the files, the network and the clocks do, \<open>EnsureTSV\<close> and
  \<open>Load\<close> with the main program's reporter have the outcome they have without one, and no report panics: for every
  size, a 64-bit number, the unit exists, and a progress bar has between 0 and 24 filled blocks, also when more bytes
  have been read than the file was long. Nothing is written to standard output, and the settings of the terminal stay.\<close>

theorem loading_keeps_terminal:
  "\<exists>u1 u2. EnsureTSV_reported (Some (mainReporter T)) X clk w sf fault rf now fs (Some u) =
      (EnsureTSV w sf fault rf now fs, Some u1) \<and>
    Load_reported (Some (mainReporter T)) X lclk L B env opts fs' act (Some u1) = (Load L B env opts fs' act, Some u2) \<and>
    ui_fixed u1 = ui_fixed u \<and> ui_fixed u2 = ui_fixed u"
  using ensure_main load_main by metis

end
