(* ===== verification/Search.thy ===== *)
theory Search
  imports Process
begin

text \<open>
  search/workers.go and the bounded run of search/run.go. A worker fills batches of 128 wallets; the
  channel delivers the batches of all workers in some order. A run is driven by what happens to it:
  a list of turns, each with the state of the context, the batch received and the clock. A run that
  needs another batch when the list ends is waiting (\<open>None\<close>).
\<close>

section \<open>Workers\<close>

definition KeyBatchSize :: nat where "KeyBatchSize = 128"

text \<open>One worker: the batches it sends for the keys it draws, and the batch it is filling. A failed
  draw is a panic (\<open>None\<close>).\<close>

fun workerLoop ::
  "('priv, 'pub) crypto_lib \<Rightarrow> 'bf bloom_lib \<Rightarrow> 'bf Sets \<Rightarrow> FormatMask \<Rightarrow> 'priv option list \<Rightarrow>
     Wallet list \<Rightarrow> (Wallet list list \<times> Wallet list) option" where
  "workerLoop C B s fm [] batch = Some ([], batch)"
| "workerLoop C B s fm (d # ds) batch =
     (case genWalletStaged C B d s fm of
        None \<Rightarrow> None
      | Some w \<Rightarrow>
          let batch' = batch @ [w] in
          if length batch' \<ge> KeyBatchSize then
            map_option (\<lambda>(sent, rest). (batch' # sent, rest)) (workerLoop C B s fm ds [])
          else workerLoop C B s fm ds batch')"

lemma workerLoop_batches:
  assumes "workerLoop C B s fm ds batch = Some (sent, rest)" "length batch < KeyBatchSize"
  shows "(\<forall>b \<in> set sent. length b = KeyBatchSize) \<and> length rest < KeyBatchSize \<and>
    map Some (concat sent @ rest) = map Some batch @ map (\<lambda>d. genWalletStaged C B d s fm) ds"
  using assms
proof (induction ds arbitrary: batch sent)
  case (Cons d ds)
  then obtain w where w: "genWalletStaged C B d s fm = Some w" by (auto split: option.splits)
  show ?case
  proof (cases "length (batch @ [w]) \<ge> KeyBatchSize")
    case True
    then obtain sent' where "workerLoop C B s fm ds [] = Some (sent', rest)" "sent = (batch @ [w]) # sent'"
      using Cons.prems w by auto
    with Cons.IH [of "[]" sent'] True Cons.prems(2) w show ?thesis by (simp add: KeyBatchSize_def)
  next
    case False
    then have "workerLoop C B s fm ds (batch @ [w]) = Some (sent, rest)" using Cons.prems w by simp
    from Cons.IH [OF this] False w show ?thesis by simp
  qed
qed simp

section \<open>The bounded run\<close>

record Stats =
  KeysProcessed :: u64
  Hits :: u64

definition zero_Stats :: Stats where "zero_Stats = \<lparr>KeysProcessed = 0, Hits = 0\<rparr>"

text \<open>What a turn of the receiving loop sees: the context before the receive, the receive itself, and
  the clock after the batch (nanoseconds).\<close>

datatype recv = CtxDone | Batch "Wallet list"

record turn =
  t_done :: bool
  t_recv :: recv
  t_now :: int

definition progressGap :: int where "progressGap = 100 * 1000000"

text \<open>The wallets of one batch, up to the limit.\<close>

fun bounded_batch ::
  "addr_lib \<Rightarrow> 'bf bloom_lib \<Rightarrow> Config \<Rightarrow> 'bf Sets \<Rightarrow> ('f, 'h) Hooks \<Rightarrow> Wallet list \<Rightarrow> int \<Rightarrow> Stats \<Rightarrow> 'h \<Rightarrow>
     int \<times> Stats \<times> search_error option \<times> 'h" where
  "bounded_batch L B cfg s hooks [] processed stats h = (processed, stats, None, h)"
| "bounded_batch L B cfg s hooks (wallet # ws) processed stats h =
     (if processed \<ge> cfg_NumKeys cfg then (processed, stats, None, h)
      else
        (let keyIndex = cfg_SessionBase cfg + word_of_int processed + 1 in
         case ProcessWallet L B cfg s wallet keyIndex hooks h of
           ((hit, Some err), h) \<Rightarrow> (processed, stats, Some err, h)
         | ((hit, None), h) \<Rightarrow>
             let stats = (if hit then stats\<lparr>Hits := Hits stats + 1\<rparr> else stats)
             in bounded_batch L B cfg s hooks ws (processed + 1)
                  (stats\<lparr>KeysProcessed := KeysProcessed stats + 1\<rparr>) h))"

definition call_progress :: "('f, 'h) Hooks \<Rightarrow> int \<Rightarrow> int \<Rightarrow> int \<Rightarrow> int \<Rightarrow> int \<Rightarrow> 'h \<Rightarrow> int \<times> 'h" where
  "call_progress hooks processed numKeys start now lastProgress h =
     (case OnProgress hooks of
        Some f \<Rightarrow> if now - lastProgress \<ge> progressGap then (now, f processed numKeys (now - start) h)
                  else (lastProgress, h)
      | None \<Rightarrow> (lastProgress, h))"

text \<open>The summary takes the time the run took and the rate (a float the model does not open).\<close>

definition call_summary ::
  "(int \<Rightarrow> int \<Rightarrow> 'f) \<Rightarrow> ('f, 'h) Hooks \<Rightarrow> Config \<Rightarrow> int \<Rightarrow> 'h \<Rightarrow> 'h" where
  "call_summary rate hooks cfg took h =
     (case OnSummary hooks of
        Some f \<Rightarrow> if cfg_NumKeys cfg > 0 then f took (cfg_NumKeys cfg) (rate (cfg_NumKeys cfg) took) h else h
      | None \<Rightarrow> h)"

fun boundedLoop ::
  "addr_lib \<Rightarrow> 'bf bloom_lib \<Rightarrow> (int \<Rightarrow> int \<Rightarrow> 'f) \<Rightarrow> Config \<Rightarrow> 'bf Sets \<Rightarrow> ('f, 'h) Hooks \<Rightarrow> int \<Rightarrow> int \<Rightarrow>
     turn list \<Rightarrow> int \<Rightarrow> int \<Rightarrow> Stats \<Rightarrow> 'h \<Rightarrow> (Stats \<times> search_error option \<times> 'h) option" where
  "boundedLoop L B rate cfg s hooks start fin turns lastProgress processed stats h =
     (if \<not> processed < cfg_NumKeys cfg then
        Some (stats, None, call_summary rate hooks cfg (fin - start) h)
      else
        (case turns of
           [] \<Rightarrow> None
         | t # ts \<Rightarrow>
             if t_done t then Some (stats, Some ContextDone, h)
             else
               (case t_recv t of
                  CtxDone \<Rightarrow> Some (stats, Some ContextDone, h)
                | Batch batch \<Rightarrow>
                    (case bounded_batch L B cfg s hooks batch processed stats h of
                       (processed, stats, Some err, h) \<Rightarrow> Some (stats, Some err, h)
                     | (processed, stats, None, h) \<Rightarrow>
                         (case call_progress hooks processed (cfg_NumKeys cfg) start (t_now t) lastProgress h of
                            (lastProgress, h) \<Rightarrow>
                              boundedLoop L B rate cfg s hooks start fin ts lastProgress processed stats h)))))"

declare boundedLoop.simps [simp del]

definition runBounded ::
  "addr_lib \<Rightarrow> 'bf bloom_lib \<Rightarrow> (int \<Rightarrow> int \<Rightarrow> 'f) \<Rightarrow> Config \<Rightarrow> 'bf Sets \<Rightarrow> ('f, 'h) Hooks \<Rightarrow> int \<Rightarrow> int \<Rightarrow>
     turn list \<Rightarrow> 'h \<Rightarrow> (Stats \<times> search_error option \<times> 'h) option" where
  "runBounded L B rate cfg s hooks start fin turns h =
     boundedLoop L B rate cfg s hooks start fin turns start 0 zero_Stats h"

section \<open>The reference: wallets one after the other\<close>

text \<open>Processing wallets in order with consecutive indices from \<open>i\<close>: how many were processed without
  an error, how many hit, the error, and the hooks' state.\<close>

fun process_seq ::
  "addr_lib \<Rightarrow> 'bf bloom_lib \<Rightarrow> Config \<Rightarrow> 'bf Sets \<Rightarrow> ('f, 'h) Hooks \<Rightarrow> Wallet list \<Rightarrow> u64 \<Rightarrow> 'h \<Rightarrow>
     nat \<times> nat \<times> search_error option \<times> 'h" where
  "process_seq L B cfg s hooks [] i h = (0, 0, None, h)"
| "process_seq L B cfg s hooks (w # ws) i h =
     (case ProcessWallet L B cfg s w i hooks h of
        ((hit, Some e), h) \<Rightarrow> (0, 0, Some e, h)
      | ((hit, None), h) \<Rightarrow>
          (case process_seq L B cfg s hooks ws (i + 1) h of
             (n, k, e, h) \<Rightarrow> (Suc n, (if hit then Suc k else k), e, h)))"

definition add_stats :: "Stats \<Rightarrow> nat \<Rightarrow> nat \<Rightarrow> Stats" where
  "add_stats st n k = \<lparr>KeysProcessed = KeysProcessed st + of_nat n, Hits = Hits st + of_nat k\<rparr>"

lemma add_stats_simps [simp]:
  "add_stats st 0 0 = st" "KeysProcessed (add_stats st n k) = KeysProcessed st + of_nat n"
  "Hits (add_stats st n k) = Hits st + of_nat k"
  "add_stats (add_stats st n k) n' k' = add_stats st (n + n') (k + k')"
  by (simp_all add: add_stats_def)

lemma process_seq_append:
  "process_seq L B cfg s hooks (ws @ vs) i h =
    (case process_seq L B cfg s hooks ws i h of
       (n, k, Some e, h) \<Rightarrow> (n, k, Some e, h)
     | (n, k, None, h) \<Rightarrow>
         (case process_seq L B cfg s hooks vs (i + of_nat n) h of
            (n', k', e, h) \<Rightarrow> (n + n', k + k', e, h)))"
  by (induction ws arbitrary: i h)
    (auto simp: algebra_simps split: prod.split option.split)

lemma process_seq_count:
  "process_seq L B cfg s hooks ws i h = (n, k, e, h') \<Longrightarrow>
    k \<le> n \<and> n \<le> length ws \<and> (e = None \<longrightarrow> n = length ws)"
  by (induction ws arbitrary: i h n k) (fastforce split: prod.splits option.splits)+

lemma bounded_batch_seq:
  assumes "processed \<le> cfg_NumKeys cfg" "0 \<le> processed"
  shows "bounded_batch L B cfg s hooks ws processed stats h =
    (case process_seq L B cfg s hooks (take (nat (cfg_NumKeys cfg - processed)) ws)
        (cfg_SessionBase cfg + word_of_int processed + 1) h of
       (n, k, e, h) \<Rightarrow> (processed + int n, add_stats stats n k, e, h))"
  using assms
proof (induction ws arbitrary: processed stats h)
  case (Cons w ws)
  show ?case
  proof (cases "processed \<ge> cfg_NumKeys cfg")
    case False
    then have "nat (cfg_NumKeys cfg - processed) = Suc (nat (cfg_NumKeys cfg - (processed + 1)))"
      by arith
    then have t: "take (nat (cfg_NumKeys cfg - processed)) (w # ws) =
        w # take (nat (cfg_NumKeys cfg - (processed + 1))) ws"
      by simp
    show ?thesis
      using False Cons.prems Cons.IH [of "processed + 1"]
      by (auto simp: t Let_def add_stats_def algebra_simps split: prod.split option.split)
  qed (use Cons.prems in simp)
qed simp

section \<open>The reference with announcements\<close>

text \<open>What happens in a run, one thing after the other: a key is tried, or the progress is announced, with the time that
  has passed.\<close>

datatype run_event = TryKey Wallet | Announce int

fun keys_of :: "run_event list \<Rightarrow> Wallet list" where
  "keys_of [] = []"
| "keys_of (TryKey w # evs) = w # keys_of evs"
| "keys_of (Announce t # evs) = keys_of evs"

text \<open>The keys have consecutive indices from \<open>i\<close>; an announcement \<open>tell\<close> is made with the number of keys tried and
  of hits so far. An error of a key ends the sequence.\<close>

fun event_seq ::
  "addr_lib \<Rightarrow> 'bf bloom_lib \<Rightarrow> Config \<Rightarrow> 'bf Sets \<Rightarrow> ('f, 'h) Hooks \<Rightarrow> (nat \<Rightarrow> nat \<Rightarrow> int \<Rightarrow> 'h \<Rightarrow> 'h) \<Rightarrow> u64 \<Rightarrow>
     run_event list \<Rightarrow> nat \<Rightarrow> nat \<Rightarrow> 'h \<Rightarrow> nat \<times> nat \<times> search_error option \<times> 'h" where
  "event_seq L B cfg s hooks tell i [] n k h = (n, k, None, h)"
| "event_seq L B cfg s hooks tell i (TryKey w # evs) n k h =
     (case ProcessWallet L B cfg s w (i + of_nat n) hooks h of
        ((hit, Some e), h) \<Rightarrow> (n, k, Some e, h)
      | ((hit, None), h) \<Rightarrow> event_seq L B cfg s hooks tell i evs (Suc n) (if hit then Suc k else k) h)"
| "event_seq L B cfg s hooks tell i (Announce t # evs) n k h =
     event_seq L B cfg s hooks tell i evs n k (tell n k t h)"

lemma keys_of_append [simp]: "keys_of (evs @ evs') = keys_of evs @ keys_of evs'"
  by (induction evs rule: keys_of.induct) simp_all

lemma keys_of_keys [simp]: "keys_of (map TryKey ws) = ws"
  by (induction ws) simp_all

lemma event_seq_append:
  "event_seq L B cfg s hooks tell i (evs @ evs') n k h =
    (case event_seq L B cfg s hooks tell i evs n k h of
       (n, k, Some e, h) \<Rightarrow> (n, k, Some e, h)
     | (n, k, None, h) \<Rightarrow> event_seq L B cfg s hooks tell i evs' n k h)"
  by (induction evs arbitrary: n k h rule: keys_of.induct) (auto split: prod.split option.split)

lemma event_seq_keys:
  "event_seq L B cfg s hooks tell i (map TryKey ws) n k h =
    (case process_seq L B cfg s hooks ws (i + of_nat n) h of (n', k', e, h) \<Rightarrow> (n + n', k + k', e, h))"
  by (induction ws arbitrary: n k h) (auto simp: algebra_simps split: prod.split option.split)

lemma event_seq_quiet:
  assumes "\<And>n k t h. tell n k t h = h"
  shows "event_seq L B cfg s hooks tell i evs n k h =
    (case process_seq L B cfg s hooks (keys_of evs) (i + of_nat n) h of (n', k', e, h) \<Rightarrow> (n + n', k + k', e, h))"
  by (induction evs arbitrary: n k h rule: keys_of.induct)
    (auto simp: assms algebra_simps split: prod.split option.split)

lemma event_seq_count:
  "event_seq L B cfg s hooks tell i evs n k h = (n', k', e, h') \<Longrightarrow>
    n \<le> n' \<and> k \<le> k' \<and> n' \<le> n + length (keys_of evs) \<and> (e = None \<longrightarrow> n' = n + length (keys_of evs))"
  by (induction evs arbitrary: n k h rule: keys_of.induct) (fastforce split: prod.splits option.splits if_splits)+

section \<open>A bounded run is the reference on the first wallets\<close>

text \<open>The wallets a run can receive, and whether it is cancelled after them.\<close>

fun received :: "turn list \<Rightarrow> Wallet list \<times> bool" where
  "received [] = ([], False)"
| "received (t # ts) =
     (if t_done t then ([], True)
      else (case t_recv t of CtxDone \<Rightarrow> ([], True)
        | Batch batch \<Rightarrow> (case received ts of (ws, c) \<Rightarrow> (batch @ ws, c))))"

text \<open>What happens in a run that wants \<open>m\<close> more wallets: those of every batch, and after a batch an announcement, when
  the last one was 100 milliseconds ago.\<close>

fun bounded_events :: "nat \<Rightarrow> int \<Rightarrow> int \<Rightarrow> turn list \<Rightarrow> run_event list" where
  "bounded_events m start lastProgress [] = []"
| "bounded_events m start lastProgress (t # ts) =
     (if m = 0 \<or> t_done t then []
      else (case t_recv t of CtxDone \<Rightarrow> []
        | Batch batch \<Rightarrow> map TryKey (take m batch) @
            (if t_now t - lastProgress \<ge> progressGap
             then Announce (t_now t - start) # bounded_events (m - length batch) start (t_now t) ts
             else bounded_events (m - length batch) start lastProgress ts)))"

definition tell_bounded :: "('f, 'h) Hooks \<Rightarrow> Config \<Rightarrow> nat \<Rightarrow> nat \<Rightarrow> int \<Rightarrow> 'h \<Rightarrow> 'h" where
  "tell_bounded hooks cfg n k t h =
     (case OnProgress hooks of None \<Rightarrow> h | Some f \<Rightarrow> f (int n) (cfg_NumKeys cfg) t h)"

text \<open>The result of a run that wants \<open>limit\<close> wallets and tells \<open>summary\<close> at its regular end: an error of a wallet ends
  it, then the limit, then the cancellation; without any of them it waits.\<close>

definition run_result ::
  "nat \<Rightarrow> bool \<Rightarrow> ('h \<Rightarrow> 'h) \<Rightarrow> nat \<times> nat \<times> search_error option \<times> 'h \<Rightarrow>
     (Stats \<times> search_error option \<times> 'h) option" where
  "run_result limit cancelled summary r =
     (case r of (n, k, e, h) \<Rightarrow>
        if e \<noteq> None then Some (add_stats zero_Stats n k, e, h)
        else if n = limit then Some (add_stats zero_Stats n k, None, summary h)
        else if cancelled then Some (add_stats zero_Stats n k, Some ContextDone, h)
        else None)"

lemma bounded_events_keys: "keys_of (bounded_events m start lp ts) = take m (fst (received ts))"
  by (induction m start lp ts rule: bounded_events.induct) (auto split: recv.split prod.split)

lemma call_progress_tell:
  "call_progress hooks (int n) (cfg_NumKeys cfg) start now lp h =
    (if OnProgress hooks \<noteq> None \<and> now - lp \<ge> progressGap then now else lp,
     if now - lp \<ge> progressGap then tell_bounded hooks cfg n k (now - start) h else h)"
  by (simp add: call_progress_def tell_bounded_def split: option.split)

lemma boundedLoop_exact:
  assumes "int n \<le> cfg_NumKeys cfg" "OnProgress hooks = None \<or> lp = lastProgress"
  shows "boundedLoop L B rate cfg s hooks start fin turns lastProgress (int n) (add_stats zero_Stats n k) h =
    run_result (nat (cfg_NumKeys cfg)) (snd (received turns)) (call_summary rate hooks cfg (fin - start))
      (event_seq L B cfg s hooks (tell_bounded hooks cfg) (cfg_SessionBase cfg + 1)
        (bounded_events (nat (cfg_NumKeys cfg) - n) start lp turns) n k h)"
  using assms
proof (induction turns arbitrary: lastProgress lp n k h)
  case Nil
  then show ?case by (subst boundedLoop.simps) (auto simp: run_result_def)
next
  case (Cons t ts)
  let ?N = "cfg_NumKeys cfg" and ?i = "cfg_SessionBase cfg + 1" and ?tell = "tell_bounded hooks cfg"
  let ?m = "nat ?N - n"
  show ?case
  proof (cases "int n < ?N \<and> \<not> t_done t \<and> t_recv t \<noteq> CtxDone")
    case False
    then show ?thesis
      using Cons.prems(1) by (subst boundedLoop.simps) (auto simp: run_result_def)
  next
    case True
    then obtain batch where batch: "t_recv t = Batch batch" by (cases "t_recv t") auto
    have m: "nat (?N - int n) = ?m" and room: "\<not> nat ?N \<le> n" "n \<noteq> nat ?N" using True by linarith+
    obtain n1 k1 e h1 where b: "process_seq L B cfg s hooks (take ?m batch) (?i + of_nat n) h = (n1, k1, e, h1)"
      by (metis prod_cases4)
    have bb: "bounded_batch L B cfg s hooks batch (int n) (add_stats zero_Stats n k) h =
        (int (n + n1), add_stats zero_Stats (n + n1) (k + k1), e, h1)"
      using bounded_batch_seq [of "int n" cfg L B s hooks batch "add_stats zero_Stats n k" h] Cons.prems(1) b
      by (simp add: m algebra_simps)
    have seq: "event_seq L B cfg s hooks ?tell ?i (map TryKey (take ?m batch)) n k h = (n + n1, k + k1, e, h1)"
      by (simp add: event_seq_keys b)
    show ?thesis
    proof (cases e)
      case (Some err)
      then show ?thesis
        using True batch bb seq room by (subst boundedLoop.simps) (simp add: event_seq_append run_result_def)
    next
      case None
      have n1: "n1 = min (length batch) ?m" using process_seq_count [OF b] None by simp
      then have le: "int (n + n1) \<le> ?N" using Cons.prems(1) by linarith
      have rest: "nat ?N - (n + length batch) = nat ?N - (n + n1)" using n1 by (auto simp: min_def)
      obtain lp1 h2 where cp: "call_progress hooks (int (n + n1)) ?N start (t_now t) lastProgress h1 = (lp1, h2)"
        by (rule prod.exhaust)
      have "boundedLoop L B rate cfg s hooks start fin (t # ts) lastProgress (int n) (add_stats zero_Stats n k) h =
          boundedLoop L B rate cfg s hooks start fin ts lp1 (int (n + n1)) (add_stats zero_Stats (n + n1) (k + k1)) h2"
        using True batch bb None cp by (subst boundedLoop.simps) simp
      moreover define lp2 where "lp2 = (if t_now t - lp \<ge> progressGap then t_now t else lp)"
      moreover define h3 where "h3 = (if t_now t - lp \<ge> progressGap
        then ?tell (n + n1) (k + k1) (t_now t - start) h1 else h1)"
      moreover have "h2 = h3" "OnProgress hooks = None \<or> lp2 = lp1"
        using cp call_progress_tell [of hooks "n + n1" cfg start "t_now t" lastProgress h1 "k + k1"] Cons.prems(2)
        by (auto simp: tell_bounded_def lp2_def h3_def split: if_splits)
      moreover have "event_seq L B cfg s hooks ?tell ?i (bounded_events ?m start lp (t # ts)) n k h =
          event_seq L B cfg s hooks ?tell ?i (bounded_events (nat ?N - (n + n1)) start lp2 ts) (n + n1) (k + k1) h3"
        using True batch room by (simp add: event_seq_append seq None rest lp2_def h3_def)
      moreover have "snd (received (t # ts)) = snd (received ts)" using True batch by (simp add: case_prod_unfold)
      ultimately show ?thesis using Cons.IH [OF le, of lp2 lp1 "k + k1" h3] by simp
    qed
  qed
qed

text \<open>C11. A bounded run with any hooks tries exactly the first \<open>NumKeys\<close> wallets received, in order, with the indices
  \<open>SessionBase + 1, SessionBase + 2, ...\<close>, however they are batched: its counts, its error and what it does to the
  hooks are those of trying them one after the other, with the announcements of the progress in between, each telling
  how many have been tried, and the summary at the end. It stops early only for an error of a wallet or a cancelled
  context, and waits only when fewer wallets have arrived.\<close>

theorem runBounded_exact:
  assumes "0 \<le> cfg_NumKeys cfg"
  shows "runBounded L B rate cfg s hooks start fin turns h =
      run_result (nat (cfg_NumKeys cfg)) (snd (received turns)) (call_summary rate hooks cfg (fin - start))
        (event_seq L B cfg s hooks (tell_bounded hooks cfg) (cfg_SessionBase cfg + 1)
          (bounded_events (nat (cfg_NumKeys cfg)) start start turns) 0 0 h) \<and>
    keys_of (bounded_events (nat (cfg_NumKeys cfg)) start start turns) =
      take (nat (cfg_NumKeys cfg)) (fst (received turns))"
  using boundedLoop_exact [of 0 cfg hooks start start L B rate s start fin turns 0 h] assms
  by (simp add: runBounded_def bounded_events_keys)

text \<open>With hooks that only take hits.\<close>

lemma runBounded_quiet:
  assumes "0 \<le> cfg_NumKeys cfg" "OnProgress hooks = None" "OnSummary hooks = None"
  shows "runBounded L B rate cfg s hooks start fin turns h =
    run_result (nat (cfg_NumKeys cfg)) (snd (received turns)) id
      (process_seq L B cfg s hooks (take (nat (cfg_NumKeys cfg)) (fst (received turns))) (cfg_SessionBase cfg + 1) h)"
proof -
  have "call_summary rate hooks cfg (fin - start) = id" by (auto simp: call_summary_def assms(3))
  moreover have "tell_bounded hooks cfg n k t h = h" for n k t h by (simp add: tell_bounded_def assms(2))
  ultimately show ?thesis
    using boundedLoop_exact [of 0 cfg hooks start start L B rate s start fin turns 0 h] assms(1)
    by (simp add: runBounded_def event_seq_quiet bounded_events_keys split: prod.split)
qed

text \<open>The batches of working workers: none cancelled, each full.\<close>

definition full_batches :: "turn list \<Rightarrow> bool" where
  "full_batches turns \<longleftrightarrow> (\<forall>t \<in> set turns. \<not> t_done t \<and>
     (case t_recv t of CtxDone \<Rightarrow> False | Batch b \<Rightarrow> length b = KeyBatchSize))"

lemma full_received:
  "full_batches turns \<Longrightarrow> length (fst (received turns)) = KeyBatchSize * length turns \<and> \<not> snd (received turns)"
  by (induction turns) (auto simp: full_batches_def split: recv.splits prod.splits)

lemma process_seq_total:
  assumes "\<And>w i h. snd (fst (ProcessWallet L B cfg s w i hooks h)) = None"
  shows "\<exists>k h'. process_seq L B cfg s hooks ws i h = (length ws, k, None, h') \<and> k \<le> length ws"
proof -
  obtain n k e h' where p: "process_seq L B cfg s hooks ws i h = (n, k, e, h')" by (metis prod_cases4)
  have "e = None"
    using p assms
  proof (induction ws arbitrary: i h n k h')
    case (Cons w ws)
    obtain hit h1 where "ProcessWallet L B cfg s w i hooks h = ((hit, None), h1)"
      using assms [of w i h] by (metis prod.collapse)
    with Cons show ?case by (auto split: prod.splits)
  qed simp
  with p process_seq_count [OF p] show ?thesis by auto
qed

text \<open>A bounded run returns: once the workers have sent \<open>NumKeys / 128\<close> batches, rounded up, it
  ends without an error and has processed exactly \<open>NumKeys\<close> keys, if the hooks report no errors.\<close>

theorem runBounded_returns:
  assumes "OnProgress hooks = None" "OnSummary hooks = None" "0 \<le> cfg_NumKeys cfg"
    and "\<And>w i h. snd (fst (ProcessWallet L B cfg s w i hooks h)) = None"
    and "full_batches turns" "cfg_NumKeys cfg \<le> int (KeyBatchSize * length turns)"
  shows "\<exists>st h'. runBounded L B rate cfg s hooks start fin turns h = Some (st, None, h') \<and>
    KeysProcessed st = word_of_int (cfg_NumKeys cfg)"
proof -
  let ?n = "nat (cfg_NumKeys cfg)"
  let ?ws = "take ?n (fst (received turns))"
  have "?n \<le> KeyBatchSize * length turns" using assms(6) by (simp add: nat_le_iff)
  then have len: "length ?ws = ?n" using full_received [OF assms(5)] by (simp add: min_absorb2)
  obtain k h' where "process_seq L B cfg s hooks ?ws (cfg_SessionBase cfg + 1) h = (?n, k, None, h')"
    using process_seq_total [of L B cfg s hooks ?ws, OF assms(4)] len by metis
  moreover have "(of_nat ?n :: u64) = word_of_int (cfg_NumKeys cfg)"
    using assms(3) by (metis int_nat_eq of_int_of_nat_eq)
  ultimately show ?thesis
    using runBounded_quiet [OF assms(3,1,2), of L B rate s start fin turns h]
    by (simp add: run_result_def zero_Stats_def)
qed

section \<open>Witnesses\<close>

definition plain_cfg :: Config where
  "plain_cfg = sample_cfg\<lparr>cfg_InjectIndexHit := ''''\<rparr>"

lemma plain_keys: "effective_keys L plain_cfg s w i = Inr (Keys w)"
  by (simp add: effective_keys_def plain_cfg_def)

definition one_batch :: "nat \<Rightarrow> turn list" where
  "one_batch n = [\<lparr>t_done = False, t_recv = Batch (replicate n sample_wallet), t_now = 5\<rparr>]"

text \<open>Hooks that write down what they are told; one batch of four wallets, after 200 milliseconds.\<close>

definition telling :: "(unit, (int \<times> int) list) Hooks" where
  "telling = \<lparr>OnProgress = Some (\<lambda>n m t h. h @ [(n, t)]), OnForeverProgress = None,
     OnSummary = Some (\<lambda>t m avg h. h @ [(m, t)]), OnHit = None, OnInjectLog = None, OnLookupVerify = None\<rparr>"

definition late_batch :: "turn list" where
  "late_batch = [\<lparr>t_done = False, t_recv = Batch (replicate 4 sample_wallet), t_now = 200000000\<rparr>]"

lemma Process_telling: "\<exists>hit. ProcessWallet L B plain_cfg s w i telling h = ((hit, None), h)"
  by (auto simp: ProcessWallet_def injected_keys_def call_hit_def telling_def plain_cfg_def sample_cfg_def Let_def
      split: prod.split)

lemma telling_keys:
  "\<exists>k'. event_seq L B plain_cfg s telling tell i (map TryKey ws) n k h = (n + length ws, k', None, h)"
proof (induction ws arbitrary: n k)
  case (Cons w ws)
  obtain hit where "ProcessWallet L B plain_cfg s w (i + of_nat n) telling h = ((hit, None), h)"
    using Process_telling by blast
  then show ?case using Cons.IH [of "Suc n" k] Cons.IH [of "Suc n" "Suc k"] by (cases hit) simp_all
qed simp

theorem runBounded_exact_witness:
  "\<exists>k. runBounded sample_lib sample_bloom (\<lambda>_ _. ()) plain_cfg sample_sets telling 0 900000000 late_batch [] =
    Some (add_stats zero_Stats 3 k, None, [(3, 200000000), (3, 900000000)])"
proof -
  let ?seq = "event_seq sample_lib sample_bloom plain_cfg sample_sets telling (tell_bounded telling plain_cfg) 1"
  have cfg: "cfg_NumKeys plain_cfg = 3" "cfg_SessionBase plain_cfg = 0"
    by (simp_all add: plain_cfg_def sample_cfg_def)
  obtain k where k: "?seq (map TryKey (replicate 3 sample_wallet)) 0 0 [] = (3, k, None, [])"
    using telling_keys [of sample_lib sample_bloom sample_sets _ 1 "replicate 3 sample_wallet" 0 0 "[]"] by auto
  have "?seq (map TryKey (replicate 3 sample_wallet) @ [Announce 200000000]) 0 0 [] =
      (3, k, None, [(3, 200000000)])"
    unfolding event_seq_append k by (simp add: tell_bounded_def telling_def)
  moreover have "bounded_events 3 0 0 late_batch = map TryKey (replicate 3 sample_wallet) @ [Announce 200000000]"
    by (simp add: late_batch_def progressGap_def)
  moreover have "call_summary (\<lambda>_ _. ()) telling plain_cfg 900000000 h = h @ [(3, 900000000)]" for h
    by (simp add: call_summary_def telling_def cfg)
  ultimately show ?thesis
    using runBounded_exact [of plain_cfg sample_lib sample_bloom "\<lambda>_ _. ()" sample_sets telling 0 900000000 late_batch "[]"]
    by (auto simp: cfg run_result_def)
qed

theorem runBounded_returns_witness:
  "\<exists>st h'. runBounded sample_lib sample_bloom (\<lambda>_ _. ()) plain_cfg sample_sets recorder 0 9
      (one_batch 128) [] = Some (st, None, h') \<and> KeysProcessed st = 3"
proof -
  have n: "cfg_NumKeys plain_cfg = 3" by (simp add: plain_cfg_def sample_cfg_def)
  have "\<exists>st h'. runBounded sample_lib sample_bloom (\<lambda>_ _. ()) plain_cfg sample_sets recorder 0 9
      (one_batch 128) [] = Some (st, None, h') \<and> KeysProcessed st = word_of_int (cfg_NumKeys plain_cfg)"
    by (rule runBounded_returns)
      (simp_all add: n Process_recorder plain_keys one_batch_def full_batches_def KeyBatchSize_def)
  then show ?thesis by (simp add: n)
qed

end
