(* ===== verification/Cli.thy ===== *)
theory Cli
  imports Search
begin

text \<open>
  cli.go: the command line of btcfind. Durations are parsed by the parameter \<open>dur\<close> (\<open>time.ParseDuration\<close>, in
  nanoseconds, \<open>None\<close> for an error); numbers by the \<open>strconv\<close> of \<open>GoStd\<close>. The message of an error is its
  constructor.
\<close>

section \<open>Arguments\<close>

record cliConfig =
  numKeys :: int
  threads :: int
  minBalance :: u64
  forever :: bool
  checkpointInterval :: int
  maxKeys :: u64
  resetSession :: bool
  simulateHit :: bool
  simulateHitAt :: int
  verifyLookup :: bool
  injectIndexHit :: string
  noColor :: bool
  quiet :: bool
  verbose :: bool
  formats :: FormatMask
  formatsSet :: bool

datatype cli_error =
    RequiresValue string | InvalidValue string | BadFormats format_error | UnknownFlag string
  | TooManyPositionals | MissingCount | InvalidThreads | InvalidCount
  | UnknownInjectBucket string | BucketDisabled string FormatMask | SimulateBeyond int int

definition default_cli :: cliConfig where
  "default_cli = \<lparr>numKeys = 0, threads = 0, minBalance = DefaultMinBalanceSats, forever = False,
     checkpointInterval = 60 * 1000000000, maxKeys = 0, resetSession = False, simulateHit = False,
     simulateHitAt = 1, verifyLookup = False, injectIndexHit = '''', noColor = False, quiet = False,
     verbose = False, formats = AllFormats, formatsSet = False\<rparr>"

text \<open>The flags that take a value; each has the forms \<open>--flag=value\<close> and \<open>--flag value\<close>.\<close>

definition set_interval :: "(string \<Rightarrow> int option) \<Rightarrow> string \<Rightarrow> cliConfig \<Rightarrow> cli_error + cliConfig" where
  "set_interval dur v cfg =
     (case dur v of
        None \<Rightarrow> Inl (InvalidValue ''--checkpoint-interval'')
      | Some d \<Rightarrow> if d \<le> 0 then Inl (InvalidValue ''--checkpoint-interval'') else Inr (cfg\<lparr>checkpointInterval := d\<rparr>))"

definition set_maxKeys :: "string \<Rightarrow> cliConfig \<Rightarrow> cli_error + cliConfig" where
  "set_maxKeys v cfg =
     (case ParseUint v of Inl e \<Rightarrow> Inl (InvalidValue ''--max-keys'') | Inr n \<Rightarrow> Inr (cfg\<lparr>maxKeys := of_nat n\<rparr>))"

definition set_formats :: "string \<Rightarrow> cliConfig \<Rightarrow> cli_error + cliConfig" where
  "set_formats v cfg =
     (case ParseFormatMask v of
        Inl e \<Rightarrow> Inl (BadFormats e) | Inr fm \<Rightarrow> Inr (cfg\<lparr>formats := fm, formatsSet := True\<rparr>))"

definition set_simulateHitAt :: "string \<Rightarrow> cliConfig \<Rightarrow> cli_error + cliConfig" where
  "set_simulateHitAt v cfg =
     (case Atoi v of
        Inl e \<Rightarrow> Inl (InvalidValue ''--simulate-hit-at'')
      | Inr n \<Rightarrow> if n < 1 then Inl (InvalidValue ''--simulate-hit-at'') else Inr (cfg\<lparr>simulateHitAt := n\<rparr>))"

definition set_minBalance :: "string \<Rightarrow> cliConfig \<Rightarrow> cli_error + cliConfig" where
  "set_minBalance v cfg =
     (case ParseUint v of Inl e \<Rightarrow> Inl (InvalidValue ''--min-balance'') | Inr n \<Rightarrow> Inr (cfg\<lparr>minBalance := of_nat n\<rparr>))"

text \<open>The loop over the arguments, with the positional ones so far.\<close>

fun parse_args ::
  "(string \<Rightarrow> int option) \<Rightarrow> string list \<Rightarrow> cliConfig \<Rightarrow> string list \<Rightarrow> cli_error + cliConfig \<times> string list" where
  "parse_args dur [] cfg positionals = Inr (cfg, positionals)"
| "parse_args dur (arg # rest) cfg positionals =
     (let flag_value = (\<lambda>flag setter. bindR (setter (TrimPrefix arg flag) cfg)
            (\<lambda>cfg. parse_args dur rest cfg positionals));
          next_value = (\<lambda>flag setter. case rest of [] \<Rightarrow> Inl (RequiresValue flag)
            | v # rest \<Rightarrow> bindR (setter v cfg) (\<lambda>cfg. parse_args dur rest cfg positionals))
      in if arg = ''--forever'' then parse_args dur rest (cfg\<lparr>forever := True\<rparr>) positionals
         else if arg = ''--reset-session'' then parse_args dur rest (cfg\<lparr>resetSession := True\<rparr>) positionals
         else if HasPrefix arg ''--checkpoint-interval='' then flag_value ''--checkpoint-interval='' (set_interval dur)
         else if arg = ''--checkpoint-interval'' then next_value ''--checkpoint-interval'' (set_interval dur)
         else if HasPrefix arg ''--max-keys='' then flag_value ''--max-keys='' set_maxKeys
         else if arg = ''--max-keys'' then next_value ''--max-keys'' set_maxKeys
         else if arg = ''--simulate-hit'' then parse_args dur rest (cfg\<lparr>simulateHit := True\<rparr>) positionals
         else if arg = ''--no-color'' then parse_args dur rest (cfg\<lparr>noColor := True\<rparr>) positionals
         else if arg = ''--quiet'' then parse_args dur rest (cfg\<lparr>quiet := True\<rparr>) positionals
         else if arg = ''--verbose'' then parse_args dur rest (cfg\<lparr>verbose := True\<rparr>) positionals
         else if HasPrefix arg ''--formats='' then flag_value ''--formats='' set_formats
         else if arg = ''--formats'' then next_value ''--formats'' set_formats
         else if arg = ''--simulate-hit-verify-lookup'' then
           parse_args dur rest (cfg\<lparr>verifyLookup := True\<rparr>) positionals
         else if HasPrefix arg ''--simulate-hit-at='' then flag_value ''--simulate-hit-at='' set_simulateHitAt
         else if arg = ''--simulate-hit-at'' then next_value ''--simulate-hit-at'' set_simulateHitAt
         else if HasPrefix arg ''--min-balance='' then flag_value ''--min-balance='' set_minBalance
         else if arg = ''--min-balance'' then next_value ''--min-balance'' set_minBalance
         else if HasPrefix arg ''--inject-index-hit='' then
           flag_value ''--inject-index-hit='' (\<lambda>v cfg. Inr (cfg\<lparr>injectIndexHit := v\<rparr>))
         else if arg = ''--inject-index-hit'' then
           next_value ''--inject-index-hit'' (\<lambda>v cfg. Inr (cfg\<lparr>injectIndexHit := v\<rparr>))
         else if HasPrefix arg ''-'' then Inl (UnknownFlag arg)
         else parse_args dur rest cfg (positionals @ [arg]))"

section \<open>The configuration\<close>

definition parse_threads :: "string \<Rightarrow> cliConfig \<Rightarrow> cli_error + cliConfig" where
  "parse_threads v cfg = (case Atoi v of Inl e \<Rightarrow> Inl InvalidThreads | Inr n \<Rightarrow> Inr (cfg\<lparr>threads := n\<rparr>))"

definition take_positionals :: "string list \<Rightarrow> cliConfig \<Rightarrow> cli_error + cliConfig" where
  "take_positionals positionals cfg =
     (if forever cfg then
        bindR (if length positionals \<ge> 1 then parse_threads (positionals ! 0) cfg else Inr cfg) (\<lambda>cfg.
          if length positionals \<ge> 2 then Inl TooManyPositionals else Inr cfg)
      else if length positionals < 1 then Inl MissingCount
      else
        (case Atoi (positionals ! 0) of
           Inl e \<Rightarrow> Inl InvalidCount
         | Inr n \<Rightarrow>
             let cfg = cfg\<lparr>numKeys := n\<rparr> in
             if length positionals \<ge> 2 then parse_threads (positionals ! 1) cfg else Inr cfg))"

definition validateInjectBucket :: "string \<Rightarrow> bool" where
  "validateInjectBucket bucket \<longleftrightarrow>
     bucket \<in> set [''legacy'', ''legacy-uncompressed'', ''p2sh'', ''segwit'', ''taproot'']"

definition check_config :: "cliConfig \<Rightarrow> cli_error + cliConfig" where
  "check_config cfg =
     (if injectIndexHit cfg \<noteq> '''' \<and> \<not> validateInjectBucket (injectIndexHit cfg)
      then Inl (UnknownInjectBucket (injectIndexHit cfg))
      else if injectIndexHit cfg \<noteq> '''' \<and> \<not> InjectBucketAllowed (formats cfg) (injectIndexHit cfg)
      then Inl (BucketDisabled (injectIndexHit cfg) (formats cfg))
      else if \<not> forever cfg \<and> verifyLookup cfg \<and> simulateHitAt cfg > numKeys cfg
      then Inl (SimulateBeyond (simulateHitAt cfg) (numKeys cfg))
      else if \<not> forever cfg \<and> simulateHit cfg \<and> simulateHitAt cfg > numKeys cfg
      then Inl (SimulateBeyond (simulateHitAt cfg) (numKeys cfg))
      else Inr cfg)"

definition parseCLI :: "(string \<Rightarrow> int option) \<Rightarrow> string list \<Rightarrow> cli_error + cliConfig" where
  "parseCLI dur args =
     bindR (parse_args dur args default_cli []) (\<lambda>(cfg, positionals).
     bindR (take_positionals positionals cfg) check_config)"

declare parse_args.simps(2) [simp del]

section \<open>What an accepted command line guarantees\<close>

text \<open>What every prefix of the arguments keeps.\<close>

definition settings_ok :: "cliConfig \<Rightarrow> bool" where
  "settings_ok cfg \<longleftrightarrow> simulateHitAt cfg \<ge> 1 \<and> simulateHitAt cfg < 2 ^ 63 \<and> checkpointInterval cfg > 0 \<and> Any (formats cfg) \<and>
     0 \<le> threads cfg \<and> threads cfg < 2 ^ 63 \<and> 0 \<le> numKeys cfg \<and> numKeys cfg < 2 ^ 63"

lemma set_interval_ok: "set_interval dur v cfg = Inr cfg' \<Longrightarrow> settings_ok cfg \<Longrightarrow> settings_ok cfg'"
  by (auto simp: set_interval_def settings_ok_def split: option.splits if_splits)

lemma set_maxKeys_ok: "set_maxKeys v cfg = Inr cfg' \<Longrightarrow> settings_ok cfg \<Longrightarrow> settings_ok cfg'"
  by (auto simp: set_maxKeys_def settings_ok_def split: sum.splits)

lemma set_formats_ok: "set_formats v cfg = Inr cfg' \<Longrightarrow> settings_ok cfg \<Longrightarrow> settings_ok cfg'"
  by (auto simp: set_formats_def settings_ok_def dest: ParseFormatMask_Any split: sum.splits)

lemma set_simulateHitAt_ok: "set_simulateHitAt v cfg = Inr cfg' \<Longrightarrow> settings_ok cfg \<Longrightarrow> settings_ok cfg'"
  by (auto simp: set_simulateHitAt_def settings_ok_def dest: Atoi_bounds split: sum.splits if_splits)

lemma set_minBalance_ok: "set_minBalance v cfg = Inr cfg' \<Longrightarrow> settings_ok cfg \<Longrightarrow> settings_ok cfg'"
  by (auto simp: set_minBalance_def settings_ok_def split: sum.splits)

lemma plain_settings_ok [simp]:
  "settings_ok (cfg\<lparr>forever := b\<rparr>) = settings_ok cfg"
  "settings_ok (cfg\<lparr>resetSession := b\<rparr>) = settings_ok cfg"
  "settings_ok (cfg\<lparr>simulateHit := b\<rparr>) = settings_ok cfg"
  "settings_ok (cfg\<lparr>noColor := b\<rparr>) = settings_ok cfg"
  "settings_ok (cfg\<lparr>quiet := b\<rparr>) = settings_ok cfg"
  "settings_ok (cfg\<lparr>verbose := b\<rparr>) = settings_ok cfg"
  "settings_ok (cfg\<lparr>verifyLookup := b\<rparr>) = settings_ok cfg"
  "settings_ok (cfg\<lparr>injectIndexHit := v\<rparr>) = settings_ok cfg"
  by (simp_all add: settings_ok_def)

lemmas setters_ok = set_interval_ok set_maxKeys_ok set_formats_ok set_simulateHitAt_ok set_minBalance_ok

text \<open>A step of the loop fails, sets a flag, or keeps a positional argument.\<close>

definition arg_step ::
  "(string \<Rightarrow> int option) \<Rightarrow> string list \<Rightarrow> cliConfig \<Rightarrow> string list \<Rightarrow> string list \<Rightarrow> cliConfig \<Rightarrow> string list \<Rightarrow> bool" where
  "arg_step dur args cfg positionals args' cfg' positionals' \<longleftrightarrow>
     length args' < length args \<and> (settings_ok cfg \<longrightarrow> settings_ok cfg') \<and>
     (positionals' = positionals \<or> (\<exists>v. positionals' = positionals @ [v] \<and> \<not> HasPrefix v ''-''))"

lemma if_elim: "(if b then x else y) = z \<Longrightarrow> (b \<Longrightarrow> x = z \<Longrightarrow> R) \<Longrightarrow> (\<not> b \<Longrightarrow> y = z \<Longrightarrow> R) \<Longrightarrow> R"
  by (cases b) simp_all

lemma parse_args_step:
  assumes "parse_args dur (arg # rest) cfg positionals = Inr r"
  shows "\<exists>args' cfg' positionals'. arg_step dur (arg # rest) cfg positionals args' cfg' positionals' \<and>
    parse_args dur args' cfg' positionals' = Inr r"
proof -
  have flag: ?thesis if "bindR x (\<lambda>cfg. parse_args dur rest cfg positionals) = Inr r"
      "\<And>cfg'. x = Inr cfg' \<Longrightarrow> settings_ok cfg \<Longrightarrow> settings_ok cfg'" for x
    using that by (auto simp: bindR_Inr_iff arg_step_def)
  have nxt: ?thesis if a: "(case rest of [] \<Rightarrow> Inl (RequiresValue f)
      | v # rest \<Rightarrow> bindR (setter v) (\<lambda>cfg. parse_args dur rest cfg positionals)) = Inr r"
      and b: "\<And>v cfg'. setter v = Inr cfg' \<Longrightarrow> settings_ok cfg \<Longrightarrow> settings_ok cfg'" for setter f
  proof (cases rest)
    case (Cons v rs)
    obtain c where c: "setter v = Inr c" "parse_args dur rs c positionals = Inr r"
      using a by (auto simp: Cons bindR_Inr_iff)
    then have "arg_step dur (arg # rest) cfg positionals rs c positionals" using b Cons
      by (auto simp: arg_step_def)
    with c(2) show ?thesis by blast
  qed (use a in simp)
  have plain: ?thesis if "parse_args dur rest cfg' positionals = Inr r" "settings_ok cfg' = settings_ok cfg" for cfg'
    using that by (auto simp: arg_step_def)
  have keep: ?thesis if "parse_args dur rest cfg (positionals @ [arg]) = Inr r" "\<not> HasPrefix arg ''-''"
    using that by (auto simp: arg_step_def)
  show ?thesis
    using assms unfolding parse_args.simps(2) Let_def
    by (elim if_elim)
      ((erule flag, (erule (1) setters_ok | simp only: sum.inject, metis plain_settings_ok))
        | (erule nxt, (erule (1) setters_ok | simp only: sum.inject, metis plain_settings_ok))
        | (erule plain, simp) | (erule keep, assumption) | simp)+
qed

lemma parse_args_result:
  assumes "parse_args dur args cfg positionals = Inr (cfg', positionals')"
    and "settings_ok cfg" "list_all (\<lambda>v. \<not> HasPrefix v ''-'') positionals"
  shows "settings_ok cfg' \<and> list_all (\<lambda>v. \<not> HasPrefix v ''-'') positionals'"
  using assms
proof (induction "length args" arbitrary: args cfg positionals rule: less_induct)
  case less
  show ?case
  proof (cases args)
    case Nil
    then show ?thesis using less.prems by simp
  next
    case (Cons arg rest)
    obtain a c p where step: "arg_step dur args cfg positionals a c p" "parse_args dur a c p = Inr (cfg', positionals')"
      using parse_args_step less.prems(1) unfolding Cons by blast
    then have "length a < length args" "settings_ok c" "list_all (\<lambda>v. \<not> HasPrefix v ''-'') p"
      using less.prems(2,3) by (auto simp: arg_step_def)
    then show ?thesis using less.hyps step(2) by blast
  qed
qed

lemma Atoi_count: "Atoi v = Inr n \<Longrightarrow> \<not> HasPrefix v ''-'' \<Longrightarrow> 0 \<le> n \<and> n < 2 ^ 63"
  using Atoi_bounds Atoi_nonneg by blast

lemma parse_threads_ok:
  "parse_threads v cfg = Inr cfg' \<Longrightarrow> \<not> HasPrefix v ''-'' \<Longrightarrow> settings_ok cfg \<Longrightarrow> settings_ok cfg'"
  using Atoi_count [of v] by (auto simp: parse_threads_def settings_ok_def split: sum.splits)

lemma take_positionals_ok:
  assumes "take_positionals positionals cfg = Inr cfg'" "list_all (\<lambda>v. \<not> HasPrefix v ''-'') positionals" "settings_ok cfg"
  shows "settings_ok cfg'"
proof -
  have minus: "i < length positionals \<Longrightarrow> \<not> HasPrefix (positionals ! i) ''-''" for i
    using assms(2) by (auto simp: list_all_length)
  show ?thesis
  proof (cases "forever cfg")
    case True
    then show ?thesis
      using assms(1,3) parse_threads_ok [of "positionals ! 0" cfg] minus [of 0]
      by (cases positionals) (auto simp: take_positionals_def bindR_Inr_iff split: if_splits)
  next
    case False
    then obtain k where k: "positionals \<noteq> []" "Atoi (positionals ! 0) = Inr k"
      using assms(1) by (auto simp: take_positionals_def split: if_splits sum.splits)
    then have "settings_ok (cfg\<lparr>numKeys := k\<rparr>)"
      using Atoi_count minus [of 0] assms(3) by (simp add: settings_ok_def)
    moreover have "(if length positionals \<ge> 2 then parse_threads (positionals ! 1) (cfg\<lparr>numKeys := k\<rparr>)
        else Inr (cfg\<lparr>numKeys := k\<rparr>)) = Inr cfg'"
      using assms(1) False k by (auto simp: take_positionals_def Let_def)
    ultimately show ?thesis using parse_threads_ok minus [of 1] by (auto split: if_splits)
  qed
qed

lemma check_config_Inr:
  "check_config cfg = Inr cfg' \<longleftrightarrow> cfg' = cfg \<and>
    (injectIndexHit cfg \<noteq> '''' \<longrightarrow> validateInjectBucket (injectIndexHit cfg) \<and>
      InjectBucketAllowed (formats cfg) (injectIndexHit cfg)) \<and>
    (\<not> forever cfg \<and> (verifyLookup cfg \<or> simulateHit cfg) \<longrightarrow> simulateHitAt cfg \<le> numKeys cfg)"
  by (auto simp: check_config_def)

text \<open>What the rest of the program relies on.\<close>

definition cli_ok :: "cliConfig \<Rightarrow> bool" where
  "cli_ok cfg \<longleftrightarrow> settings_ok cfg \<and>
     (injectIndexHit cfg \<noteq> '''' \<longrightarrow> validateInjectBucket (injectIndexHit cfg) \<and>
       InjectBucketAllowed (formats cfg) (injectIndexHit cfg)) \<and>
     (\<not> forever cfg \<and> (verifyLookup cfg \<or> simulateHit cfg) \<longrightarrow> simulateHitAt cfg \<le> numKeys cfg)"

lemma default_ok: "settings_ok default_cli"
  by (simp add: settings_ok_def default_cli_def AllFormats_def Any_def)

lemma parseCLI_cli_ok:
  assumes "parseCLI dur args = Inr cfg"
  shows "cli_ok cfg"
proof -
  obtain c p where c: "parse_args dur args default_cli [] = Inr (c, p)" "bindR (take_positionals p c) check_config = Inr cfg"
    using assms by (auto simp: parseCLI_def bindR_Inr_iff)
  then have "settings_ok c" "list_all (\<lambda>v. \<not> HasPrefix v ''-'') p"
    using parse_args_result [OF c(1) default_ok] by simp_all
  with c(2) show ?thesis
    using take_positionals_ok by (auto simp: bindR_Inr_iff check_config_Inr cli_ok_def)
qed

text \<open>C38. The program only starts with settings it can work with: an accepted command line has at least one format,
  a simulation index of at least one, a positive checkpoint interval, counts that are not negative, an injection
  bucket that exists and is selected, and in a bounded run a simulation index the run reaches.\<close>

theorem parseCLI_accepts_ok:
  assumes "parseCLI dur args = Inr cfg"
  shows "cli_ok cfg"
  by (rule parseCLI_cli_ok [OF assms])

section \<open>Printing a configuration\<close>

definition opt_flag :: "bool \<Rightarrow> string \<Rightarrow> string list" where
  "opt_flag b flag = (if b then [flag] else [])"

text \<open>The command line of a configuration; \<open>showDur\<close> prints a duration.\<close>

definition cli_args :: "(int \<Rightarrow> string) \<Rightarrow> cliConfig \<Rightarrow> string list" where
  "cli_args showDur cfg =
     opt_flag (forever cfg) ''--forever'' @ opt_flag (resetSession cfg) ''--reset-session'' @
     opt_flag (simulateHit cfg) ''--simulate-hit'' @ opt_flag (noColor cfg) ''--no-color'' @
     opt_flag (quiet cfg) ''--quiet'' @ opt_flag (verbose cfg) ''--verbose'' @
     opt_flag (verifyLookup cfg) ''--simulate-hit-verify-lookup'' @
     (''--checkpoint-interval='' @ showDur (checkpointInterval cfg)) #
     (''--max-keys='' @ show_nat (unat (maxKeys cfg))) #
     (''--min-balance='' @ show_nat (unat (minBalance cfg))) #
     (''--simulate-hit-at='' @ show_int (simulateHitAt cfg)) #
     opt_flag (formatsSet cfg) (''--formats='' @ FormatMask_String (formats cfg)) @
     opt_flag (injectIndexHit cfg \<noteq> '''') (''--inject-index-hit='' @ injectIndexHit cfg) @
     (if forever cfg then [show_int (threads cfg)] else [show_int (numKeys cfg), show_int (threads cfg)])"

lemma arg_flags:
  "parse_args dur (opt_flag b ''--forever'' @ rest) cfg ps = parse_args dur rest (cfg\<lparr>forever := forever cfg \<or> b\<rparr>) ps"
  "parse_args dur (opt_flag b ''--reset-session'' @ rest) cfg ps =
    parse_args dur rest (cfg\<lparr>resetSession := resetSession cfg \<or> b\<rparr>) ps"
  "parse_args dur (opt_flag b ''--simulate-hit'' @ rest) cfg ps =
    parse_args dur rest (cfg\<lparr>simulateHit := simulateHit cfg \<or> b\<rparr>) ps"
  "parse_args dur (opt_flag b ''--no-color'' @ rest) cfg ps = parse_args dur rest (cfg\<lparr>noColor := noColor cfg \<or> b\<rparr>) ps"
  "parse_args dur (opt_flag b ''--quiet'' @ rest) cfg ps = parse_args dur rest (cfg\<lparr>quiet := quiet cfg \<or> b\<rparr>) ps"
  "parse_args dur (opt_flag b ''--verbose'' @ rest) cfg ps = parse_args dur rest (cfg\<lparr>verbose := verbose cfg \<or> b\<rparr>) ps"
  "parse_args dur (opt_flag b ''--simulate-hit-verify-lookup'' @ rest) cfg ps =
    parse_args dur rest (cfg\<lparr>verifyLookup := verifyLookup cfg \<or> b\<rparr>) ps"
  by (simp_all add: opt_flag_def parse_args.simps(2) HasPrefix_def)

lemma arg_values:
  "parse_args dur ((''--checkpoint-interval='' @ v) # rest) cfg ps =
    bindR (set_interval dur v cfg) (\<lambda>cfg. parse_args dur rest cfg ps)"
  "parse_args dur ((''--max-keys='' @ v) # rest) cfg ps = bindR (set_maxKeys v cfg) (\<lambda>cfg. parse_args dur rest cfg ps)"
  "parse_args dur ((''--min-balance='' @ v) # rest) cfg ps =
    bindR (set_minBalance v cfg) (\<lambda>cfg. parse_args dur rest cfg ps)"
  "parse_args dur ((''--simulate-hit-at='' @ v) # rest) cfg ps =
    bindR (set_simulateHitAt v cfg) (\<lambda>cfg. parse_args dur rest cfg ps)"
  "parse_args dur (opt_flag b (''--formats='' @ v) @ rest) cfg ps =
    bindR (if b then set_formats v cfg else Inr cfg) (\<lambda>cfg. parse_args dur rest cfg ps)"
  "parse_args dur (opt_flag b (''--inject-index-hit='' @ v) @ rest) cfg ps =
    parse_args dur rest (if b then cfg\<lparr>injectIndexHit := v\<rparr> else cfg) ps"
  by (simp_all add: opt_flag_def parse_args.simps(2) HasPrefix_def TrimPrefix_def)

lemma arg_positional:
  "v = c # cs \<Longrightarrow> c \<noteq> CHR ''-'' \<Longrightarrow> parse_args dur (v # rest) cfg ps = parse_args dur rest cfg (ps @ [v])"
  by (simp add: parse_args.simps(2) HasPrefix_def)

lemma arg_count: "0 \<le> n \<Longrightarrow> parse_args dur (show_int n # rest) cfg ps = parse_args dur rest cfg (ps @ [show_int n])"
proof -
  assume "0 \<le> n"
  then have "show_int n = show_nat (nat n)" by (simp add: show_int_def)
  moreover obtain c cs where "show_nat (nat n) = c # cs" using show_nat_not_Nil by (meson neq_Nil_conv)
  moreover have "c \<noteq> CHR ''-''" using show_nat_no_special [of "nat n"] \<open>show_nat (nat n) = c # cs\<close> by auto
  ultimately show ?thesis by (simp add: arg_positional)
qed

lemma value_setters:
  "dur v = Some d \<Longrightarrow> d > 0 \<Longrightarrow> set_interval dur v cfg = Inr (cfg\<lparr>checkpointInterval := d\<rparr>)"
  "set_maxKeys (show_nat (unat n)) cfg = Inr (cfg\<lparr>maxKeys := n\<rparr>)"
  "set_minBalance (show_nat (unat n)) cfg = Inr (cfg\<lparr>minBalance := n\<rparr>)"
  "1 \<le> i \<Longrightarrow> i < 2 ^ 63 \<Longrightarrow> set_simulateHitAt (show_int i) cfg = Inr (cfg\<lparr>simulateHitAt := i\<rparr>)"
  "Any m \<Longrightarrow> set_formats (FormatMask_String m) cfg = Inr (cfg\<lparr>formats := m, formatsSet := True\<rparr>)"
  using ParseUint_show [of "unat n"] unsigned_less [of n, where 'a = nat] Atoi_show [of i] format_masks_parse [of m]
  by (simp_all add: set_interval_def set_maxKeys_def set_minBalance_def set_simulateHitAt_def set_formats_def)

text \<open>The flags, without the positional arguments.\<close>

lemma parse_printed_flags:
  assumes "cli_ok cfg" "dur (showDur (checkpointInterval cfg)) = Some (checkpointInterval cfg)"
    and "formatsSet cfg \<or> formats cfg = AllFormats"
  shows "parse_args dur (cli_args showDur cfg) default_cli [] =
    parse_args dur (if forever cfg then [show_int (threads cfg)] else [show_int (numKeys cfg), show_int (threads cfg)])
      (cfg\<lparr>numKeys := 0, threads := 0\<rparr>) []"
proof -
  have ok: "checkpointInterval cfg > 0" "1 \<le> simulateHitAt cfg" "simulateHitAt cfg < 2 ^ 63" "Any (formats cfg)"
    using assms(1) by (simp_all add: cli_ok_def settings_ok_def)
  have cleared: "cfg\<lparr>numKeys := 0, threads := 0\<rparr> = \<lparr>numKeys = 0, threads = 0, minBalance = minBalance cfg,
      forever = forever cfg, checkpointInterval = checkpointInterval cfg, maxKeys = maxKeys cfg,
      resetSession = resetSession cfg, simulateHit = simulateHit cfg, simulateHitAt = simulateHitAt cfg,
      verifyLookup = verifyLookup cfg, injectIndexHit = injectIndexHit cfg, noColor = noColor cfg, quiet = quiet cfg,
      verbose = verbose cfg, formats = formats cfg, formatsSet = formatsSet cfg\<rparr>" by simp
  have fmts: "(if formatsSet cfg then set_formats (FormatMask_String (formats cfg)) c else Inr c) =
      Inr (c\<lparr>formats := formats cfg, formatsSet := formatsSet cfg\<rparr>)" if "formats c = AllFormats" "\<not> formatsSet c" for c
    using assms(3) that value_setters(5) [OF ok(4)] by (cases "formatsSet cfg") auto
  have inject: "(if injectIndexHit cfg \<noteq> '''' then c\<lparr>injectIndexHit := injectIndexHit cfg\<rparr> else c) =
      c\<lparr>injectIndexHit := injectIndexHit cfg\<rparr>" if "injectIndexHit c = ''''" for c
    using that by simp
  show ?thesis
    unfolding cli_args_def arg_flags arg_values value_setters(1) [where dur = dur, OF assms(2) ok(1)]
      value_setters(2,3) value_setters(4) [OF ok(2,3)] bindR_simps cleared
    by (subst fmts) (simp_all add: default_cli_def inject)
qed

text \<open>C40. Every usable configuration can be given on the command line: printing it and parsing the words gives the
  same configuration back, whatever the printer of durations, as long as the parser reads what it prints.\<close>

theorem cli_roundtrip:
  assumes "cli_ok cfg" "dur (showDur (checkpointInterval cfg)) = Some (checkpointInterval cfg)"
    and "formatsSet cfg \<or> formats cfg = AllFormats" "forever cfg \<Longrightarrow> numKeys cfg = 0"
  shows "parseCLI dur (cli_args showDur cfg) = Inr cfg"
proof -
  have n: "0 \<le> threads cfg" "0 \<le> numKeys cfg" "Atoi (show_int (threads cfg)) = Inr (threads cfg)"
    "Atoi (show_int (numKeys cfg)) = Inr (numKeys cfg)"
    using assms(1) Atoi_show [of "threads cfg"] Atoi_show [of "numKeys cfg"] by (simp_all add: cli_ok_def settings_ok_def)
  have flags: "parse_args dur (cli_args showDur cfg) default_cli [] =
    parse_args dur (if forever cfg then [show_int (threads cfg)] else [show_int (numKeys cfg), show_int (threads cfg)])
      (cfg\<lparr>numKeys := 0, threads := 0\<rparr>) []"
    by (rule parse_printed_flags) (use assms in auto)
  have check: "check_config cfg = Inr cfg" using assms(1) by (simp add: check_config_Inr cli_ok_def)
  show ?thesis
  proof (cases "forever cfg")
    case True
    then have "cfg\<lparr>numKeys := 0, threads := threads cfg\<rparr> = cfg" using assms(4) by simp
    then show ?thesis
      using True n check
      by (simp add: parseCLI_def flags arg_count take_positionals_def parse_threads_def)
  next
    case False
    then show ?thesis
      using n check
      by (simp add: parseCLI_def flags arg_count take_positionals_def parse_threads_def Let_def)
  qed
qed


section \<open>Witnesses\<close>

theorem parseCLI_accepts_ok_witness:
  "\<exists>cfg. parseCLI (\<lambda>_. None) [show_int 100, ''--simulate-hit''] = Inr cfg \<and> simulateHit cfg \<and>
    simulateHitAt cfg \<le> numKeys cfg"
proof -
  have "parse_args (\<lambda>_. None) [show_int 100, ''--simulate-hit''] default_cli [] =
      Inr (default_cli\<lparr>simulateHit := True\<rparr>, [show_int 100])"
    using arg_flags(3) [of "\<lambda>_. None" True "[]" default_cli "[show_int 100]"]
    by (simp add: arg_count opt_flag_def)
  then have c: "parseCLI (\<lambda>_. None) [show_int 100, ''--simulate-hit''] =
      Inr (default_cli\<lparr>simulateHit := True, numKeys := 100\<rparr>)"
    using Atoi_show [of 100]
    by (simp add: parseCLI_def take_positionals_def check_config_def default_cli_def Let_def)
  from parseCLI_accepts_ok [OF c] c show ?thesis by (simp add: cli_ok_def default_cli_def)
qed

theorem cli_roundtrip_witness:
  "parseCLI (\<lambda>_. Some (60 * 1000000000))
      (cli_args (\<lambda>_. ''1m0s'') (default_cli\<lparr>forever := True, threads := 8, minBalance := 5\<rparr>)) =
    Inr (default_cli\<lparr>forever := True, threads := 8, minBalance := 5\<rparr>)"
  by (rule cli_roundtrip)
    (simp_all add: default_cli_def cli_ok_def settings_ok_def AllFormats_def Any_def)

end
