(* ===== verification/Session.thy ===== *)
theory Session
  imports Search
begin

text \<open>
  The forever run of search/run.go and its session file. The JSON encoding of a session and the
  floating-point rate are parameters; a time is in nanoseconds, \<open>None\<close> is Go's zero time. A run is
  driven by its turns, as in \<open>Search\<close>; the context may also end between two wallets of a batch.
\<close>

section \<open>The session file\<close>

record 'f sessionState =
  StartedAt :: "int option"
  LastCheckpoint :: int
  TotalKeysTried :: u64
  TotalHits :: u64
  BestKeysPerSecond :: 'f

record 'f session_lib =
  json_Marshal :: "'f sessionState \<Rightarrow> u8 list option"
  json_Unmarshal :: "u8 list \<Rightarrow> 'f sessionState option"
  fl_rate :: "u64 \<Rightarrow> int \<Rightarrow> 'f"
  fl_greater :: "'f \<Rightarrow> 'f \<Rightarrow> bool"
  fl_zero :: 'f

text \<open>The documented behaviour of the encoding: it succeeds and is undone by decoding.\<close>

definition session_laws :: "'f session_lib \<Rightarrow> bool" where
  "session_laws J \<longleftrightarrow> (\<forall>s. case json_Marshal J s of None \<Rightarrow> False
     | Some d \<Rightarrow> json_Unmarshal J d = Some s)"

definition sessionFile :: string where "sessionFile = ''btcfind.session''"

definition fresh_session :: "'f session_lib \<Rightarrow> int \<Rightarrow> 'f sessionState" where
  "fresh_session J now = \<lparr>StartedAt = Some now, LastCheckpoint = now, TotalKeysTried = 0,
     TotalHits = 0, BestKeysPerSecond = fl_zero J\<rparr>"

definition loadSession :: "'f session_lib \<Rightarrow> int \<Rightarrow> fs \<Rightarrow> 'f sessionState" where
  "loadSession J now fs =
     (case fs sessionFile of
        None \<Rightarrow> fresh_session J now
      | Some f \<Rightarrow>
          (case json_Unmarshal J (f_data f) of
             None \<Rightarrow> fresh_session J now
           | Some s \<Rightarrow> if StartedAt s = None then s\<lparr>StartedAt := Some now\<rparr> else s))"

text \<open>Removing the file and its temporary; a removal that fails on a file that exists is an error.\<close>

definition resetSessionFile :: "bool \<Rightarrow> bool \<Rightarrow> fs \<Rightarrow> bool \<times> fs" where
  "resetSessionFile removeFails removeTmpFails fs =
     (if removeFails \<and> fs sessionFile \<noteq> None then (False, fs)
      else
        (let fs = fs(sessionFile := None); tmp = tmp_path sessionFile in
         if removeTmpFails \<and> fs tmp \<noteq> None then (False, fs) else (True, fs(tmp := None))))"

definition initForeverSession ::
  "'f session_lib \<Rightarrow> int \<Rightarrow> bool \<Rightarrow> bool \<Rightarrow> bool \<Rightarrow> fs \<Rightarrow> 'f sessionState option \<times> fs" where
  "initForeverSession J now rmFails rmTmpFails reset fs =
     (if reset then
        (case resetSessionFile rmFails rmTmpFails fs of
           (False, fs) \<Rightarrow> (None, fs)
         | (True, fs) \<Rightarrow> (Some (fresh_session J now), fs))
      else
        (let session = loadSession J now fs in
         (Some (if StartedAt session = None then session\<lparr>StartedAt := Some now\<rparr> else session), fs)))"

text \<open>\<open>WriteFile\<close> of the temporary file and a rename; the argument is the session and the time
  put into \<open>last_checkpoint\<close>. What a failed write leaves in the temporary file does not matter; the
  model takes an empty one.\<close>

definition writeSession ::
  "'f session_lib \<Rightarrow> io_fault \<Rightarrow> int \<Rightarrow> int \<times> 'f sessionState \<Rightarrow> fs \<Rightarrow> os_error option \<times> fs" where
  "writeSession J fault mtime job fs =
     (case json_Marshal J ((snd job)\<lparr>LastCheckpoint := fst job\<rparr>) of
        None \<Rightarrow> (Some WriteError, fs)
      | Some data \<Rightarrow>
          let tmp = tmp_path sessionFile in
          (case fault of
             CreateFails \<Rightarrow> (Some CreateError, fs)
           | WriteFails \<Rightarrow> (Some WriteError, fs(tmp \<mapsto> \<lparr>f_data = [], f_mtime = mtime\<rparr>))
           | CloseFails \<Rightarrow> (Some CloseError, fs(tmp \<mapsto> \<lparr>f_data = data, f_mtime = mtime\<rparr>))
           | RenameFails \<Rightarrow> (Some RenameError, fs(tmp \<mapsto> \<lparr>f_data = data, f_mtime = mtime\<rparr>))
           | NoFault \<Rightarrow> (None, fs(tmp := None, sessionFile \<mapsto> \<lparr>f_data = data, f_mtime = mtime\<rparr>))))"

definition session_content :: "'f session_lib \<Rightarrow> int \<times> 'f sessionState \<Rightarrow> u8 list option" where
  "session_content J job = (case job of (now, s) \<Rightarrow> json_Marshal J (s\<lparr>LastCheckpoint := now\<rparr>))"

interpretation session_writer: atomic_writer "session_content J" "\<lambda>_. sessionFile" "writeSession J"
  for J :: "'f session_lib"
proof
  fix fault now r fs fs' p and e and job :: "int \<times> 'f sessionState"
  obtain t s where job: "job = (t, s)" by (cases job)
  note d = writeSession_def session_content_def Let_def job
  show "writeSession J fault now job fs = (None, fs') \<Longrightarrow>
      \<exists>d. session_content J job = Some d \<and> fs' sessionFile = Some \<lparr>f_data = d, f_mtime = now\<rparr>"
    by (auto simp: d split: option.splits io_fault.splits prod.splits)
  show "writeSession J fault now job fs = (Some e, fs') \<Longrightarrow> fs' sessionFile = fs sessionFile"
    by (auto simp: d split: option.splits io_fault.splits prod.splits)
  show "writeSession J fault now job fs = (r, fs') \<Longrightarrow> p \<noteq> sessionFile \<Longrightarrow>
      p \<noteq> tmp_path sessionFile \<Longrightarrow> fs' p = fs p"
    by (auto simp: d split: option.splits io_fault.splits prod.splits)
  show "session_content J job \<noteq> None \<Longrightarrow> fst (writeSession J NoFault now job fs) = None"
    by (auto simp: d split: option.splits)
qed

section \<open>The forever run\<close>

datatype frecv = FDone | FBatch "(bool \<times> Wallet) list"

record fturn =
  ft_done :: bool
  ft_recv :: frecv
  ft_now :: int
  ft_fault :: io_fault
  ft_write :: int
  ft_restart :: int

text \<open>The clock and the fault of the last write of a run.\<close>

record fend =
  fe_now :: int
  fe_fault :: io_fault
  fe_write :: int

record ('f, 'h) run_state =
  rs_session :: "'f sessionState"
  rs_start :: int
  rs_lastProgress :: int
  rs_lastCheckpoint :: int
  rs_stats :: Stats
  rs_processed :: u64
  rs_runProcessed :: u64
  rs_hits :: u64
  rs_h :: 'h
  rs_fs :: fs

datatype batch_end = BatchOver | BatchMax | BatchCancelled | BatchError search_error

fun forever_batch ::
  "addr_lib \<Rightarrow> 'bf bloom_lib \<Rightarrow> Config \<Rightarrow> 'bf Sets \<Rightarrow> ('f, 'h) Hooks \<Rightarrow> (bool \<times> Wallet) list \<Rightarrow>
     ('f, 'h) run_state \<Rightarrow> batch_end \<times> ('f, 'h) run_state" where
  "forever_batch L B cfg s hooks [] st = (BatchOver, st)"
| "forever_batch L B cfg s hooks ((done, wallet) # ws) st =
     (if done then (BatchCancelled, st)
      else if cfg_MaxKeys cfg > 0 \<and> rs_runProcessed st \<ge> cfg_MaxKeys cfg then (BatchMax, st)
      else
        (let keyIndex = TotalKeysTried (rs_session st) + rs_processed st + 1 in
         case ProcessWallet L B cfg s wallet keyIndex hooks (rs_h st) of
           ((hit, Some err), h) \<Rightarrow> (BatchError err, st\<lparr>rs_h := h\<rparr>)
         | ((hit, None), h) \<Rightarrow>
             forever_batch L B cfg s hooks ws
               (st\<lparr>rs_h := h,
                  rs_hits := (if hit then rs_hits st + 1 else rs_hits st),
                  rs_stats := \<lparr>KeysProcessed = KeysProcessed (rs_stats st) + 1,
                    Hits = (if hit then Hits (rs_stats st) + 1 else Hits (rs_stats st))\<rparr>,
                  rs_processed := rs_processed st + 1,
                  rs_runProcessed := rs_runProcessed st + 1\<rparr>)))"

definition finalizeSessionBestKPS :: "'f session_lib \<Rightarrow> int \<Rightarrow> 'f sessionState \<Rightarrow> 'f sessionState" where
  "finalizeSessionBestKPS J now session =
     (let kps = fl_rate J (TotalKeysTried session)
          (now - (case StartedAt session of None \<Rightarrow> 0 | Some t \<Rightarrow> t))
      in if fl_greater J kps (BestKeysPerSecond session)
         then session\<lparr>BestKeysPerSecond := kps\<rparr> else session)"

text \<open>What the run adds to the session before it writes it.\<close>

definition close_session :: "('f, 'h) run_state \<Rightarrow> 'f sessionState" where
  "close_session st = (rs_session st)\<lparr>
     TotalKeysTried := TotalKeysTried (rs_session st) + rs_processed st, TotalHits := rs_hits st\<rparr>"

definition end_run ::
  "'f session_lib \<Rightarrow> fend \<Rightarrow> bool \<Rightarrow> search_error option \<Rightarrow> ('f, 'h) run_state \<Rightarrow>
     Stats \<times> search_error option \<times> 'h \<times> fs" where
  "end_run J fe finalize err st =
     (let session = close_session st;
          session = (if finalize then finalizeSessionBestKPS J (fe_now fe) session else session)
      in (rs_stats st, err, rs_h st,
          snd (writeSession J (fe_fault fe) (fe_write fe) (fe_write fe, session) (rs_fs st))))"

text \<open>The end of a turn: the progress hook at most every 100 milliseconds, and a checkpoint.\<close>

definition forever_progress ::
  "('f, 'h) Hooks \<Rightarrow> fturn \<Rightarrow> ('f, 'h) run_state \<Rightarrow> ('f, 'h) run_state" where
  "forever_progress hooks t st =
     (case OnForeverProgress hooks of
        None \<Rightarrow> st
      | Some f \<Rightarrow>
          if ft_now t - rs_lastProgress st \<ge> progressGap
          then st\<lparr>rs_h := f (TotalKeysTried (rs_session st) + rs_processed st)
                 (ft_now t - rs_start st) (rs_hits st) (rs_h st), rs_lastProgress := ft_now t\<rparr>
          else st)"

definition checkpoint ::
  "'f session_lib \<Rightarrow> Config \<Rightarrow> fturn \<Rightarrow> ('f, 'h) run_state \<Rightarrow> ('f, 'h) run_state" where
  "checkpoint J cfg t st =
     (if cfg_CheckpointInterval cfg > 0 \<and> ft_now t - rs_lastCheckpoint st \<ge> cfg_CheckpointInterval cfg then
        (let kps = fl_rate J (rs_processed st) (ft_now t - rs_start st);
             session = (if fl_greater J kps (BestKeysPerSecond (rs_session st))
               then (rs_session st)\<lparr>BestKeysPerSecond := kps\<rparr> else rs_session st);
             session = session\<lparr>TotalKeysTried := TotalKeysTried session + rs_processed st,
               TotalHits := rs_hits st\<rparr>
         in st\<lparr>rs_session := session,
              rs_fs := snd (writeSession J (ft_fault t) (ft_write t) (ft_write t, session) (rs_fs st)),
              rs_processed := 0, rs_start := ft_restart t, rs_lastCheckpoint := ft_now t\<rparr>)
      else st)"

text \<open>The loop. When the turns end, the context is not done and no batch arrives: a run that has
  reached its limit ends, any other waits.\<close>

fun foreverLoop ::
  "addr_lib \<Rightarrow> 'bf bloom_lib \<Rightarrow> 'f session_lib \<Rightarrow> Config \<Rightarrow> 'bf Sets \<Rightarrow> ('f, 'h) Hooks \<Rightarrow> fend \<Rightarrow> fturn list \<Rightarrow>
     ('f, 'h) run_state \<Rightarrow> (Stats \<times> search_error option \<times> 'h \<times> fs) option" where
  "foreverLoop L B J cfg s hooks fe [] st =
     (if cfg_MaxKeys cfg > 0 \<and> rs_runProcessed st \<ge> cfg_MaxKeys cfg
      then Some (end_run J fe True None st) else None)"
| "foreverLoop L B J cfg s hooks fe (t # ts) st =
     (if ft_done t then Some (end_run J fe True (Some ContextDone) st)
      else if cfg_MaxKeys cfg > 0 \<and> rs_runProcessed st \<ge> cfg_MaxKeys cfg
      then Some (end_run J fe True None st)
      else
        (case ft_recv t of
           FDone \<Rightarrow> Some (end_run J fe True (Some ContextDone) st)
         | FBatch batch \<Rightarrow>
             (case forever_batch L B cfg s hooks batch st of
                (BatchCancelled, st) \<Rightarrow> Some (end_run J fe True (Some ContextDone) st)
              | (BatchError err, st) \<Rightarrow> Some (end_run J fe False (Some err) st)
              | (BatchMax, st) \<Rightarrow> Some (end_run J fe True None st)
              | (BatchOver, st) \<Rightarrow>
                  foreverLoop L B J cfg s hooks fe ts (checkpoint J cfg t (forever_progress hooks t st)))))"

definition initial_state :: "'f sessionState \<Rightarrow> int \<Rightarrow> 'h \<Rightarrow> fs \<Rightarrow> ('f, 'h) run_state" where
  "initial_state session start h fs =
     \<lparr>rs_session = session, rs_start = start, rs_lastProgress = start, rs_lastCheckpoint = start,
      rs_stats = zero_Stats, rs_processed = 0, rs_runProcessed = 0, rs_hits = TotalHits session,
      rs_h = h, rs_fs = fs\<rparr>"

record renv =
  re_init :: int
  re_start :: int
  re_rmFails :: bool
  re_rmTmpFails :: bool

definition runForever ::
  "addr_lib \<Rightarrow> 'bf bloom_lib \<Rightarrow> 'f session_lib \<Rightarrow> renv \<Rightarrow> fend \<Rightarrow> Config \<Rightarrow> 'bf Sets \<Rightarrow> ('f, 'h) Hooks \<Rightarrow>
     fturn list \<Rightarrow> 'h \<Rightarrow> fs \<Rightarrow> (Stats \<times> search_error option \<times> 'h \<times> fs) option" where
  "runForever L B J env fe cfg s hooks turns h fs =
     (case initForeverSession J (re_init env) (re_rmFails env) (re_rmTmpFails env) (cfg_ResetSession cfg) fs of
        (None, fs) \<Rightarrow> Some (zero_Stats, Some SessionReset, h, fs)
      | (Some session, fs) \<Rightarrow>
          foreverLoop L B J cfg s hooks fe turns (initial_state session (re_start env) h fs))"

text \<open>\<open>Run\<close> picks the loop, and the number of CPUs when the configuration names no threads.\<close>

definition Run_workers :: "int \<Rightarrow> Config \<Rightarrow> int" where
  "Run_workers numCPU cfg = (if cfg_Threads cfg < 1 then numCPU else cfg_Threads cfg)"

definition Run ::
  "addr_lib \<Rightarrow> 'bf bloom_lib \<Rightarrow> 'f session_lib \<Rightarrow> (int \<Rightarrow> int \<Rightarrow> 'f) \<Rightarrow> renv \<Rightarrow> fend \<Rightarrow> Config \<Rightarrow>
     'bf Sets \<Rightarrow> ('f, 'h) Hooks \<Rightarrow> turn list \<Rightarrow> fturn list \<Rightarrow> 'h \<Rightarrow> fs \<Rightarrow>
     (Stats \<times> search_error option \<times> 'h \<times> fs) option" where
  "Run L B J rate env fe cfg s hooks turns fturns h fs =
     (if cfg_Forever cfg then runForever L B J env fe cfg s hooks fturns h fs
      else map_option (\<lambda>(st, e, h). (st, e, h, fs))
        (runBounded L B rate cfg s hooks (re_start env) (fe_now fe) turns h))"

section \<open>What a forever run accounts for\<close>

text \<open>What the progress hook is told after \<open>n\<close> keys and \<open>k\<close> hits of a run that began with the session \<open>s0\<close>: the totals of
  all runs.\<close>

definition tell_forever :: "('f, 'h) Hooks \<Rightarrow> 'f sessionState \<Rightarrow> nat \<Rightarrow> nat \<Rightarrow> int \<Rightarrow> 'h \<Rightarrow> 'h" where
  "tell_forever hooks s0 n k t h =
     (case OnForeverProgress hooks of None \<Rightarrow> h
      | Some f \<Rightarrow> f (TotalKeysTried s0 + of_nat n) t (TotalHits s0 + of_nat k) h)"

text \<open>
  The invariant of a run that began with the session \<open>s0\<close> and the hooks' state \<open>h0\<close>, and has
  processed the wallets \<open>ws\<close>: they were processed in order with indices that go on after the total
  of the session, the statistics count this run, and session and run together count everything.
\<close>

definition run_inv ::
  "addr_lib \<Rightarrow> 'bf bloom_lib \<Rightarrow> Config \<Rightarrow> 'bf Sets \<Rightarrow> ('f, 'h) Hooks \<Rightarrow> 'f sessionState \<Rightarrow> 'h \<Rightarrow> Wallet list \<Rightarrow>
     ('f, 'h) run_state \<Rightarrow> bool" where
  "run_inv L B cfg s hooks s0 h0 ws st \<longleftrightarrow>
     (\<exists>evs k. keys_of evs = ws \<and>
        event_seq L B cfg s hooks (tell_forever hooks s0) (TotalKeysTried s0 + 1) evs 0 0 h0 =
          (length ws, k, None, rs_h st) \<and>
        rs_stats st = add_stats zero_Stats (length ws) k \<and>
        TotalKeysTried (rs_session st) + rs_processed st = TotalKeysTried s0 + of_nat (length ws) \<and>
        rs_runProcessed st = of_nat (length ws) \<and>
        rs_hits st = TotalHits s0 + of_nat k \<and>
        (cfg_MaxKeys cfg > 0 \<longrightarrow> length ws \<le> unat (cfg_MaxKeys cfg)))"

text \<open>The state in which an error of one of the wallets \<open>ws\<close> stops the run.\<close>

definition run_failed ::
  "addr_lib \<Rightarrow> 'bf bloom_lib \<Rightarrow> Config \<Rightarrow> 'bf Sets \<Rightarrow> ('f, 'h) Hooks \<Rightarrow> 'f sessionState \<Rightarrow> 'h \<Rightarrow> Wallet list \<Rightarrow>
     search_error \<Rightarrow> ('f, 'h) run_state \<Rightarrow> bool" where
  "run_failed L B cfg s hooks s0 h0 ws err st \<longleftrightarrow>
     (\<exists>evs n k. keys_of evs = ws \<and>
        event_seq L B cfg s hooks (tell_forever hooks s0) (TotalKeysTried s0 + 1) evs 0 0 h0 =
          (n, k, Some err, rs_h st) \<and>
        rs_stats st = add_stats zero_Stats n k \<and>
        TotalKeysTried (rs_session st) + rs_processed st = TotalKeysTried s0 + of_nat n \<and>
        rs_hits st = TotalHits s0 + of_nat k)"

text \<open>A run that has its number of keys.\<close>

definition run_full :: "Config \<Rightarrow> ('f, 'h) run_state \<Rightarrow> bool" where
  "run_full cfg st \<longleftrightarrow> cfg_MaxKeys cfg > 0 \<and> rs_runProcessed st \<ge> cfg_MaxKeys cfg"

text \<open>The wallets of a batch before the context ends, and those of a run, and whether the context ends it.\<close>

definition live :: "(bool \<times> Wallet) list \<Rightarrow> Wallet list" where
  "live batch = map snd (takeWhile (\<lambda>d. \<not> fst d) batch)"

fun offered :: "fturn list \<Rightarrow> Wallet list \<times> bool" where
  "offered [] = ([], False)"
| "offered (t # ts) =
     (if ft_done t then ([], True)
      else (case ft_recv t of FDone \<Rightarrow> ([], True)
        | FBatch batch \<Rightarrow>
            if length (live batch) < length batch then (live batch, True)
            else (case offered ts of (ws, c) \<Rightarrow> (live batch @ ws, c))))"

text \<open>The wallets a run may try: at most \<open>MaxKeys\<close>, when that is set.\<close>

definition limited :: "Config \<Rightarrow> Wallet list \<Rightarrow> Wallet list" where
  "limited cfg ws = (if cfg_MaxKeys cfg > 0 then take (unat (cfg_MaxKeys cfg)) ws else ws)"

lemma live_simps [simp]: "live [] = []" "live ((d, w) # ds) = (if d then [] else w # live ds)"
  by (simp_all add: live_def)

lemma live_length: "length (live ds) \<le> length ds"
  by (simp add: live_def length_takeWhile_le)

lemma run_inv_limited: "run_inv L B cfg s hooks s0 h0 ws st \<Longrightarrow> limited cfg ws = ws"
  by (auto simp: run_inv_def limited_def)

lemma run_inv_count:
  assumes "run_inv L B cfg s hooks s0 h0 ws st" "cfg_MaxKeys cfg > 0"
  shows "run_full cfg st \<longleftrightarrow> length ws = unat (cfg_MaxKeys cfg)"
proof -
  have "rs_runProcessed st = of_nat (length ws)" and le: "length ws \<le> unat (cfg_MaxKeys cfg)"
    using assms by (auto simp: run_inv_def)
  moreover have "length ws < 2 ^ 64"
    using le unsigned_less [of "cfg_MaxKeys cfg", where 'a = nat] by simp
  ultimately have "unat (rs_runProcessed st) = length ws" by (simp add: unat_of_nat take_bit_nat_eq_self)
  then show ?thesis using assms(2) le by (auto simp: run_full_def word_le_nat_alt)
qed

lemma run_inv_full:
  assumes "run_inv L B cfg s hooks s0 h0 ws st" "run_full cfg st"
  shows "limited cfg (ws @ vs) = ws"
proof -
  have "cfg_MaxKeys cfg > 0" using assms(2) by (simp add: run_full_def)
  then show ?thesis using run_inv_count [OF assms(1)] assms(2) by (simp add: limited_def)
qed

lemma limited_prefix:
  assumes "cfg_MaxKeys cfg > 0 \<Longrightarrow> length ws \<le> unat (cfg_MaxKeys cfg)"
  shows "\<exists>zs. limited cfg (ws @ vs) = ws @ zs"
  using assms by (auto simp: limited_def)

lemma run_failed_more:
  assumes "run_failed L B cfg s hooks s0 h0 ws err st"
  shows "run_failed L B cfg s hooks s0 h0 (ws @ vs) err st"
proof -
  obtain evs n k where e: "keys_of evs = ws"
    "event_seq L B cfg s hooks (tell_forever hooks s0) (TotalKeysTried s0 + 1) evs 0 0 h0 = (n, k, Some err, rs_h st)"
    "rs_stats st = add_stats zero_Stats n k"
    "TotalKeysTried (rs_session st) + rs_processed st = TotalKeysTried s0 + of_nat n"
    "rs_hits st = TotalHits s0 + of_nat k"
    using assms unfolding run_failed_def by blast
  then show ?thesis
    unfolding run_failed_def by (intro exI [of _ "evs @ map TryKey vs"] exI [of _ n] exI [of _ k])
      (simp add: event_seq_append)
qed

lemma run_inv_step:
  assumes inv: "run_inv L B cfg s hooks s0 h0 ws st" and room: "\<not> run_full cfg st"
    and p: "ProcessWallet L B cfg s w (TotalKeysTried (rs_session st) + rs_processed st + 1) hooks (rs_h st) = (r, h)"
  shows "(cfg_MaxKeys cfg > 0 \<longrightarrow> Suc (length ws) \<le> unat (cfg_MaxKeys cfg)) \<and>
    (case r of
       (hit, Some err) \<Rightarrow> run_failed L B cfg s hooks s0 h0 (ws @ [w]) err (st\<lparr>rs_h := h\<rparr>)
     | (hit, None) \<Rightarrow> run_inv L B cfg s hooks s0 h0 (ws @ [w])
         (st\<lparr>rs_h := h, rs_hits := (if hit then rs_hits st + 1 else rs_hits st),
            rs_stats := \<lparr>KeysProcessed = KeysProcessed (rs_stats st) + 1,
              Hits = (if hit then Hits (rs_stats st) + 1 else Hits (rs_stats st))\<rparr>,
            rs_processed := rs_processed st + 1, rs_runProcessed := rs_runProcessed st + 1\<rparr>))"
proof -
  obtain evs k where k: "keys_of evs = ws"
    "event_seq L B cfg s hooks (tell_forever hooks s0) (TotalKeysTried s0 + 1) evs 0 0 h0 =
      (length ws, k, None, rs_h st)"
    "rs_stats st = add_stats zero_Stats (length ws) k"
    "TotalKeysTried (rs_session st) + rs_processed st = TotalKeysTried s0 + of_nat (length ws)"
    "rs_runProcessed st = of_nat (length ws)" "rs_hits st = TotalHits s0 + of_nat k"
    "cfg_MaxKeys cfg > 0 \<Longrightarrow> length ws \<le> unat (cfg_MaxKeys cfg)"
    using inv by (auto simp: run_inv_def)
  have max: "cfg_MaxKeys cfg > 0 \<longrightarrow> Suc (length ws) \<le> unat (cfg_MaxKeys cfg)"
    using run_inv_count [OF inv] room k(7) by (metis le_neq_implies_less Suc_leI)
  have i: "TotalKeysTried s0 + 1 + of_nat (length ws) = TotalKeysTried (rs_session st) + rs_processed st + 1"
    using k(4) by simp
  have seq: "event_seq L B cfg s hooks (tell_forever hooks s0) (TotalKeysTried s0 + 1) (evs @ [TryKey w]) 0 0 h0 =
      (case r of (hit, Some err) \<Rightarrow> (length ws, k, Some err, h)
       | (hit, None) \<Rightarrow> (Suc (length ws), if hit then Suc k else k, None, h))"
    unfolding event_seq_append k(2) by (simp add: i p split: prod.split option.split)
  obtain hit e where r: "r = (hit, e)" by (rule prod.exhaust)
  show ?thesis
  proof (cases e)
    case None
    have "run_inv L B cfg s hooks s0 h0 (ws @ [w])
         (st\<lparr>rs_h := h, rs_hits := (if hit then rs_hits st + 1 else rs_hits st),
            rs_stats := \<lparr>KeysProcessed = KeysProcessed (rs_stats st) + 1,
              Hits = (if hit then Hits (rs_stats st) + 1 else Hits (rs_stats st))\<rparr>,
            rs_processed := rs_processed st + 1, rs_runProcessed := rs_runProcessed st + 1\<rparr>)"
      unfolding run_inv_def
      by (intro exI [of _ "evs @ [TryKey w]"] exI [of _ "if hit then Suc k else k"])
        (use k max seq in \<open>auto simp: r None add_stats_def algebra_simps\<close>)
    then show ?thesis using max by (simp add: r None)
  next
    case (Some err)
    have "run_failed L B cfg s hooks s0 h0 (ws @ [w]) err (st\<lparr>rs_h := h\<rparr>)"
      unfolding run_failed_def
      by (intro exI [of _ "evs @ [TryKey w]"] exI [of _ "length ws"] exI [of _ k]) (use k seq in \<open>simp add: r Some\<close>)
    then show ?thesis using max by (simp add: r Some)
  qed
qed

lemma forever_batch_inv:
  assumes "forever_batch L B cfg s hooks ds st = (out, st')" "run_inv L B cfg s hooks s0 h0 ws st"
  shows "case out of
      BatchOver \<Rightarrow> length (live ds) = length ds \<and> run_inv L B cfg s hooks s0 h0 (ws @ live ds) st'
    | BatchMax \<Rightarrow> (\<exists>m. run_inv L B cfg s hooks s0 h0 (ws @ take m (live ds)) st') \<and> run_full cfg st'
    | BatchCancelled \<Rightarrow> length (live ds) < length ds \<and> run_inv L B cfg s hooks s0 h0 (ws @ live ds) st'
    | BatchError err \<Rightarrow> \<exists>m. run_failed L B cfg s hooks s0 h0 (ws @ take m (live ds)) err st' \<and>
        (cfg_MaxKeys cfg > 0 \<longrightarrow> length (ws @ take m (live ds)) \<le> unat (cfg_MaxKeys cfg))"
  using assms
proof (induction ds arbitrary: st ws)
  case Nil
  then show ?case by simp
next
  case (Cons d ds)
  obtain dn w where d: "d = (dn, w)" by (cases d)
  show ?case
  proof (cases "dn \<or> run_full cfg st")
    case True
    then show ?thesis using Cons.prems by (auto simp: d run_full_def split: if_splits intro: exI [of _ 0])
  next
    case False
    obtain hit e h where p: "ProcessWallet L B cfg s w (TotalKeysTried (rs_session st) + rs_processed st + 1) hooks
        (rs_h st) = ((hit, e), h)" by (metis prod.collapse)
    note step = run_inv_step [OF Cons.prems(2) _ p]
    have room: "\<not> (cfg_MaxKeys cfg > 0 \<and> rs_runProcessed st \<ge> cfg_MaxKeys cfg)" using False by (simp add: run_full_def)
    show ?thesis
    proof (cases e)
      case (Some err)
      then have "out = BatchError err" "st' = st\<lparr>rs_h := h\<rparr>"
        using Cons.prems(1) False room p by (auto simp: d Let_def)
      then show ?thesis using step False Some by (auto simp: d intro!: exI [of _ 1])
    next
      case None
      have "forever_batch L B cfg s hooks ds (st\<lparr>rs_h := h,
          rs_hits := (if hit then rs_hits st + 1 else rs_hits st),
          rs_stats := \<lparr>KeysProcessed = KeysProcessed (rs_stats st) + 1,
            Hits = (if hit then Hits (rs_stats st) + 1 else Hits (rs_stats st))\<rparr>,
          rs_processed := rs_processed st + 1, rs_runProcessed := rs_runProcessed st + 1\<rparr>) = (out, st')"
        using Cons.prems(1) False room p None by (auto simp: d Let_def)
      note ih = Cons.IH [OF this, of "ws @ [w]"]
      have tk: "ws @ w # take m (live ds) = ws @ take (Suc m) (live (d # ds))" for m using False by (simp add: d)
      have ex: "\<exists>m. P (ws @ w # take m (live ds)) \<Longrightarrow> \<exists>m. P (ws @ take m (live (d # ds)))" for P
        unfolding tk by blast
      show ?thesis
        using ih step False None ex [of "\<lambda>v. run_inv L B cfg s hooks s0 h0 v st'"]
          ex [of "\<lambda>v. run_failed L B cfg s hooks s0 h0 v err st' \<and>
            (cfg_MaxKeys cfg > 0 \<longrightarrow> length v \<le> unat (cfg_MaxKeys cfg))" for err]
        by (cases out) (simp_all add: d)
    qed
  qed
qed

text \<open>What a run that may try the wallets \<open>ws\<close> has to satisfy, at its end or while it waits.\<close>

definition run_outcome ::
  "addr_lib \<Rightarrow> 'bf bloom_lib \<Rightarrow> 'f session_lib \<Rightarrow> Config \<Rightarrow> 'bf Sets \<Rightarrow> ('f, 'h) Hooks \<Rightarrow> 'f sessionState \<Rightarrow> 'h \<Rightarrow>
     fend \<Rightarrow> Wallet list \<Rightarrow> bool \<Rightarrow> (Stats \<times> search_error option \<times> 'h \<times> fs) option \<Rightarrow> bool" where
  "run_outcome L B J cfg s hooks s0 h0 fe ws cancelled r \<longleftrightarrow>
     (\<exists>evs n k e h1. keys_of evs = ws \<and>
        event_seq L B cfg s hooks (tell_forever hooks s0) (TotalKeysTried s0 + 1) evs 0 0 h0 = (n, k, e, h1) \<and>
        (case r of
           None \<Rightarrow> e = None \<and> \<not> cancelled \<and> (cfg_MaxKeys cfg > 0 \<longrightarrow> n < unat (cfg_MaxKeys cfg))
         | Some (stats, err, h, fs) \<Rightarrow> h = h1 \<and> stats = add_stats zero_Stats n k \<and>
             (case e of Some x \<Rightarrow> err = Some x
              | None \<Rightarrow> err = Some ContextDone \<and> cancelled \<or>
                  err = None \<and> cfg_MaxKeys cfg > 0 \<and> n = unat (cfg_MaxKeys cfg)) \<and>
             (session_laws J \<and> fe_fault fe = NoFault \<longrightarrow>
               (\<exists>f sess. fs sessionFile = Some f \<and> json_Unmarshal J (f_data f) = Some sess \<and>
                 TotalKeysTried sess = TotalKeysTried s0 + of_nat n \<and>
                 TotalHits sess = TotalHits s0 + of_nat k))))"

lemma writeSession_stored:
  assumes "session_laws J"
  shows "\<exists>f. snd (writeSession J NoFault now (t, s) fs) sessionFile = Some f \<and>
    json_Unmarshal J (f_data f) = Some (s\<lparr>LastCheckpoint := t\<rparr>)"
proof -
  have "case json_Marshal J (s\<lparr>LastCheckpoint := t\<rparr>) of None \<Rightarrow> False
      | Some d \<Rightarrow> json_Unmarshal J d = Some (s\<lparr>LastCheckpoint := t\<rparr>)"
    using assms unfolding session_laws_def by (rule spec)
  then obtain d where "json_Marshal J (s\<lparr>LastCheckpoint := t\<rparr>) = Some d"
    "json_Unmarshal J d = Some (s\<lparr>LastCheckpoint := t\<rparr>)"
    by (auto split: option.splits)
  then show ?thesis by (simp add: writeSession_def)
qed

lemma finalize_totals [simp]:
  "TotalKeysTried (finalizeSessionBestKPS J now s) = TotalKeysTried s"
  "TotalHits (finalizeSessionBestKPS J now s) = TotalHits s"
  "StartedAt (finalizeSessionBestKPS J now s) = StartedAt s"
  by (simp_all add: finalizeSessionBestKPS_def Let_def)

lemma end_run_stored:
  assumes "session_laws J" "fe_fault fe = NoFault" "end_run J fe fin err st = (stats, err', h, fs)"
  shows "\<exists>f sess. fs sessionFile = Some f \<and> json_Unmarshal J (f_data f) = Some sess \<and>
    TotalKeysTried sess = TotalKeysTried (rs_session st) + rs_processed st \<and> TotalHits sess = rs_hits st"
proof -
  let ?s = "if fin then finalizeSessionBestKPS J (fe_now fe) (close_session st) else close_session st"
  have "fs = snd (writeSession J NoFault (fe_write fe) (fe_write fe, ?s) (rs_fs st))"
    using assms(2,3) by (auto simp: end_run_def Let_def)
  then show ?thesis
    using writeSession_stored [OF assms(1), of "fe_write fe" "fe_write fe" ?s "rs_fs st"]
    by (auto simp: close_session_def)
qed

lemma end_run_simps:
  "end_run J fe fin err st = (stats, err', h, fs) \<Longrightarrow> stats = rs_stats st \<and> err' = err \<and> h = rs_h st"
  by (auto simp: end_run_def Let_def)

lemma end_run_outcome:
  assumes "run_inv L B cfg s hooks s0 h0 ws st" "err = Some ContextDone \<and> c \<or> err = None \<and> run_full cfg st"
  shows "run_outcome L B J cfg s hooks s0 h0 fe ws c (Some (end_run J fe fin err st))"
proof -
  obtain evs k where k: "keys_of evs = ws"
    "event_seq L B cfg s hooks (tell_forever hooks s0) (TotalKeysTried s0 + 1) evs 0 0 h0 =
      (length ws, k, None, rs_h st)"
    "rs_stats st = add_stats zero_Stats (length ws) k"
    "TotalKeysTried (rs_session st) + rs_processed st = TotalKeysTried s0 + of_nat (length ws)"
    "rs_hits st = TotalHits s0 + of_nat k"
    using assms(1) unfolding run_inv_def by blast
  have full: "run_full cfg st \<Longrightarrow> cfg_MaxKeys cfg > 0 \<and> length ws = unat (cfg_MaxKeys cfg)"
    using run_inv_count [OF assms(1)] by (auto simp: run_full_def)
  obtain stats err' h fs where r: "end_run J fe fin err st = (stats, err', h, fs)" by (metis prod_cases4)
  show ?thesis
    unfolding run_outcome_def r option.case prod.case
    by (intro exI [of _ evs] exI [of _ "length ws"] exI [of _ k] exI [of _ None] exI [of _ "rs_h st"])
      (use k full assms(2) end_run_simps [OF r] end_run_stored [OF _ _ r] in auto)
qed

lemma failed_run_outcome:
  assumes "run_failed L B cfg s hooks s0 h0 ws err st"
  shows "run_outcome L B J cfg s hooks s0 h0 fe ws c (Some (end_run J fe fin (Some err) st))"
proof -
  obtain evs n k where k: "keys_of evs = ws"
    "event_seq L B cfg s hooks (tell_forever hooks s0) (TotalKeysTried s0 + 1) evs 0 0 h0 = (n, k, Some err, rs_h st)"
    "rs_stats st = add_stats zero_Stats n k"
    "TotalKeysTried (rs_session st) + rs_processed st = TotalKeysTried s0 + of_nat n"
    "rs_hits st = TotalHits s0 + of_nat k"
    using assms unfolding run_failed_def by blast
  obtain stats err' h fs where r: "end_run J fe fin (Some err) st = (stats, err', h, fs)" by (metis prod_cases4)
  show ?thesis
    unfolding run_outcome_def r option.case prod.case
    by (intro exI [of _ evs] exI [of _ n] exI [of _ k] exI [of _ "Some err"] exI [of _ "rs_h st"])
      (use k end_run_simps [OF r] end_run_stored [OF _ _ r] in auto)
qed

lemma waiting_outcome:
  assumes "run_inv L B cfg s hooks s0 h0 ws st" "\<not> run_full cfg st"
  shows "run_outcome L B J cfg s hooks s0 h0 fe ws False None"
proof -
  obtain evs k where k: "keys_of evs = ws"
    "event_seq L B cfg s hooks (tell_forever hooks s0) (TotalKeysTried s0 + 1) evs 0 0 h0 =
      (length ws, k, None, rs_h st)"
    "cfg_MaxKeys cfg > 0 \<longrightarrow> length ws \<le> unat (cfg_MaxKeys cfg)"
    using assms(1) unfolding run_inv_def by blast
  moreover have "cfg_MaxKeys cfg > 0 \<Longrightarrow> length ws \<noteq> unat (cfg_MaxKeys cfg)"
    using run_inv_count [OF assms(1)] assms(2) by simp
  ultimately show ?thesis
    unfolding run_outcome_def
    by (intro exI [of _ evs] exI [of _ "length ws"] exI [of _ k] exI [of _ None] exI [of _ "rs_h st"]) auto
qed

lemma checkpoint_inv:
  "run_inv L B cfg s hooks s0 h0 ws st \<Longrightarrow> run_inv L B cfg s hooks s0 h0 ws (checkpoint J cfg t st)"
  by (auto simp: run_inv_def checkpoint_def Let_def)

text \<open>An announcement tells the totals, and changes nothing else.\<close>

lemma progress_inv:
  assumes "run_inv L B cfg s hooks s0 h0 ws st"
  shows "run_inv L B cfg s hooks s0 h0 ws (forever_progress hooks t st)"
proof -
  obtain evs k where k: "keys_of evs = ws"
    "event_seq L B cfg s hooks (tell_forever hooks s0) (TotalKeysTried s0 + 1) evs 0 0 h0 =
      (length ws, k, None, rs_h st)"
    "rs_stats st = add_stats zero_Stats (length ws) k"
    "TotalKeysTried (rs_session st) + rs_processed st = TotalKeysTried s0 + of_nat (length ws)"
    "rs_runProcessed st = of_nat (length ws)" "rs_hits st = TotalHits s0 + of_nat k"
    "cfg_MaxKeys cfg > 0 \<longrightarrow> length ws \<le> unat (cfg_MaxKeys cfg)"
    using assms unfolding run_inv_def by blast
  show ?thesis
  proof (cases "OnForeverProgress hooks = None \<or> ft_now t - rs_lastProgress st < progressGap")
    case True
    then have "forever_progress hooks t st = st" by (auto simp: forever_progress_def split: option.split)
    then show ?thesis using assms by simp
  next
    case False
    let ?t = "ft_now t - rs_start st"
    have "forever_progress hooks t st =
        st\<lparr>rs_h := tell_forever hooks s0 (length ws) k ?t (rs_h st), rs_lastProgress := ft_now t\<rparr>"
      using False by (auto simp: forever_progress_def tell_forever_def k(4,6))
    then show ?thesis
      unfolding run_inv_def by (intro exI [of _ "evs @ [Announce ?t]"] exI [of _ k]) (simp add: k event_seq_append)
  qed
qed

lemma foreverLoop_outcome:
  "run_inv L B cfg s hooks s0 h0 ws st \<Longrightarrow>
    run_outcome L B J cfg s hooks s0 h0 fe (limited cfg (ws @ fst (offered turns))) (snd (offered turns))
      (foreverLoop L B J cfg s hooks fe turns st)"
proof (induction turns arbitrary: ws st)
  case Nil
  then show ?case
    using end_run_outcome [OF Nil, of None False] waiting_outcome [OF Nil] run_inv_limited [OF Nil]
    by (simp add: run_full_def)
next
  case (Cons t ts)
  note end_now = end_run_outcome [OF Cons.prems] run_inv_limited [OF Cons.prems] run_inv_full [OF Cons.prems]
  show ?case
  proof (cases "ft_done t \<or> run_full cfg st \<or> ft_recv t = FDone")
    case True
    then show ?thesis using end_now by (auto simp: run_full_def)
  next
    case False
    then obtain batch where batch: "ft_recv t = FBatch batch" by (cases "ft_recv t") auto
    have room: "\<not> ft_done t" "\<not> (cfg_MaxKeys cfg > 0 \<and> rs_runProcessed st \<ge> cfg_MaxKeys cfg)"
      using False by (auto simp: run_full_def)
    obtain out st' where b: "forever_batch L B cfg s hooks batch st = (out, st')" by (rule prod.exhaust)
    note inv = forever_batch_inv [OF b Cons.prems]
    have "\<exists>vs. fst (offered (t # ts)) = live batch @ vs" using room(1) by (simp add: batch case_prod_unfold)
    then obtain vs where vs: "fst (offered (t # ts)) = live batch @ vs" by blast
    show ?thesis
    proof (cases out)
      case BatchOver
      let ?st = "checkpoint J cfg t (forever_progress hooks t st')"
      have all: "length (live batch) = length batch" and i: "run_inv L B cfg s hooks s0 h0 (ws @ live batch) st'"
        using inv BatchOver by simp_all
      show ?thesis
        using Cons.IH [OF checkpoint_inv [OF progress_inv [OF i, of t], of J t]] all room
        by (auto simp: batch b BatchOver case_prod_unfold)
    next
      case BatchMax
      then obtain m where i: "run_inv L B cfg s hooks s0 h0 (ws @ take m (live batch)) st'" and full: "run_full cfg st'"
        using inv by auto
      have "ws @ live batch @ vs = (ws @ take m (live batch)) @ drop m (live batch) @ vs" by simp
      then have "limited cfg (ws @ live batch @ vs) = ws @ take m (live batch)"
        using run_inv_full [OF i full] by metis
      then show ?thesis
        using end_run_outcome [OF i, of None] full room by (auto simp: vs batch b BatchMax simp del: offered.simps)
    next
      case BatchCancelled
      then have i: "run_inv L B cfg s hooks s0 h0 (ws @ live batch) st'" and less: "length (live batch) < length batch"
        using inv by auto
      then show ?thesis
        using end_run_outcome [OF i, of "Some ContextDone" True] run_inv_limited [OF i] room
        by (auto simp: batch b BatchCancelled)
    next
      case (BatchError err)
      then obtain m where f: "run_failed L B cfg s hooks s0 h0 (ws @ take m (live batch)) err st'"
        and le: "cfg_MaxKeys cfg > 0 \<Longrightarrow> length (ws @ take m (live batch)) \<le> unat (cfg_MaxKeys cfg)"
        using inv by auto
      obtain zs where "limited cfg ((ws @ take m (live batch)) @ drop m (live batch) @ vs) = (ws @ take m (live batch)) @ zs"
        using limited_prefix [of cfg, OF le] by blast
      then have "limited cfg (ws @ live batch @ vs) = (ws @ take m (live batch)) @ zs"
        by (metis append.assoc append_take_drop_id)
      then show ?thesis
        using failed_run_outcome [OF run_failed_more [OF f, of zs]] room
        by (auto simp: vs batch b BatchError simp del: offered.simps append_assoc)
    qed
  qed
qed

lemma initial_inv:
  "run_inv L B cfg s hooks s0 h [] (initial_state s0 start h fs)"
  by (auto simp: run_inv_def initial_state_def intro!: exI [of _ "[]"])

lemma runForever_outcome:
  assumes "initForeverSession J (re_init env) (re_rmFails env) (re_rmTmpFails env) (cfg_ResetSession cfg) fs
      = (Some s0, fs0)"
  shows "run_outcome L B J cfg s hooks s0 h fe (limited cfg (fst (offered turns))) (snd (offered turns))
    (runForever L B J env fe cfg s hooks turns h fs)"
  using foreverLoop_outcome [OF initial_inv [of L B cfg s hooks s0 h "re_start env" fs0], of J fe turns] assms
  by (simp add: runForever_def)

text \<open>C9. A forever run accounts for every key, whatever its hooks do. It tries the wallets offered to it before the
  context ends, at most \<open>MaxKeys\<close> of them, in order and with indices that go on where the session stopped, across
  batches and checkpoints; in between it announces the totals of all runs so far; its statistics and the state of its
  hooks are those of that sequence. It ends for an error of a wallet, the end of the context, or exactly \<open>MaxKeys\<close> keys,
  and waits only when none of these has come; and if the last write succeeds, the session file holds the totals of
  all runs.\<close>

theorem runForever_accounts:
  assumes "initForeverSession J (re_init env) (re_rmFails env) (re_rmTmpFails env) (cfg_ResetSession cfg) fs
      = (Some s0, fs0)"
  shows "\<exists>evs n k e h1. keys_of evs = limited cfg (fst (offered turns)) \<and>
    event_seq L B cfg s hooks (tell_forever hooks s0) (TotalKeysTried s0 + 1) evs 0 0 h = (n, k, e, h1) \<and>
    (case runForever L B J env fe cfg s hooks turns h fs of
       None \<Rightarrow> e = None \<and> \<not> snd (offered turns) \<and> (cfg_MaxKeys cfg > 0 \<longrightarrow> n < unat (cfg_MaxKeys cfg))
     | Some (stats, err, h', fs') \<Rightarrow> h' = h1 \<and> stats = add_stats zero_Stats n k \<and>
         (case e of Some x \<Rightarrow> err = Some x
          | None \<Rightarrow> err = Some ContextDone \<and> snd (offered turns) \<or>
              err = None \<and> cfg_MaxKeys cfg > 0 \<and> n = unat (cfg_MaxKeys cfg)) \<and>
         (session_laws J \<and> fe_fault fe = NoFault \<longrightarrow>
           (\<exists>f sess. fs' sessionFile = Some f \<and> json_Unmarshal J (f_data f) = Some sess \<and>
             TotalKeysTried sess = TotalKeysTried s0 + of_nat n \<and> TotalHits sess = TotalHits s0 + of_nat k)))"
  using runForever_outcome [OF assms] unfolding run_outcome_def .

text \<open>C25. A search resumes, whatever its hooks do: after a run whose last write succeeded, a new run without
  \<open>--reset-session\<close> starts from the totals of the old session plus what the run counted; with
  \<open>--reset-session\<close> it starts from zero and the file is gone.\<close>

theorem session_resumes:
  assumes "session_laws J" "fe_fault fe = NoFault"
    and "initForeverSession J (re_init env) (re_rmFails env) (re_rmTmpFails env) (cfg_ResetSession cfg) fs
      = (Some s0, fs0)"
    and "runForever L B J env fe cfg s hooks turns h fs = Some (stats, err, h', fs')"
  shows "(\<exists>s1. initForeverSession J now False False False fs' = (Some s1, fs') \<and>
      TotalKeysTried s1 = TotalKeysTried s0 + KeysProcessed stats \<and>
      TotalHits s1 = TotalHits s0 + Hits stats) \<and>
    (\<exists>s1 fs1. initForeverSession J now False False True fs' = (Some s1, fs1) \<and>
      TotalKeysTried s1 = 0 \<and> TotalHits s1 = 0 \<and> fs1 sessionFile = None)"
proof -
  obtain n k f sess where k: "stats = add_stats zero_Stats n k" "fs' sessionFile = Some f"
    "json_Unmarshal J (f_data f) = Some sess" "TotalKeysTried sess = TotalKeysTried s0 + of_nat n"
    "TotalHits sess = TotalHits s0 + of_nat k"
    using runForever_outcome [OF assms(3), where L = L and B = B and s = s and hooks = hooks and h = h and fe = fe and
        turns = turns] assms(1,2,4) unfolding run_outcome_def by auto
  then show ?thesis
    by (auto simp: initForeverSession_def loadSession_def Let_def fresh_session_def resetSessionFile_def
        zero_Stats_def tmp_path_def sessionFile_def)
qed

text \<open>Writing the session is atomic: wherever it fails, the session file holds the old content or
  the whole new one, and it is the new one exactly when no error is returned.\<close>

theorem writeSession_atomic:
  assumes "writeSession J fault mtime (now, s) fs = (err, fs')"
  shows "case err of Some e \<Rightarrow> fs' sessionFile = fs sessionFile
    | None \<Rightarrow> \<exists>d. json_Marshal J (s\<lparr>LastCheckpoint := now\<rparr>) = Some d \<and>
        fs' sessionFile = Some \<lparr>f_data = d, f_mtime = mtime\<rparr>"
  using session_writer.success [of J fault mtime "(now, s)" fs fs']
    session_writer.failure [of J fault mtime "(now, s)" fs _ fs'] assms
  by (cases err) (simp_all add: session_content_def)

section \<open>Witnesses\<close>

text \<open>An encoding of sessions that obeys the laws: the totals in eight bytes each, the times in unary.\<close>

definition enc_time :: "int \<Rightarrow> u8 list" where
  "enc_time t = (if t < 0 then 2 else 3) # replicate (nat \<bar>t\<bar>) 1"

definition dec_time :: "u8 list \<Rightarrow> int" where
  "dec_time d = (if hd d = 2 then - int (length (tl d)) else int (length (tl d)))"

lemma dec_enc_time [simp]: "dec_time (enc_time t) = t"
  by (simp add: enc_time_def dec_time_def)

lemma enc_time_nonzero: "takeWhile (\<lambda>b. b \<noteq> 0) (enc_time t @ 0 # r) = enc_time t"
  by (simp add: enc_time_def takeWhile_append)

definition sample_session :: "unit session_lib" where
  "sample_session =
     \<lparr>json_Marshal = (\<lambda>s. Some (PutUint64 (TotalKeysTried s) @ PutUint64 (TotalHits s) @
        enc_time (LastCheckpoint s) @ 0 # (case StartedAt s of None \<Rightarrow> [] | Some t \<Rightarrow> enc_time t))),
      json_Unmarshal = (\<lambda>d. let times = drop 16 d; l = takeWhile (\<lambda>b. b \<noteq> 0) times;
          st = drop (length l + 1) times in
        Some \<lparr>StartedAt = (if st = [] then None else Some (dec_time st)), LastCheckpoint = dec_time l,
          TotalKeysTried = Uint64 (take 8 d), TotalHits = Uint64 (take 8 (drop 8 d)),
          BestKeysPerSecond = ()\<rparr>),
      fl_rate = (\<lambda>_ _. ()), fl_greater = (\<lambda>_ _. False), fl_zero = ()\<rparr>"

lemma sample_session_laws: "session_laws sample_session"
proof -
  have "enc_time t \<noteq> []" for t by (simp add: enc_time_def)
  then show ?thesis
    using Uint64_PutUint64 [of _ "[]"]
    by (simp add: session_laws_def sample_session_def enc_time_nonzero Let_def split: option.split)
qed

definition sample_forever :: Config where
  "sample_forever = sample_cfg\<lparr>cfg_Forever := True, cfg_MaxKeys := 1, cfg_InjectIndexHit := ''''\<rparr>"

definition sample_renv :: renv where
  "sample_renv = \<lparr>re_init = 1, re_start = 2, re_rmFails = False, re_rmTmpFails = False\<rparr>"

definition sample_end :: fend where
  "sample_end = \<lparr>fe_now = 9, fe_fault = NoFault, fe_write = 9\<rparr>"

definition sample_turns :: "fturn list" where
  "sample_turns = [\<lparr>ft_done = False, ft_recv = FBatch [(False, sample_wallet), (False, sample_wallet)],
     ft_now = 3, ft_fault = NoFault, ft_write = 3, ft_restart = 3\<rparr>]"

lemma sample_init:
  "initForeverSession sample_session (re_init sample_renv) (re_rmFails sample_renv)
    (re_rmTmpFails sample_renv) (cfg_ResetSession sample_forever) Map.empty =
    (Some (fresh_session sample_session 1), Map.empty)"
  by (simp add: initForeverSession_def sample_renv_def sample_forever_def sample_cfg_def loadSession_def
      fresh_session_def)

lemma sample_run:
  "\<exists>stats h fs. runForever L B sample_session sample_renv sample_end sample_forever s recorder
    sample_turns [] Map.empty = Some (stats, None, h, fs)"
proof -
  have e: "effective_keys L sample_forever s w i = Inr (Keys w)" for w i
    by (simp add: effective_keys_def sample_forever_def)
  show ?thesis
    using sample_init
    by (simp add: runForever_def sample_turns_def initial_state_def Process_recorder e Let_def end_run_def)
      (simp add: sample_forever_def)
qed

text \<open>Hooks that write down the totals they are told, and a turn after which there is an announcement and a
  checkpoint.\<close>

definition totals :: "(unit, u64 list) Hooks" where
  "totals = \<lparr>OnProgress = None, OnForeverProgress = Some (\<lambda>n t k h. h @ [n]), OnSummary = None, OnHit = None,
     OnInjectLog = None, OnLookupVerify = None\<rparr>"

definition late_turns :: "fturn list" where
  "late_turns = [\<lparr>ft_done = False, ft_recv = FBatch [(False, sample_wallet)], ft_now = 200000000, ft_fault = NoFault,
     ft_write = 200000001, ft_restart = 200000002\<rparr>]"

definition checkpointed :: Config where
  "checkpointed = sample_forever\<lparr>cfg_CheckpointInterval := 1\<rparr>"

lemma Process_totals: "\<exists>hit. ProcessWallet L B checkpointed s w i totals h = ((hit, None), h)"
  by (auto simp: ProcessWallet_def injected_keys_def call_hit_def totals_def checkpointed_def sample_forever_def
      sample_cfg_def Let_def split: prod.split)

lemma totals_run:
  "\<exists>stats fs. runForever L B sample_session sample_renv sample_end checkpointed s totals late_turns [] Map.empty =
    Some (stats, None, [1], fs)"
proof -
  have i: "initForeverSession sample_session (re_init sample_renv) (re_rmFails sample_renv) (re_rmTmpFails sample_renv)
      (cfg_ResetSession checkpointed) Map.empty = (Some (fresh_session sample_session 1), Map.empty)"
    using sample_init by (simp add: checkpointed_def)
  obtain hit where p: "ProcessWallet L B checkpointed s sample_wallet 1 totals [] = ((hit, None), [])"
    using Process_totals by blast
  have m: "cfg_MaxKeys checkpointed = 1" "re_start sample_renv = 2"
    "OnForeverProgress totals = Some (\<lambda>n t k h. h @ [n])"
    by (simp_all add: checkpointed_def sample_forever_def sample_renv_def totals_def)
  show ?thesis
    by (simp add: runForever_def i late_turns_def initial_state_def fresh_session_def m p Let_def end_run_def
        forever_progress_def progressGap_def checkpoint_def)
qed

theorem runForever_accounts_witness:
  "\<exists>k fs f sess. runForever sample_lib sample_bloom sample_session sample_renv sample_end checkpointed sample_sets totals
      late_turns [] Map.empty = Some (add_stats zero_Stats 1 k, None, [1], fs) \<and>
    fs sessionFile = Some f \<and> json_Unmarshal sample_session (f_data f) = Some sess \<and> TotalKeysTried sess = 1"
proof -
  obtain stats fs where r: "runForever sample_lib sample_bloom sample_session sample_renv sample_end checkpointed
      sample_sets totals late_turns [] Map.empty = Some (stats, None, [1], fs)"
    using totals_run by blast
  have c: "cfg_MaxKeys checkpointed = 1" "cfg_ResetSession checkpointed = cfg_ResetSession sample_forever"
    "fe_fault sample_end = NoFault"
    by (simp_all add: checkpointed_def sample_forever_def sample_end_def)
  show ?thesis
    using runForever_accounts [OF sample_init [folded c(2)], where L = sample_lib and B = sample_bloom and
        s = sample_sets and hooks = totals and h = "[]" and fe = sample_end and turns = late_turns] r
      sample_session_laws c(1,3)
    by (auto simp: fresh_session_def split: option.splits)
qed

theorem session_resumes_witness:
  "\<exists>stats h fs s1. runForever sample_lib sample_bloom sample_session sample_renv sample_end sample_forever
      sample_sets recorder sample_turns [] Map.empty = Some (stats, None, h, fs) \<and>
    initForeverSession sample_session 20 False False False fs = (Some s1, fs) \<and>
    TotalKeysTried s1 = KeysProcessed stats"
proof -
  obtain stats h fs where r: "runForever sample_lib sample_bloom sample_session sample_renv sample_end
      sample_forever sample_sets recorder sample_turns [] Map.empty = Some (stats, None, h, fs)"
    using sample_run by blast
  have "fe_fault sample_end = NoFault" by (simp add: sample_end_def)
  from session_resumes [OF sample_session_laws this sample_init r, of 20] r
  show ?thesis by (auto simp: fresh_session_def)
qed

theorem writeSession_atomic_witness:
  "snd (writeSession sample_session RenameFails 5 (5, fresh_session sample_session 1) Map.empty) sessionFile = None"
proof -
  obtain fs' where w: "writeSession sample_session RenameFails 5 (5, fresh_session sample_session 1) Map.empty =
      (Some RenameError, fs')"
    by (simp add: writeSession_def sample_session_def)
  show ?thesis using writeSession_atomic [OF w] w by simp
qed

end
