(* ===== verification/HookViews.thy ===== *)
theory HookViews
  imports Session
begin

text \<open>
  What the callers of the search see of it. The hooks of a caller keep a state of which only a part matters (the
  lines of a log, the hits posted), the rest being progress display. The interface \<open>hook_view\<close> says that a view
  of the state changes by reported hits alone; then a run seen through the view is a run of the hooks that only
  take hits.
\<close>

section \<open>Hooks that only take hits\<close>

definition hit_hooks :: "(HitEvent \<Rightarrow> 'v \<Rightarrow> search_error option \<times> 'v) \<Rightarrow> ('f, 'v) Hooks" where
  "hit_hooks hit = \<lparr>OnProgress = None, OnForeverProgress = None, OnSummary = None, OnHit = Some hit,
     OnInjectLog = None, OnLookupVerify = None\<rparr>"

lemma hit_hooks_simps [simp]:
  "call_hit (hit_hooks hit) = hit" "OnProgress (hit_hooks hit) = None" "OnForeverProgress (hit_hooks hit) = None"
  "OnSummary (hit_hooks hit) = None" "OnInjectLog (hit_hooks hit) = None" "OnLookupVerify (hit_hooks hit) = None"
  "emitLookupVerify B (hit_hooks hit) s keys k b h = h" "call_summary rate (hit_hooks hit) cfg took h = h"
  "call_progress (hit_hooks hit) processed numKeys start now lastProgress h = (lastProgress, h)"
  by (simp_all add: hit_hooks_def call_hit_def emitLookupVerify_def call_summary_def call_progress_def fun_eq_iff)

lemma recorder_hit_hooks: "recorder = hit_hooks (\<lambda>ev h. (None, h @ [ev]))"
  by (simp add: recorder_def hit_hooks_def)

text \<open>A run state seen through a view; the time of the last progress line does not matter.\<close>

definition run_view :: "('h \<Rightarrow> 'v) \<Rightarrow> int \<Rightarrow> ('f, 'h) run_state \<Rightarrow> ('f, 'v) run_state" where
  "run_view view lp st =
     \<lparr>rs_session = rs_session st, rs_start = rs_start st, rs_lastProgress = lp,
      rs_lastCheckpoint = rs_lastCheckpoint st, rs_stats = rs_stats st, rs_processed = rs_processed st,
      rs_runProcessed = rs_runProcessed st, rs_hits = rs_hits st, rs_h = view (rs_h st), rs_fs = rs_fs st\<rparr>"

lemma run_view_simps [simp]:
  "rs_session (run_view view lp st) = rs_session st" "rs_start (run_view view lp st) = rs_start st"
  "rs_lastCheckpoint (run_view view lp st) = rs_lastCheckpoint st" "rs_stats (run_view view lp st) = rs_stats st"
  "rs_processed (run_view view lp st) = rs_processed st" "rs_runProcessed (run_view view lp st) = rs_runProcessed st"
  "rs_hits (run_view view lp st) = rs_hits st" "rs_h (run_view view lp st) = view (rs_h st)"
  "rs_fs (run_view view lp st) = rs_fs st"
  by (simp_all add: run_view_def)

lemma run_view_checkpoint: "checkpoint J cfg t (run_view view lp st) = run_view view lp (checkpoint J cfg t st)"
  by (simp add: checkpoint_def Let_def run_view_def)

lemma run_view_end:
  "end_run J fe b err (run_view view lp st) = (case end_run J fe b err st of (a, e, h, fs) \<Rightarrow> (a, e, view h, fs))"
  by (simp add: end_run_def Let_def close_session_def)

lemma run_view_initial: "initial_state s0 start (view h) fs = run_view view start (initial_state s0 start h fs)"
  by (simp add: initial_state_def run_view_def)

lemma hit_hooks_progress [simp]: "forever_progress (hit_hooks hit) t st = st"
  by (simp add: forever_progress_def)

locale hook_view =
  fixes hooks :: "('f, 'h) Hooks" and view :: "'h \<Rightarrow> 'v"
    and hit :: "HitEvent \<Rightarrow> 'v \<Rightarrow> search_error option \<times> 'v"
  assumes on_hit: "hit ev (view h) = map_prod id view (call_hit hooks ev h)"
    and on_progress: "OnProgress hooks = Some p \<Longrightarrow> view (p a b c h) = view h"
    and on_forever_progress: "OnForeverProgress hooks = Some fp \<Longrightarrow> view (fp n c m h) = view h"
    and on_summary: "OnSummary hooks = Some q \<Longrightarrow> view (q c b avg h) = view h"
    and on_inject_log: "OnInjectLog hooks = Some j \<Longrightarrow> view (j x y h) = view h"
    and on_lookup_verify: "OnLookupVerify hooks = Some l \<Longrightarrow> view (l ev' h) = view h"
begin

lemma view_injected:
  "injected_keys L cfg s w i (hit_hooks hit :: ('f, 'v) Hooks) (view h) =
    map_prod id view (injected_keys L cfg s w i hooks h)"
  by (auto simp: injected_keys_def on_inject_log split: sum.split option.split)

lemma view_verify: "view (emitLookupVerify B hooks s keys k b h) = view h"
  by (simp add: emitLookupVerify_def on_lookup_verify split: option.split)

lemma view_process:
  "ProcessWallet L B cfg s w i (hit_hooks hit :: ('f, 'v) Hooks) (view h) =
    map_prod id view (ProcessWallet L B cfg s w i hooks h)"
proof -
  obtain r h1 where i1: "injected_keys L cfg s w i hooks h = (r, h1)" by (rule prod.exhaust)
  have iv: "injected_keys L cfg s w i (hit_hooks hit :: ('f, 'v) Hooks) (view h) = (r, view h1)"
    by (simp add: view_injected i1)
  show ?thesis
  proof (cases r)
    case (Inl e)
    then show ?thesis by (simp add: ProcessWallet_def i1 iv)
  next
    case (Inr keys)
    obtain kind ok where m: "Match B s keys (cfg_Formats cfg) = (kind, ok)" by (rule prod.exhaust)
    let ?real = "\<lparr>ev_Wallet = w\<lparr>Keys := keys\<rparr>, ev_Kind = kind, ev_KeyIndex = i,
      ev_BalanceSats = BalanceForMatch s kind keys, ev_Simulated = False\<rparr>"
    let ?sim = "\<lparr>ev_Wallet = w\<lparr>Keys := keys\<rparr>, ev_Kind = simulateDisplayKind keys kind ok, ev_KeyIndex = i,
      ev_BalanceSats = 0, ev_Simulated = True\<rparr>"
    obtain e1 h2 where c1: "(if ok then call_hit hooks ?real h1 else (None, h1)) = (e1, h2)" by (rule prod.exhaust)
    have v1: "(if ok then hit ?real (view h1) else (None, view h1)) = (e1, view h2)"
      using c1 on_hit [of ?real h1] by (cases ok) simp_all
    show ?thesis
    proof (cases e1)
      case (Some e)
      show ?thesis
        unfolding ProcessWallet_def i1 iv Inr m prod.case sum.case hit_hooks_simps c1 v1 Some option.case by simp
    next
      case None
      let ?verify = "cfg_VerifyLookup cfg \<and> i = cfg_SimulateHitAt cfg"
      define h3 where "h3 = (if ?verify then emitLookupVerify B hooks s keys kind ok h2 else h2)"
      have v3: "view h3 = view h2" by (simp add: h3_def view_verify)
      obtain e2 h4 where c2: "call_hit hooks ?sim h3 = (e2, h4)" by (rule prod.exhaust)
      have v2: "hit ?sim (view h2) = (e2, view h4)" using on_hit [of ?sim h3] c2 v3 by simp
      show ?thesis
        unfolding ProcessWallet_def i1 iv Inr m prod.case sum.case hit_hooks_simps c1 v1 None option.case Let_def
          h3_def [symmetric] c2 if_cancel v2
        by (simp add: v3 split: option.split)
    qed
  qed
qed

lemma view_bounded_batch:
  "bounded_batch L B cfg s (hit_hooks hit :: ('f, 'v) Hooks) ws processed stats (view h) =
    (case bounded_batch L B cfg s hooks ws processed stats h of (p, st, e, h) \<Rightarrow> (p, st, e, view h))"
  by (induction ws arbitrary: processed stats h)
    (auto simp: view_process map_prod_def Let_def split: prod.split option.split)

lemma view_progress:
  "call_progress hooks processed numKeys start now lastProgress h = (l, h') \<Longrightarrow> view h' = view h"
  by (auto simp: call_progress_def on_progress split: option.splits if_splits)

lemma view_summary: "view (call_summary rate hooks cfg took h) = view h"
  by (simp add: call_summary_def on_summary split: option.split)

lemma view_boundedLoop:
  "boundedLoop L B rate cfg s (hit_hooks hit :: ('f, 'v) Hooks) start fin turns lp processed stats (view h) =
    map_option (\<lambda>(st, e, h). (st, e, view h)) (boundedLoop L B rate cfg s hooks start fin turns lp' processed stats h)"
proof (induction turns arbitrary: lp lp' processed stats h)
  case Nil
  show ?case by (simp add: boundedLoop.simps view_summary)
next
  case (Cons t ts)
  show ?case
    by (subst (1 2) boundedLoop.simps)
      (auto simp: view_summary view_bounded_batch split: recv.split prod.split option.split,
        metis Cons.IH view_progress)
qed

lemma view_runBounded:
  "runBounded L B rate cfg s (hit_hooks hit :: ('f, 'v) Hooks) start fin turns (view h) =
    map_option (\<lambda>(st, e, h). (st, e, view h)) (runBounded L B rate cfg s hooks start fin turns h)"
  by (simp add: runBounded_def view_boundedLoop)

lemma view_forever_batch:
  "forever_batch L B cfg s (hit_hooks hit :: ('f, 'v) Hooks) ws (run_view view lp st) =
    map_prod id (run_view view lp) (forever_batch L B cfg s hooks ws st)"
proof (induction ws arbitrary: st)
  case (Cons p ws)
  obtain d w where p: "p = (d, w)" by (rule prod.exhaust)
  obtain hit' e h' where r: "ProcessWallet L B cfg s w (TotalKeysTried (rs_session st) + rs_processed st + 1) hooks (rs_h st) =
      ((hit', e), h')" by (metis prod.collapse)
  have v: "ProcessWallet L B cfg s w (TotalKeysTried (rs_session st) + rs_processed st + 1)
      (hit_hooks hit :: ('f, 'v) Hooks) (view (rs_h st)) = ((hit', e), view h')"
    by (simp add: view_process r)
  let ?next = "st\<lparr>rs_h := h', rs_hits := (if hit' then rs_hits st + 1 else rs_hits st),
    rs_stats := \<lparr>KeysProcessed = KeysProcessed (rs_stats st) + 1,
      Hits = (if hit' then Hits (rs_stats st) + 1 else Hits (rs_stats st))\<rparr>,
    rs_processed := rs_processed st + 1, rs_runProcessed := rs_runProcessed st + 1\<rparr>"
  have n: "(run_view view lp st)\<lparr>rs_h := view h', rs_hits := (if hit' then rs_hits st + 1 else rs_hits st),
      rs_stats := \<lparr>KeysProcessed = KeysProcessed (rs_stats st) + 1,
        Hits = (if hit' then Hits (rs_stats st) + 1 else Hits (rs_stats st))\<rparr>,
      rs_processed := rs_processed st + 1, rs_runProcessed := rs_runProcessed st + 1\<rparr> = run_view view lp ?next"
    by (simp add: run_view_def)
  have e: "(run_view view lp st)\<lparr>rs_h := view h'\<rparr> = run_view view lp (st\<lparr>rs_h := h'\<rparr>)" by (simp add: run_view_def)
  show ?case
    unfolding p forever_batch.simps run_view_simps Let_def r v prod.case n
    by (simp add: e Cons.IH split: option.split)
qed simp

lemma view_forever_progress: "run_view view lp (forever_progress hooks t st) = run_view view lp st"
  by (simp add: forever_progress_def run_view_def on_forever_progress split: option.split)

lemma view_foreverLoop:
  "foreverLoop L B J cfg s (hit_hooks hit :: ('f, 'v) Hooks) fe turns (run_view view lp st) =
    map_option (\<lambda>(a, e, h, fs). (a, e, view h, fs)) (foreverLoop L B J cfg s hooks fe turns st)"
proof (induction turns arbitrary: st)
  case Nil
  show ?case by (simp add: run_view_end)
next
  case (Cons t ts)
  have next_state: "run_view view lp (checkpoint J cfg t (forever_progress hooks t st1)) =
      checkpoint J cfg t (run_view view lp st1)" for st1
    by (simp add: run_view_checkpoint [symmetric] view_forever_progress)
  show ?case
  proof (cases "ft_recv t")
    case (FBatch batch)
    obtain be st1 where b: "forever_batch L B cfg s hooks batch st = (be, st1)" by (rule prod.exhaust)
    then have v: "forever_batch L B cfg s (hit_hooks hit :: ('f, 'v) Hooks) batch (run_view view lp st) =
        (be, run_view view lp st1)"
      by (simp add: view_forever_batch)
    show ?thesis
      by (cases be) (simp_all add: FBatch b v run_view_end next_state [symmetric] Cons.IH)
  qed (simp add: run_view_end)
qed

lemma view_runForever:
  "runForever L B J env fe cfg s (hit_hooks hit :: ('f, 'v) Hooks) turns (view h) fs =
    map_option (\<lambda>(a, e, h, fs). (a, e, view h, fs)) (runForever L B J env fe cfg s hooks turns h fs)"
  by (simp add: runForever_def run_view_initial view_foreverLoop split: prod.split option.split)

end

section \<open>Every run is a recorded run\<close>

text \<open>The events are recorded one by one; a caller that accepts every hit holds what it does with them in
  order.\<close>

interpretation recorded: hook_view "recorder :: ('f, HitEvent list) Hooks" "\<lambda>evs. fold g evs v0"
    "\<lambda>ev v. (None, g ev v)" for g :: "HitEvent \<Rightarrow> 'v \<Rightarrow> 'v" and v0
  by unfold_locales (simp_all add: recorder_hit_hooks)

context hook_view
begin

lemma bounded_is_recorded:
  assumes "hit = (\<lambda>ev v. (None, g ev v))"
  shows "map_option (\<lambda>(st, e, h). (st, e, view h)) (runBounded L B rate cfg s hooks start fin turns h) =
    map_option (\<lambda>(st, e, evs). (st, e, fold g evs (view h)))
      (runBounded L B rate cfg s (recorder :: ('f, HitEvent list) Hooks) start fin turns [])"
  using view_runBounded [of L B rate cfg s start fin turns h]
    recorded.view_runBounded [where g = g and ?v0.0 = "view h", of L B rate cfg s start fin turns "[]"] assms
  by simp

lemma forever_is_recorded:
  assumes "hit = (\<lambda>ev v. (None, g ev v))"
  shows "map_option (\<lambda>(a, e, h, fs). (a, e, view h, fs)) (runForever L B J env fe cfg s hooks turns h fs) =
    map_option (\<lambda>(a, e, evs, fs). (a, e, fold g evs (view h), fs))
      (runForever L B J env fe cfg s (recorder :: ('f, HitEvent list) Hooks) turns [] fs)"
  using view_runForever [of L B J env fe cfg s turns h fs]
    recorded.view_runForever [where g = g and ?v0.0 = "view h", of L B J env fe cfg s turns "[]" fs] assms
  by simp

end

section \<open>The hits of wallets tried in order\<close>

text \<open>The reference: what the wallets have to report, tried one after the other from the index \<open>i\<close>.\<close>

fun hits_in_order :: "addr_lib \<Rightarrow> 'bf bloom_lib \<Rightarrow> Config \<Rightarrow> 'bf Sets \<Rightarrow> Wallet list \<Rightarrow> u64 \<Rightarrow> HitEvent list" where
  "hits_in_order L B cfg s [] i = []"
| "hits_in_order L B cfg s (w # ws) i = expected_hits L B cfg s w i @ hits_in_order L B cfg s ws (i + 1)"

lemma process_seq_hits:
  "process_seq L B cfg s (recorder :: ('f, HitEvent list) Hooks) ws i evs = (n, k, e, evs') \<Longrightarrow>
    evs' = evs @ hits_in_order L B cfg s (take n ws) i"
proof (induction ws arbitrary: i evs n k)
  case (Cons w ws)
  show ?case
  proof (cases "effective_keys L cfg s w i")
    case (Inr keys)
    obtain n1 k1 where "process_seq L B cfg s (recorder :: ('f, HitEvent list) Hooks) ws (i + 1)
        (evs @ expected_hits L B cfg s w i) = (n1, k1, e, evs')" "n = Suc n1"
      using Cons.prems Inr by (auto simp: Process_recorder split: prod.splits)
    then show ?thesis using Cons.IH by fastforce
  qed (use Cons.prems in \<open>simp add: Process_recorder\<close>)
qed simp

text \<open>Without an injection no wallet fails.\<close>

lemma process_seq_whole:
  assumes "cfg_InjectIndexHit cfg = ''''"
  shows "\<exists>k evs'. process_seq L B cfg s (recorder :: ('f, HitEvent list) Hooks) ws i evs = (length ws, k, None, evs')"
proof (induction ws arbitrary: i evs)
  case (Cons w ws)
  have "effective_keys L cfg s w i = Inr (Keys w)" using assms by (simp add: effective_keys_def)
  moreover obtain k evs' where "process_seq L B cfg s (recorder :: ('f, HitEvent list) Hooks) ws (i + 1)
      (evs @ expected_hits L B cfg s w i) = (length ws, k, None, evs')"
    using Cons.IH by blast
  ultimately show ?case by (simp add: Process_recorder)
qed simp

end
