(* ===== verification/MainProgram.thy ===== *)
theory MainProgram
  imports MainReporter Cli HookViews
begin

text \<open>
  cryptogen.go: the main program. It reads the command line, brings funded.tsv up to date, loads the index and
  searches, with hooks that draw on the terminal and log the hits. The context never ends, so every turn of the
  search is a batch. A panic ends the program; the hooks' state is then \<open>None\<close>.
\<close>

section \<open>Hooks\<close>

text \<open>\<open>mn_log\<close> is what meets the logging of a hit, \<open>mn_errText\<close> the text of its error, \<open>mn_clock\<close> the time at which a
  progress line with the given elapsed time is drawn. The clocks of the reports of \<open>EnsureTSV\<close> and \<open>Load\<close> are
  \<open>mn_ensureClock\<close> and \<open>mn_loadClock\<close>.\<close>

record main_env =
  mn_tty :: bool
  mn_numCPU :: int
  mn_web :: web
  mn_tsvStatFails :: bool
  mn_tsvFault :: io_fault
  mn_rmFails :: bool
  mn_tsvNow :: int
  mn_load :: load_env
  mn_ensureClock :: ensure_clock
  mn_loadClock :: load_clock
  mn_log :: "HitEvent \<Rightarrow> log_env"
  mn_errText :: "HitEvent \<Rightarrow> string"
  mn_clock :: "int \<Rightarrow> int"
  mn_run :: renv
  mn_end :: fend

definition bool_text :: "bool \<Rightarrow> string" where
  "bool_text b = (if b then ''true'' else ''false'')"

definition verify_line :: "LookupVerifyEvent \<Rightarrow> string" where
  "verify_line ev =
     ''lookup verify: legacy_compressed='' @ bool_text (lv_LegacyCompressed ev) @
     '' legacy_uncompressed='' @ bool_text (lv_LegacyUncompressed ev) @
     '' segwit_v0='' @ bool_text (lv_SegwitV0 ev) @ '' p2sh='' @ bool_text (lv_P2SH ev) @
     '' taproot='' @ bool_text (lv_Taproot ev) @ '' real_match='' @ bool_text (lv_RealMatch ev)"

definition main_hit ::
  "addr_lib \<Rightarrow> 'f text_lib \<Rightarrow> (u8 list \<Rightarrow> string) \<Rightarrow> main_env \<Rightarrow> HitEvent \<Rightarrow> UI \<times> fs \<Rightarrow> (UI \<times> fs) option" where
  "main_hit L T formatWIF env ev =
     PrintHit L T formatWIF (mn_log env ev) (mn_errText env ev) (ev_Wallet ev) (ev_Kind ev) (ev_KeyIndex ev)
       (ev_BalanceSats ev) (ev_Simulated ev)"

definition on_ui :: "(UI \<Rightarrow> UI) \<Rightarrow> (UI \<times> fs) option \<Rightarrow> (UI \<times> fs) option" where
  "on_ui f = map_option (map_prod f id)"

definition mainSearchHooks ::
  "addr_lib \<Rightarrow> 'f text_lib \<Rightarrow> (u8 list \<Rightarrow> string) \<Rightarrow> main_env \<Rightarrow> ('f, (UI \<times> fs) option) Hooks" where
  "mainSearchHooks L T formatWIF env =
     \<lparr>OnProgress = Some (\<lambda>processed count elapsed. on_ui (SearchProgress T (mn_clock env elapsed) processed count elapsed)),
      OnForeverProgress = Some (\<lambda>totalKeys elapsed hits. on_ui (ForeverProgress T (mn_clock env elapsed) totalKeys elapsed hits)),
      OnSummary = Some (\<lambda>took numKeys avg. on_ui (PrintSummary T took numKeys avg)),
      OnHit = Some (\<lambda>ev st. (None, Option.bind st (main_hit L T formatWIF env ev))),
      OnInjectLog = Some (\<lambda>bucket addr. on_ui (Infof (''  inject-index-hit: bucket='' @ bucket @
        '' funded_address='' @ addr @ newline))),
      OnLookupVerify = Some (\<lambda>ev. on_ui (\<lambda>u. PrintlnErr ''''
        (let u = PrintfErr (verify_line ev) u
         in if lv_RealMatch ev then PrintfErr ('' kind='' @ lv_KindName ev) u else u)))\<rparr>"

section \<open>The program\<close>

definition main_workers :: "main_env \<Rightarrow> cliConfig \<Rightarrow> int" where
  "main_workers env cfg = (if threads cfg < 1 then mn_numCPU env else threads cfg)"

definition main_search_config :: "int \<Rightarrow> cliConfig \<Rightarrow> Config" where
  "main_search_config workers cfg =
     \<lparr>cfg_Threads = workers, cfg_Formats = formats cfg, cfg_NumKeys = numKeys cfg, cfg_SessionBase = 0,
      cfg_Forever = forever cfg, cfg_MaxKeys = maxKeys cfg, cfg_CheckpointInterval = checkpointInterval cfg,
      cfg_SimulateHit = simulateHit cfg, cfg_SimulateHitAt = word_of_int (simulateHitAt cfg),
      cfg_VerifyLookup = verifyLookup cfg, cfg_InjectIndexHit = injectIndexHit cfg,
      cfg_ResetSession = resetSession cfg\<rparr>"

definition announce :: "'f text_lib \<Rightarrow> int \<Rightarrow> cliConfig \<Rightarrow> UI \<Rightarrow> UI" where
  "announce T workers cfg u =
     (let u = Section (''Workers  '' @ show_int workers) (Banner u);
          u = (if simulateHit cfg then Infof (''  Simulate hit at key '' @ show_int (simulateHitAt cfg) @ newline) u else u);
          u = (if injectIndexHit cfg \<noteq> '''' then Infof (''  Inject index hit: bucket=\"'' @ injectIndexHit cfg @
            ''\" key='' @ show_int (simulateHitAt cfg) @ newline) u else u);
          u = (if formatsSet cfg then Infof (''  Formats: '' @ FormatMask_String (formats cfg) @ newline) u else u)
      in if minBalance cfg \<noteq> DefaultMinBalanceSats
         then Infof (''  Min balance: '' @ tl_int T (sint (minBalance cfg)) @ '' sats'' @ newline) u else u)"

definition funded_opts :: "u64 \<Rightarrow> LoadOpts" where
  "funded_opts limit = \<lparr>o_MinBalance = (if limit = 0 then DefaultMinBalanceSats else limit), o_TSVPath = ''''\<rparr>"

definition loadFunded ::
  "'f text_lib \<Rightarrow> 'bf rep_text \<Rightarrow> load_clock \<Rightarrow> addr_lib \<Rightarrow> 'bf bloom_lib \<Rightarrow> load_env \<Rightarrow> u64 \<Rightarrow> fs \<Rightarrow> UI option \<Rightarrow>
     ((load_failure + 'bf Sets) \<times> fs \<times> mapping) \<times> UI option" where
  "loadFunded T X clk L B env limit fs u =
     Load_reported (Some (mainReporter T)) X clk L B env (funded_opts limit) fs None u"

text \<open>A batch that arrives, and what meets the checkpoint after it.\<close>

record arrival =
  ar_batch :: "Wallet list"
  ar_now :: int
  ar_fault :: io_fault
  ar_write :: int
  ar_restart :: int

definition live_turn :: "arrival \<Rightarrow> turn" where
  "live_turn a = \<lparr>t_done = False, t_recv = Batch (ar_batch a), t_now = ar_now a\<rparr>"

definition live_fturn :: "arrival \<Rightarrow> fturn" where
  "live_fturn a = \<lparr>ft_done = False, ft_recv = FBatch (map (Pair False) (ar_batch a)), ft_now = ar_now a,
     ft_fault = ar_fault a, ft_write = ar_write a, ft_restart = ar_restart a\<rparr>"

definition printForeverExit :: "'f text_lib \<Rightarrow> cliConfig \<Rightarrow> UI \<Rightarrow> UI" where
  "printForeverExit T cfg u =
     (let u = ClearProgress u in
      if maxKeys cfg > 0 \<and> \<not> ui_quiet u
      then Infof (''Forever run finished (--max-keys '' @ tl_int T (sint (maxKeys cfg)) @ '')'' @ newline) u else u)"

datatype main_end =
  UsageError cli_error | ReportPanic | LoadPanic load_failure | StillSearching | HitPanic | MainReturns UI

text \<open>The search writes the session file, the hooks the log of hits: the files at the end are both. Of a
  search that goes on the files it found are given.\<close>

definition main_search ::
  "addr_lib \<Rightarrow> 'bf bloom_lib \<Rightarrow> 'f session_lib \<Rightarrow> (int \<Rightarrow> int \<Rightarrow> 'f) \<Rightarrow> 'f text_lib \<Rightarrow> (u8 list \<Rightarrow> string) \<Rightarrow>
     main_env \<Rightarrow> cliConfig \<Rightarrow> arrival list \<Rightarrow> 'bf Sets \<Rightarrow> UI \<Rightarrow> fs \<Rightarrow> main_end \<times> fs" where
  "main_search L B J rate T formatWIF env cfg arrivals sets u fs =
     (let u = Section ''Search'' u;
          u = (if forever cfg then BeginForeverSearch u else BeginSearch T (numKeys cfg) u)
      in case Run L B J rate (mn_run env) (mn_end env) (main_search_config (main_workers env cfg) cfg) sets
             (mainSearchHooks L T formatWIF env) (map live_turn arrivals) (map live_fturn arrivals)
             (Some (u, fs)) fs of
           None \<Rightarrow> (StillSearching, fs)
         | Some (stats, err, None, fs') \<Rightarrow> (HitPanic, fs')
         | Some (stats, err, Some (u, logged), fs') \<Rightarrow>
             (MainReturns (if forever cfg then printForeverExit T cfg u else u),
              fs'(walletsLogFile := logged walletsLogFile)))"

text \<open>A panic of the reporter would end the program at once; \<open>main_reporter_lives\<close> shows that there is none.\<close>

definition btcfind_main ::
  "addr_lib \<Rightarrow> 'bf bloom_lib \<Rightarrow> 'f session_lib \<Rightarrow> (int \<Rightarrow> int \<Rightarrow> 'f) \<Rightarrow> 'f text_lib \<Rightarrow> 'bf rep_text \<Rightarrow>
     (u8 list \<Rightarrow> string) \<Rightarrow> (string \<Rightarrow> int option) \<Rightarrow> main_env \<Rightarrow> string list \<Rightarrow> arrival list \<Rightarrow> fs \<Rightarrow> main_end \<times> fs" where
  "btcfind_main L B J rate T X formatWIF dur env args arrivals fs =
     (case parseCLI dur args of
        Inl e \<Rightarrow> (UsageError e, fs)
      | Inr cfg \<Rightarrow>
          let workers = main_workers env cfg;
              u = announce T workers cfg (NewUI (mn_tty env) (noColor cfg) (quiet cfg) (verbose cfg));
              ((err, fs), u) = EnsureTSV_reported (Some (mainReporter T)) X (mn_ensureClock env) (mn_web env)
                (mn_tsvStatFails env) (mn_tsvFault env) (mn_rmFails env) (mn_tsvNow env) fs (Some u)
          in (case loadFunded T X (mn_loadClock env) L B (mn_load env) (minBalance cfg) fs u of
                ((r, fs, act), None) \<Rightarrow> (ReportPanic, fs)
              | ((Inl e, fs, act), Some u) \<Rightarrow> (LoadPanic e, fs)
              | ((Inr sets, fs, act), Some u) \<Rightarrow>
                  main_search L B J rate T formatWIF env cfg arrivals sets u fs))"

section \<open>The reporter does not matter to the outcome\<close>

text \<open>What the program does once its command line is read, with the terminal that the loading left.\<close>

lemma main_reporter_lives:
  fixes J :: "'f session_lib"
  assumes "parseCLI dur args = Inr cfg"
    and "fs1 = snd (EnsureTSV (mn_web env) (mn_tsvStatFails env) (mn_tsvFault env) (mn_rmFails env) (mn_tsvNow env) fs)"
  obtains u0 where "btcfind_main L B J rate T X formatWIF dur env args arrivals fs =
    (case Load L B (mn_load env) (funded_opts (minBalance cfg)) fs1 None of
       (Inl e, fs, act) \<Rightarrow> (LoadPanic e, fs)
     | (Inr sets, fs, act) \<Rightarrow> main_search L B J rate T formatWIF env cfg arrivals sets u0 fs)"
proof -
  obtain u1 where e: "EnsureTSV_reported (Some (mainReporter T)) X (mn_ensureClock env) (mn_web env)
      (mn_tsvStatFails env) (mn_tsvFault env) (mn_rmFails env) (mn_tsvNow env) fs
      (Some (announce T (main_workers env cfg) cfg (NewUI (mn_tty env) (noColor cfg) (quiet cfg) (verbose cfg)))) =
      (EnsureTSV (mn_web env) (mn_tsvStatFails env) (mn_tsvFault env) (mn_rmFails env) (mn_tsvNow env) fs, Some u1)"
    using ensure_main by blast
  obtain u2 where l: "loadFunded T X (mn_loadClock env) L B (mn_load env) (minBalance cfg) fs1 (Some u1) =
      (Load L B (mn_load env) (funded_opts (minBalance cfg)) fs1 None, Some u2)"
    unfolding loadFunded_def using load_main by blast
  obtain err where fs1: "EnsureTSV (mn_web env) (mn_tsvStatFails env) (mn_tsvFault env) (mn_rmFails env) (mn_tsvNow env) fs =
      (err, fs1)" using assms(2) by (metis prod.collapse)
  have "btcfind_main L B J rate T X formatWIF dur env args arrivals fs =
    (case Load L B (mn_load env) (funded_opts (minBalance cfg)) fs1 None of
       (Inl e, fs, act) \<Rightarrow> (LoadPanic e, fs)
     | (Inr sets, fs, act) \<Rightarrow> main_search L B J rate T formatWIF env cfg arrivals sets u2 fs)"
    unfolding btcfind_main_def assms(1) sum.case Let_def e fs1 prod.case l
    by (simp split: prod.split sum.split)
  then show thesis by (rule that)
qed

section \<open>What the hooks log\<close>

definition log_hit :: "addr_lib \<Rightarrow> (u8 list \<Rightarrow> string) \<Rightarrow> main_env \<Rightarrow> HitEvent \<Rightarrow> fs \<Rightarrow> fs option" where
  "log_hit L formatWIF env ev fs =
     (let addr = EncodeMatchAddress L (ev_Kind ev) (Keys (ev_Wallet ev)) in
      if addr = '''' then None
      else if ev_Simulated ev then Some fs
      else Some (snd (appendWalletHitAt (mn_log env ev) walletsLogFile (ev_KeyIndex ev) (ev_Kind ev) addr
        (formatWIF (PrivKey (ev_Wallet ev))) (ev_BalanceSats ev) fs)))"

lemma main_hit_logs: "map_option snd (main_hit L T formatWIF env ev st) = log_hit L formatWIF env ev (snd st)"
  by (simp add: main_hit_def PrintHit_def log_hit_def Let_def split: prod.split bool.split)

interpretation main: hook_view "mainSearchHooks L T formatWIF env" "map_option snd"
    "\<lambda>ev v. (None, Option.bind v (log_hit L formatWIF env ev))"
    for L and T :: "'f text_lib" and formatWIF env
proof
  fix ev and h :: "(UI \<times> fs) option"
  show "(None, Option.bind (map_option snd h) (log_hit L formatWIF env ev)) =
      map_prod id (map_option snd) (call_hit (mainSearchHooks L T formatWIF env) ev h)"
    by (cases h) (simp_all add: mainSearchHooks_def call_hit_def main_hit_logs)
qed (auto simp: mainSearchHooks_def on_ui_def option.map_comp comp_def)

text \<open>The block a hit adds to wallets.txt.\<close>

definition event_record :: "addr_lib \<Rightarrow> (u8 list \<Rightarrow> string) \<Rightarrow> main_env \<Rightarrow> HitEvent \<Rightarrow> u8 list" where
  "event_record L formatWIF env ev =
     (case kindLabels (ev_Kind ev) of
        (fid, label) \<Rightarrow> chars_bytes (wallet_record (le_stamp (mn_log env ev)) (ev_KeyIndex ev) fid label
          (EncodeMatchAddress L (ev_Kind ev) (Keys (ev_Wallet ev))) (formatWIF (PrivKey (ev_Wallet ev))) (ev_BalanceSats ev)))"

lemma logged_hits:
  assumes "\<And>ev. ev \<in> set evs \<Longrightarrow> EncodeMatchAddress L (ev_Kind ev) (Keys (ev_Wallet ev)) \<noteq> '''' \<and>
      le_fault (mn_log env ev) = LogOk"
  shows "\<exists>fs'. fold (\<lambda>ev v. Option.bind v (log_hit L formatWIF env ev)) evs (Some fs) = Some fs' \<and>
    file_data fs' walletsLogFile = file_data fs walletsLogFile @
      concat (map (event_record L formatWIF env) (filter (\<lambda>ev. \<not> ev_Simulated ev) evs))"
  using assms
proof (induction evs arbitrary: fs)
  case (Cons ev evs)
  obtain fs1 where f1: "log_hit L formatWIF env ev fs = Some fs1" "file_data fs1 walletsLogFile =
      file_data fs walletsLogFile @ (if ev_Simulated ev then [] else event_record L formatWIF env ev)"
    using Cons.prems [of ev]
    by (cases "ev_Simulated ev"; cases "kindLabels (ev_Kind ev)")
      (simp_all add: log_hit_def appendWalletHitAt_def event_record_def Let_def)
  moreover obtain fs' where "fold (\<lambda>ev v. Option.bind v (log_hit L formatWIF env ev)) evs (Some fs1) = Some fs'"
      "file_data fs' walletsLogFile = file_data fs1 walletsLogFile @
        concat (map (event_record L formatWIF env) (filter (\<lambda>ev. \<not> ev_Simulated ev) evs))"
    using Cons.IH Cons.prems by fastforce
  ultimately show ?case by simp
qed simp

lemma Match_kind: "(kind, True) = Match B s keys fm \<Longrightarrow> kind \<noteq> MatchKindOther"
  by (auto simp: Match_def Let_def split: if_splits)

lemma hits_kind: "ev \<in> set (hits_in_order L B cfg s ws i) \<Longrightarrow> ev_Kind ev \<noteq> MatchKindOther"
proof (induction ws arbitrary: i)
  case (Cons w ws)
  have "ev_Kind e \<noteq> MatchKindOther" if "e \<in> set (expected_hits L B cfg s w i)" for e
    using that by (auto simp: expected_hits_def dest: Match_kind split: sum.splits prod.splits bool.splits if_splits)
  then show ?case using Cons by auto
qed simp

lemma hit_address: "address_laws L \<Longrightarrow> k \<noteq> MatchKindOther \<Longrightarrow> EncodeMatchAddress L k keys \<noteq> ''''"
  using decode_hit_address [of L k keys] by (auto simp: DecodeFundedAddressForLoad_def)


section \<open>How a search of the main program ends\<close>

lemma live_received: "received (map live_turn as) = (concat (map ar_batch as), False)"
  by (induction as) (simp_all add: live_turn_def)

lemma live_batch [simp]: "live (map (Pair False) ws) = ws"
  by (induction ws) simp_all

lemma live_offered: "offered (map live_fturn as) = (concat (map ar_batch as), False)"
  by (induction as) (simp_all add: live_fturn_def)

lemma init_succeeds: "\<exists>s0 fs0. initForeverSession J now False False reset fs = (Some s0, fs0)"
  by (simp add: initForeverSession_def resetSessionFile_def Let_def)

text \<open>The events of a search: those of the first \<open>n\<close> wallets, and without an injection \<open>n\<close> is what was asked for.\<close>

lemma Run_events:
  fixes J :: "'f session_lib"
  assumes "Run L B J rate env fe cfg s (recorder :: ('f, HitEvent list) Hooks) (map live_turn as) (map live_fturn as) [] fs =
      Some (stats, err, evs, fs')"
    and "0 \<le> cfg_NumKeys cfg" "\<not> re_rmFails env" "\<not> re_rmTmpFails env"
  shows "\<exists>n s0. evs = hits_in_order L B cfg s (take n (concat (map ar_batch as)))
        (if cfg_Forever cfg then TotalKeysTried s0 + 1 else cfg_SessionBase cfg + 1) \<and>
      fst (initForeverSession J (re_init env) False False (cfg_ResetSession cfg) fs) = Some s0 \<and>
      (cfg_InjectIndexHit cfg = '''' \<longrightarrow> n = (if cfg_Forever cfg then unat (cfg_MaxKeys cfg) else nat (cfg_NumKeys cfg)))"
proof -
  let ?rec = "recorder :: ('f, HitEvent list) Hooks" and ?ws = "concat (map ar_batch as)"
  obtain s0 fs0 where init: "initForeverSession J (re_init env) False False (cfg_ResetSession cfg) fs = (Some s0, fs0)"
    using init_succeeds by blast
  show ?thesis
  proof (cases "cfg_Forever cfg")
    case True
    then have run: "runForever L B J env fe cfg s ?rec (map live_fturn as) [] fs = Some (stats, err, evs, fs')"
      using assms(1) by (simp add: Run_def)
    have i: "initForeverSession J (re_init env) (re_rmFails env) (re_rmTmpFails env) (cfg_ResetSession cfg) fs = (Some s0, fs0)"
      using init assms(3,4) by simp
    let ?vs = "limited cfg ?ws"
    have quiet: "tell_forever ?rec s0 n k t h = h" for n k t h by (simp add: tell_forever_def)
    have "run_outcome L B J cfg s ?rec s0 [] fe ?vs False (Some (stats, err, evs, fs'))"
      using runForever_outcome [OF i, of L B s ?rec "[]" fe "map live_fturn as"] unfolding run live_offered by simp
    then have "\<exists>n k e. process_seq L B cfg s ?rec ?vs (TotalKeysTried s0 + 1) [] = (n, k, e, evs) \<and>
        (e = None \<longrightarrow> n = unat (cfg_MaxKeys cfg))"
      unfolding run_outcome_def event_seq_quiet [of "tell_forever ?rec s0", OF quiet]
      by (elim exE conjE) (clarsimp split: prod.splits)
    then obtain n k e where p: "process_seq L B cfg s ?rec ?vs (TotalKeysTried s0 + 1) [] = (n, k, e, evs)"
      and e: "e = None \<longrightarrow> n = unat (cfg_MaxKeys cfg)" by blast
    have "e = None" if inj: "cfg_InjectIndexHit cfg = ''''"
    proof -
      obtain k' evs' where "process_seq L B cfg s ?rec ?vs (TotalKeysTried s0 + 1) [] = (length ?vs, k', None, evs')"
        using process_seq_whole [OF inj, of L B s ?vs "TotalKeysTried s0 + 1" "[]"] by auto
      with p show ?thesis by simp
    qed
    moreover have "take n ?vs = take n ?ws"
      using process_seq_count [OF p] by (auto simp: limited_def min_def split: if_splits)
    ultimately show ?thesis using process_seq_hits [OF p] init True e by auto
  next
    case False
    let ?N = "nat (cfg_NumKeys cfg)"
    have "runBounded L B rate cfg s ?rec (re_start env) (fe_now fe) (map live_turn as) [] = Some (stats, err, evs)"
      using assms(1) False by (auto simp: Run_def)
    moreover obtain n k e h where p: "process_seq L B cfg s ?rec (take ?N ?ws) (cfg_SessionBase cfg + 1) [] = (n, k, e, h)"
      by (rule prod_cases4)
    ultimately have r: "run_result ?N False id (n, k, e, h) = Some (stats, err, evs)"
      using runBounded_quiet [OF assms(2) recorder_simps(5,6), of L B rate s "re_start env" "fe_now fe" "map live_turn as" "[]"]
      by (simp add: live_received)
    then have h: "h = evs" "e = None \<longrightarrow> n = ?N" by (auto simp: run_result_def split: if_splits)
    have "e = None" if inj: "cfg_InjectIndexHit cfg = ''''"
    proof -
      obtain k' evs' where "process_seq L B cfg s ?rec (take ?N ?ws) (cfg_SessionBase cfg + 1) [] =
          (length (take ?N ?ws), k', None, evs')"
        using process_seq_whole [OF inj, of L B s "take ?N ?ws" "cfg_SessionBase cfg + 1" "[]"] by auto
      with p show ?thesis by simp
    qed
    moreover have "take n (take ?N ?ws) = take n ?ws" using process_seq_count [OF p] by (simp add: min_absorb1)
    ultimately show ?thesis using process_seq_hits [OF p] h init False by auto
  qed
qed

text \<open>The search with the hooks of the program is the recorded one, its hits logged in order.\<close>

lemma main_run_recorded:
  fixes J :: "'f session_lib"
  assumes "Run L B J rate renv fe cfg sets (mainSearchHooks L T formatWIF env) turns fturns (Some (u, fs)) files =
      Some (stats, err, Some (u', fs'), files')"
  shows "\<exists>evs. Run L B J rate renv fe cfg sets (recorder :: ('f, HitEvent list) Hooks) turns fturns [] files =
      Some (stats, err, evs, files') \<and>
    fold (\<lambda>ev v. Option.bind v (log_hit L formatWIF env ev)) evs (Some fs) = Some fs'"
proof (cases "cfg_Forever cfg")
  case True
  have "map_option (\<lambda>(a, e, h, fs). (a, e, map_option snd h, fs)) (runForever L B J renv fe cfg sets
      (mainSearchHooks L T formatWIF env) fturns (Some (u, fs)) files) =
    map_option (\<lambda>(a, e, evs, fs1). (a, e, fold (\<lambda>ev v. Option.bind v (log_hit L formatWIF env ev)) evs
      (map_option snd (Some (u, fs))), fs1)) (runForever L B J renv fe cfg sets recorder fturns [] files)"
    by (rule main.forever_is_recorded [OF refl])
  then show ?thesis using True assms
    by (cases "runForever L B J renv fe cfg sets (recorder :: ('f, HitEvent list) Hooks) fturns [] files")
      (auto simp: Run_def)
next
  case False
  have "map_option (\<lambda>(st, e, h). (st, e, map_option snd h)) (runBounded L B rate cfg sets
      (mainSearchHooks L T formatWIF env) (re_start renv) (fe_now fe) turns (Some (u, fs))) =
    map_option (\<lambda>(st, e, evs). (st, e, fold (\<lambda>ev v. Option.bind v (log_hit L formatWIF env ev)) evs
      (map_option snd (Some (u, fs))))) (runBounded L B rate cfg sets recorder (re_start renv) (fe_now fe) turns [])"
    by (rule main.bounded_is_recorded [OF refl])
  then show ?thesis using False assms
    by (cases "runBounded L B rate cfg sets (recorder :: ('f, HitEvent list) Hooks) (re_start renv) (fe_now fe) turns []")
      (auto simp: Run_def)
qed

section \<open>Files the loading does not touch\<close>

lemma EnsureTSV_other:
  assumes "p \<noteq> DefaultTSVFile" "p \<noteq> tmp_path DefaultTSVFile" "p \<noteq> DefaultCacheFile"
  shows "snd (EnsureTSV w sf fault rf now fs) p = fs p"
proof -
  have "snd (downloadTSV w fault rf now fs) p = fs p"
    using assms tsv_writer.frame [of fault now _ fs _ _ p]
    by (auto simp: downloadTSV_def RemoveDefaultCache_other Let_def split: get_result.split option.split prod.split sum.split)
  then show ?thesis by (auto simp: EnsureTSV_def split: option.split sum.split)
qed

lemma Load_other:
  assumes "Load L B env opts fs act = (r, fs', act')" "p \<noteq> CachePath (load_min opts)" "p \<noteq> tmp_path (CachePath (load_min opts))"
  shows "fs' p = fs p"
proof -
  have "snd (WriteCache B f now (CachePath (load_min opts), s, t) fs) p = fs p" for f now s t
    using cache_writer.frame [of B f now "(CachePath (load_min opts), s, t)" fs _ _ p] assms(2,3)
    by (metis fst_conv prod.collapse)
  then show ?thesis using assms(1)
    by (auto simp: Load_def Let_def split: option.splits sum.splits prod.splits if_splits)
qed

lemma wallets_apart:
  "walletsLogFile \<noteq> DefaultTSVFile" "walletsLogFile \<noteq> tmp_path DefaultTSVFile" "walletsLogFile \<noteq> DefaultCacheFile"
  "walletsLogFile \<noteq> CachePath m" "walletsLogFile \<noteq> tmp_path (CachePath m)"
  by (simp_all add: walletsLogFile_def DefaultTSVFile_def DefaultCacheFile_def tmp_path_def CachePath_def)

text \<open>C3. The main program logs what it finds. When it returns, wallets.txt holds its old content and, in order, one
  block for every real hit of the first wallets that arrived, tried with indices that go on after the session;
  without an injection these are exactly the keys asked for on the command line. The index is the loaded one, and
  neither the update of funded.tsv nor the loading touches the log.\<close>

theorem main_logs_every_hit:
  fixes J :: "'f session_lib"
  assumes "address_laws L" "parseCLI dur args = Inr cfg" "\<And>ev. le_fault (mn_log env ev) = LogOk"
    and "\<not> re_rmFails (mn_run env)" "\<not> re_rmTmpFails (mn_run env)"
    and "btcfind_main L B J rate T X formatWIF dur env args arrivals fs = (MainReturns u, fs')"
  shows "\<exists>sets fs1 fs2 act n i. fs1 = snd (EnsureTSV (mn_web env) (mn_tsvStatFails env) (mn_tsvFault env) (mn_rmFails env)
        (mn_tsvNow env) fs) \<and> Load L B (mn_load env) (funded_opts (minBalance cfg)) fs1 None = (Inr sets, fs2, act) \<and>
    file_data fs' walletsLogFile = file_data fs walletsLogFile @ concat (map (event_record L formatWIF env)
      (filter (\<lambda>ev. \<not> ev_Simulated ev) (hits_in_order L B (main_search_config (main_workers env cfg) cfg) sets
        (take n (concat (map ar_batch arrivals))) i))) \<and>
    (injectIndexHit cfg = '''' \<longrightarrow> n = (if forever cfg then unat (maxKeys cfg) else nat (numKeys cfg)))"
proof -
  let ?cfg = "main_search_config (main_workers env cfg) cfg" and ?ws = "concat (map ar_batch arrivals)"
  let ?g = "\<lambda>ev v. Option.bind v (log_hit L formatWIF env ev)"
  define fs1 where "fs1 = snd (EnsureTSV (mn_web env) (mn_tsvStatFails env) (mn_tsvFault env) (mn_rmFails env) (mn_tsvNow env) fs)"
  obtain sets fs2 act stats err u0 u1 logged fs3 where
    load: "Load L B (mn_load env) (funded_opts (minBalance cfg)) fs1 None = (Inr sets, fs2, act)" and
    run: "Run L B J rate (mn_run env) (mn_end env) ?cfg sets (mainSearchHooks L T formatWIF env) (map live_turn arrivals)
      (map live_fturn arrivals) (Some (u0, fs2)) fs2 = Some (stats, err, Some (u1, logged), fs3)" and
    fs': "fs' = fs3(walletsLogFile := logged walletsLogFile)"
    by (rule main_reporter_lives [OF assms(2) fs1_def, of L B J rate T X formatWIF arrivals])
      (use assms(6) in \<open>auto simp: main_search_def Let_def split: prod.splits sum.splits option.splits\<close>)
  obtain evs where rec: "Run L B J rate (mn_run env) (mn_end env) ?cfg sets (recorder :: ('f, HitEvent list) Hooks)
      (map live_turn arrivals) (map live_fturn arrivals) [] fs2 = Some (stats, err, evs, fs3)"
    and fold: "fold ?g evs (Some fs2) = Some logged"
    using main_run_recorded [OF run] by blast
  have "0 \<le> cfg_NumKeys ?cfg"
    using parseCLI_cli_ok [OF assms(2)] by (simp add: main_search_config_def cli_ok_def settings_ok_def)
  then obtain n i where evs: "evs = hits_in_order L B ?cfg sets (take n ?ws) i"
    and n: "cfg_InjectIndexHit ?cfg = '''' \<longrightarrow> n = (if cfg_Forever ?cfg then unat (cfg_MaxKeys ?cfg) else nat (cfg_NumKeys ?cfg))"
    using Run_events [OF rec] assms(4,5) by blast
  have "EncodeMatchAddress L (ev_Kind ev) (Keys (ev_Wallet ev)) \<noteq> '''' \<and> le_fault (mn_log env ev) = LogOk"
    if "ev \<in> set evs" for ev
    using that hits_kind hit_address [OF assms(1)] assms(3) unfolding evs by blast
  from logged_hits [of evs L env formatWIF fs2, OF this] fold
  have "file_data logged walletsLogFile = file_data fs2 walletsLogFile @
      concat (map (event_record L formatWIF env) (filter (\<lambda>ev. \<not> ev_Simulated ev) evs))" by auto
  moreover have "fs2 walletsLogFile = fs walletsLogFile"
    using Load_other [OF load] EnsureTSV_other wallets_apart unfolding fs1_def by metis
  ultimately show ?thesis
    using load evs n unfolding fs1_def fs' main_search_config_def by (auto simp: file_data_def)
qed


lemma log_hits_total:
  assumes "\<And>ev f. ev \<in> set evs \<Longrightarrow> log_hit L formatWIF env ev f \<noteq> None"
  shows "\<exists>f'. fold (\<lambda>ev v. Option.bind v (log_hit L formatWIF env ev)) evs (Some f) = Some f'"
  using assms
proof (induction evs arbitrary: f)
  case (Cons ev evs)
  then obtain f1 where "log_hit L formatWIF env ev f = Some f1" by fastforce
  then show ?case using Cons by simp
qed simp

lemma bounded_main_returns:
  fixes J :: "'f session_lib"
  assumes "address_laws L" "parseCLI dur args = Inr cfg" "\<not> forever cfg" "injectIndexHit cfg = ''''"
    and "fs1 = snd (EnsureTSV (mn_web env) (mn_tsvStatFails env) (mn_tsvFault env) (mn_rmFails env) (mn_tsvNow env) fs)"
    and "Load L B (mn_load env) (funded_opts (minBalance cfg)) fs1 None = (Inr sets, fs2, act)"
    and "numKeys cfg \<le> int (length (concat (map ar_batch arrivals)))"
  shows "\<exists>u fs'. btcfind_main L B J rate T X formatWIF dur env args arrivals fs = (MainReturns u, fs')"
proof (rule main_reporter_lives [OF assms(2,5), of L B J rate T X formatWIF arrivals])
  fix u0
  let ?cfg = "main_search_config (main_workers env cfg) cfg" and ?ws = "concat (map ar_batch arrivals)"
  let ?rec = "recorder :: ('f, HitEvent list) Hooks" and ?N = "nat (numKeys cfg)"
  let ?u = "BeginSearch T (numKeys cfg) (Section ''Search'' u0)"
  assume main: "btcfind_main L B J rate T X formatWIF dur env args arrivals fs =
    (case Load L B (mn_load env) (funded_opts (minBalance cfg)) fs1 None of
       (Inl e, fs, act) \<Rightarrow> (LoadPanic e, fs)
     | (Inr sets, fs, act) \<Rightarrow> main_search L B J rate T formatWIF env cfg arrivals sets u0 fs)"
  have cfg: "cfg_NumKeys ?cfg = numKeys cfg" "cfg_InjectIndexHit ?cfg = ''''" "\<not> cfg_Forever ?cfg"
    using assms(3,4) by (simp_all add: main_search_config_def)
  have pos: "0 \<le> numKeys cfg"
    using parseCLI_cli_ok [OF assms(2)] by (simp add: cli_ok_def settings_ok_def)
  obtain k evs where p: "process_seq L B ?cfg sets ?rec (take ?N ?ws) (cfg_SessionBase ?cfg + 1) [] =
      (length (take ?N ?ws), k, None, evs)"
    using process_seq_whole [OF cfg(2), of L B sets "take ?N ?ws" "cfg_SessionBase ?cfg + 1" "[]"] by auto
  have N: "length (take ?N ?ws) = ?N" using assms(7) by simp
  have "runBounded L B rate ?cfg sets ?rec (re_start (mn_run env)) (fe_now (mn_end env)) (map live_turn arrivals) [] =
      Some (add_stats zero_Stats ?N k, None, evs)"
    using runBounded_quiet [OF pos [folded cfg(1)] recorder_simps(5,6), of L B rate sets "re_start (mn_run env)"
        "fe_now (mn_end env)" "map live_turn arrivals" "[]"] p [unfolded N]
    by (simp add: live_received cfg(1) run_result_def)
  moreover have "map_option (\<lambda>(st, e, h). (st, e, map_option snd h)) (runBounded L B rate ?cfg sets
      (mainSearchHooks L T formatWIF env) (re_start (mn_run env)) (fe_now (mn_end env)) (map live_turn arrivals) (Some (?u, fs2))) =
    map_option (\<lambda>(st, e, evs). (st, e, fold (\<lambda>ev v. Option.bind v (log_hit L formatWIF env ev)) evs
      (map_option snd (Some (?u, fs2))))) (runBounded L B rate ?cfg sets recorder (re_start (mn_run env))
        (fe_now (mn_end env)) (map live_turn arrivals) [])"
    by (rule main.bounded_is_recorded [OF refl])
  moreover obtain logged where "fold (\<lambda>ev v. Option.bind v (log_hit L formatWIF env ev)) evs (Some fs2) = Some logged"
  proof -
    have "evs = hits_in_order L B ?cfg sets (take ?N ?ws) (cfg_SessionBase ?cfg + 1)"
      using process_seq_hits [OF p] N by simp
    then have "log_hit L formatWIF env ev f \<noteq> None" if ev: "ev \<in> set evs" for ev f
      using ev hits_kind hit_address [OF assms(1)] by (fastforce simp: log_hit_def Let_def)
    from log_hits_total [OF this] show thesis using that by blast
  qed
  ultimately obtain u' where "runBounded L B rate ?cfg sets (mainSearchHooks L T formatWIF env) (re_start (mn_run env))
      (fe_now (mn_end env)) (map live_turn arrivals) (Some (?u, fs2)) = Some (add_stats zero_Stats ?N k, None, Some (u', logged))"
    by (auto simp: map_option_eq_Some)
  then have "Run L B J rate (mn_run env) (mn_end env) ?cfg sets (mainSearchHooks L T formatWIF env) (map live_turn arrivals)
      (map live_fturn arrivals) (Some (?u, fs2)) fs2 = Some (add_stats zero_Stats ?N k, None, Some (u', logged), fs2)"
    using cfg(3) by (simp add: Run_def)
  then show ?thesis using main assms(3) by (simp add: assms(6) main_search_def)
qed

text \<open>C26. A bounded run of the main program returns: once the index is loaded and as many wallets have arrived as the
  command line asks for, the program ends, whatever the wallets are, how they are batched and how often the log
  cannot be written.\<close>

theorem main_returns:
  fixes J :: "'f session_lib"
  assumes "address_laws L" "parseCLI dur args = Inr cfg" "\<not> forever cfg" "injectIndexHit cfg = ''''"
    and "fs1 = snd (EnsureTSV (mn_web env) (mn_tsvStatFails env) (mn_tsvFault env) (mn_rmFails env) (mn_tsvNow env) fs)"
    and "Load L B (mn_load env) (funded_opts (minBalance cfg)) fs1 None = (Inr sets, fs2, act)"
    and "numKeys cfg \<le> int (length (concat (map ar_batch arrivals)))"
  shows "\<exists>u fs'. btcfind_main L B J rate T X formatWIF dur env args arrivals fs = (MainReturns u, fs')"
  using bounded_main_returns [OF assms] .

end
