(* ===== verification/Cluster.thy ===== *)
theory Cluster
  imports Hits
begin

text \<open>
  The coordinator as a state machine: the operations of \<open>Lobby\<close> and \<open>Hits\<close> in any order, and the
  phases through which coordinator/server.go takes them.
\<close>

section \<open>Operations in any order\<close>

datatype 'f op =
    OpRegister "u8 list" int RegisterRequest
  | OpHeartbeat int string string
  | OpStats int "'f StatsRequest"
  | OpHit log_fault int string HitRequest
  | OpStart int
  | OpStop
  | OpEnd
  | OpReset
  | OpPrune int
  | OpPrint string

fun apply_op :: "'f float_lib \<Rightarrow> 'f op \<Rightarrow> 'f Server \<times> fs \<Rightarrow> 'f Server \<times> fs" where
  "apply_op F (OpRegister rnd now req) (s, fs) = (snd (register F rnd now req s), fs)"
| "apply_op F (OpHeartbeat now w state) (s, fs) = (snd (heartbeat now w state s), fs)"
| "apply_op F (OpStats now req) (s, fs) = (recordStats F now req s, fs)"
| "apply_op F (OpHit fault now stamp req) (s, fs) = snd (handleHit fault now stamp req (s, fs))"
| "apply_op F (OpStart now) (s, fs) = (startRun F now s, fs)"
| "apply_op F OpStop (s, fs) = (stopRun s, fs)"
| "apply_op F OpEnd (s, fs) = (endRun s, fs)"
| "apply_op F OpReset (s, fs) = (resetLobby s, fs)"
| "apply_op F (OpPrune now) (s, fs) = (pruneStale now s, fs)"
| "apply_op F (OpPrint text) (s, fs) = (s\<lparr>sv_ui := Eventf text (sv_ui s)\<rparr>, fs)"

inductive reachable :: "'f float_lib \<Rightarrow> CoordConfig \<Rightarrow> string \<Rightarrow> 'f Server \<times> fs \<Rightarrow> bool"
  for F cfg etag where
  init: "reachable F cfg etag (setRunConfig etag ((NewServer F cfg ui)\<lparr>sv_cachePath := path\<rparr>), fs)"
| step: "reachable F cfg etag st \<Longrightarrow> reachable F cfg etag (apply_op F op st)"

inductive_simps reachable_simps: "reachable F cfg etag st"

definition run_states :: "string list" where
  "run_states = [StateLobby, StateRunning, StateStopping, StateEnded]"

definition worker_ok :: "string \<times> 'f workerEntry \<Rightarrow> bool" where
  "worker_ok p \<longleftrightarrow> we_ID (snd p) = fst p \<and> we_State (snd p) \<noteq> workerOffline"

definition server_ok :: "CoordConfig \<Rightarrow> string \<Rightarrow> 'f Server \<Rightarrow> bool" where
  "server_ok cfg etag s \<longleftrightarrow>
     sv_cfg s = cfg \<and> distinct (map fst (sv_workers s)) \<and> list_all worker_ok (sv_workers s) \<and>
     (cc_MaxWorkers cfg \<le> 0 \<or> int (length (sv_workers s)) \<le> cc_MaxWorkers cfg) \<and>
     sv_runState s \<in> set run_states \<and>
     sv_runConfig s = \<lparr>rc_Formats = FormatList (cc_Formats cfg), rc_MinBalanceSats = cc_MinBalance cfg,
       rc_CacheETag = etag\<rparr> \<and>
     distinct (sv_hitAddresses s) \<and> '''' \<notin> set (sv_hitAddresses s)"

lemma set_name_states [simp]: "StateLobby \<in> set run_states" "StateRunning \<in> set run_states"
  "StateStopping \<in> set run_states" "StateEnded \<in> set run_states"
  by (simp_all add: run_states_def)

text \<open>One preservation lemma per operation.\<close>

lemma update_ok:
  assumes "server_ok cfg etag s" "map_of (sv_workers s) i = Some v" "we_ID w = i" "we_State w \<noteq> workerOffline"
  shows "server_ok cfg etag (s\<lparr>sv_workers := AList.update i w (sv_workers s)\<rparr>)"
proof -
  have "i \<in> fst ` set (sv_workers s)" using assms(2) by (metis domI dom_map_of_conv_image_fst)
  with assms show ?thesis
    by (simp add: server_ok_def distinct_update list_all_update length_update worker_ok_def)
qed

lemma known_worker_ok:
  "server_ok cfg etag s \<Longrightarrow> map_of (sv_workers s) i = Some w \<Longrightarrow> we_ID w = i \<and> we_State w \<noteq> workerOffline"
  by (auto simp: server_ok_def list_all_iff worker_ok_def dest!: map_of_SomeD)

lemma register_ok: "server_ok cfg etag s \<Longrightarrow> server_ok cfg etag (snd (register F rnd now req s))"
  by (auto simp: register_def server_ok_def Let_def distinct_update list_all_update length_update worker_ok_def)

lemma heartbeat_ok: "server_ok cfg etag s \<Longrightarrow> server_ok cfg etag (snd (heartbeat now i state s))"
  using known_worker_ok [of cfg etag s i]
  by (auto simp: heartbeat_def Let_def intro!: update_ok split: option.split)

lemma recordStats_ok:
  assumes "server_ok cfg etag s"
  shows "server_ok cfg etag (recordStats F now req s)"
proof (cases "map_of (sv_workers s) (sq_WorkerID req)")
  case (Some w)
  let ?w = "w\<lparr>we_LastSeen := now, we_RunKeys := sq_RunKeysTried req,
    we_KeysPerSec := sq_KeysPerSecond req, we_State := workerRunning\<rparr>"
  have "server_ok cfg etag (s\<lparr>sv_workers := AList.update (sq_WorkerID req) ?w (sv_workers s)\<rparr>)"
    using known_worker_ok [OF assms Some] by (intro update_ok [OF assms Some]) simp_all
  then show ?thesis by (simp add: recordStats_def Some Let_def server_ok_def)
qed (use assms in \<open>simp add: recordStats_def\<close>)

lemma handleHit_ok: "server_ok cfg etag s \<Longrightarrow> server_ok cfg etag (fst (snd (handleHit fault now stamp req (s, fs))))"
  by (auto simp: handleHit_def Let_def server_ok_def split: prod.split bool.split)

lemma list_all_states:
  "list_all worker_ok ws \<Longrightarrow> (\<And>w. we_ID (f w) = we_ID w) \<Longrightarrow> (\<And>w. we_State (f w) \<noteq> workerOffline) \<Longrightarrow>
    list_all worker_ok (map (\<lambda>(i, w). (i, f w)) ws)"
  by (induction ws) (auto simp: worker_ok_def)

lemma map_fst_states [simp]: "map fst (map (\<lambda>(i, w). (i, f w)) ws) = map fst ws"
  by (induction ws) auto

lemma phase_ops_ok:
  assumes "server_ok cfg etag s"
  shows "server_ok cfg etag (startRun F now s)" "server_ok cfg etag (stopRun s)"
    "server_ok cfg etag (endRun s)" "server_ok cfg etag (resetLobby s)"
  using assms
  by (auto simp: startRun_def stopRun_def endRun_def resetLobby_def server_ok_def
      intro!: list_all_states simp del: list.map_comp map_map)

lemma pruneStale_ok:
  assumes "server_ok cfg etag s"
  shows "server_ok cfg etag (pruneStale now s)"
proof -
  let ?ws = "filter (\<lambda>(id, w). \<not> we_LastSeen w < now - freshWindow) (sv_workers s)"
  have "int (length ?ws) \<le> int (length (sv_workers s))" by simp
  then have "cc_MaxWorkers cfg \<le> 0 \<or> int (length ?ws) \<le> cc_MaxWorkers cfg"
    using assms unfolding server_ok_def by linarith
  with assms show ?thesis
    by (simp add: pruneStale_def Let_def server_ok_def distinct_filter_fst list_all_iff)
qed

lemma print_ok: "server_ok cfg etag (s\<lparr>sv_ui := u\<rparr>) = server_ok cfg etag s"
  by (simp add: server_ok_def)

lemma apply_op_ok: "server_ok cfg etag (fst st) \<Longrightarrow> server_ok cfg etag (fst (apply_op F op st))"
  by (cases st; cases op)
    (simp_all add: register_ok heartbeat_ok recordStats_ok handleHit_ok phase_ops_ok pruneStale_ok print_ok)

lemma init_ok: "server_ok cfg etag (setRunConfig etag ((NewServer F cfg ui)\<lparr>sv_cachePath := path\<rparr>))"
  by (auto simp: server_ok_def setRunConfig_def NewServer_def)

lemma reachable_ok: "reachable F cfg etag st \<Longrightarrow> server_ok cfg etag (fst st)"
  by (induction rule: reachable.induct) (simp_all add: init_ok apply_op_ok)

text \<open>C14. Whatever the workers send and in whatever order, the coordinator keeps its books: worker ids
  are distinct and no registered worker is offline, a limit on workers is never exceeded, the run
  state is one of the four, hit addresses are distinct, and the run configuration stays the one it
  was started with.\<close>

theorem coordinator_invariant:
  assumes "reachable F cfg etag (s, fs)"
  shows "server_ok cfg etag s"
  using reachable_ok [OF assms] by simp

text \<open>A worker gets from the coordinator the formats it was configured with: parsing the token
  list of any reachable coordinator's answer gives the mask back.\<close>

theorem worker_gets_config:
  assumes "reachable F cfg etag (s, fs)" "Any (cc_Formats cfg)"
  shows "ParseFormatList (rc_Formats (rr_Config (runStatus s))) = Inr (cc_Formats cfg) \<and>
    rc_MinBalanceSats (rr_Config (runStatus s)) = cc_MinBalance cfg \<and>
    rc_CacheETag (rr_Config (runStatus s)) = etag"
  using reachable_ok [OF assms(1)] format_masks_parse [OF assms(2)]
  by (simp add: server_ok_def runStatus_def)

section \<open>Workers that are heard from\<close>

text \<open>A worker was heard from at \<open>t\<close> or later.\<close>

definition heard_since :: "int \<Rightarrow> string \<Rightarrow> 'f Server \<Rightarrow> bool" where
  "heard_since t i s = (case map_of (sv_workers s) i of None \<Rightarrow> False | Some w \<Rightarrow> t \<le> we_LastSeen w)"

text \<open>The operation happens between \<open>t\<close> and \<open>t + 30s\<close>.\<close>

fun op_within :: "int \<Rightarrow> 'f op \<Rightarrow> bool" where
  "op_within t (OpRegister rnd now req) = (t \<le> now)"
| "op_within t (OpHeartbeat now w state) = (t \<le> now)"
| "op_within t (OpStats now req) = (t \<le> now)"
| "op_within t (OpPrune now) = (now \<le> t + freshWindow)"
| "op_within t op = True"

lemma heard_update:
  "heard_since t i s \<Longrightarrow> t \<le> we_LastSeen w \<Longrightarrow>
    heard_since t i (s\<lparr>sv_workers := AList.update k w (sv_workers s)\<rparr>)"
  by (simp add: heard_since_def update_conv split: option.splits)

lemma heard_states:
  "(\<And>w. we_LastSeen (f w) = we_LastSeen w) \<Longrightarrow>
    heard_since t i (s\<lparr>sv_workers := map (\<lambda>(k, w). (k, f w)) (sv_workers s)\<rparr>) = heard_since t i s"
  by (simp add: heard_since_def map_of_map_value split: option.split)

lemma heard_cong: "sv_workers s = sv_workers s' \<Longrightarrow> heard_since t i s = heard_since t i s'"
  by (simp add: heard_since_def)

lemma heard_step:
  assumes "heard_since t i (fst st)" "op_within t op" "distinct (map fst (sv_workers (fst st)))"
  shows "heard_since t i (fst (apply_op F op st))"
proof -
  obtain s fs where st: "st = (s, fs)" by (rule prod.exhaust)
  obtain v where v: "map_of (sv_workers s) i = Some v" "t \<le> we_LastSeen v"
    using assms(1) by (auto simp: st heard_since_def split: option.splits)
  show ?thesis
  proof (cases op)
    case (OpRegister rnd now req)
    with assms(2) v show ?thesis
      by (simp add: st register_def Let_def heard_since_def update_conv split: option.split)
  next
    case (OpHeartbeat now w state)
    with assms(2) v show ?thesis
      by (simp add: st heartbeat_def Let_def heard_since_def update_conv split: option.split)
  next
    case (OpStats now req)
    with assms(2) v show ?thesis
      by (simp add: st recordStats_def Let_def heard_since_def update_conv split: option.split)
  next
    case (OpHit fault now stamp req)
    have "sv_workers (fst (apply_op F op st)) = sv_workers s" by (simp add: OpHit st)
    then show ?thesis using assms(1) by (simp add: heard_since_def st)
  next
    case (OpPrune now)
    with assms(2,3) v show ?thesis
      by (simp add: st pruneStale_def Let_def heard_since_def map_of_filter_key)
  next
    case (OpStart now)
    with assms(1) show ?thesis
      by (simp add: st startRun_def heard_since_def map_of_map_value split: option.splits)
  next
    case OpReset
    with assms(1) show ?thesis
      by (simp add: st resetLobby_def heard_since_def map_of_map_value split: option.splits)
  qed (use assms(1) in \<open>simp_all add: st stopRun_def endRun_def heard_since_def\<close>)
qed

text \<open>C28. A worker that was heard from at \<open>t\<close> keeps its place for thirty seconds: no order of
  registrations, heartbeats, reports, hits, starts, stops and prunings up to \<open>t + 30s\<close> removes it, so
  its next heartbeat is accepted.\<close>

theorem worker_survives:
  assumes "reachable F cfg etag (s, fs)" "heard_since t i s" "\<And>op. op \<in> set ops \<Longrightarrow> op_within t op"
  shows "fst (heartbeat now i state (fst (fold (apply_op F) ops (s, fs))))"
proof -
  have "reachable F cfg etag st \<Longrightarrow> heard_since t i (fst st) \<Longrightarrow> (\<And>op. op \<in> set ops \<Longrightarrow> op_within t op) \<Longrightarrow>
      heard_since t i (fst (fold (apply_op F) ops st))" for st :: "'a Server \<times> fs"
  proof (induction ops arbitrary: st)
    case (Cons op ops)
    have "distinct (map fst (sv_workers (fst st)))"
      using reachable_ok [OF Cons.prems(1)] by (simp add: server_ok_def)
    then have "heard_since t i (fst (apply_op F op st))"
      using heard_step Cons.prems(2,3) by (metis list.set_intros(1))
    then show ?case using Cons.IH [OF reachable.step [OF Cons.prems(1)]] Cons.prems(3) by simp
  qed simp
  from this [of "(s, fs)"] assms have "heard_since t i (fst (fold (apply_op F) ops (s, fs)))" by simp
  then show ?thesis by (simp add: heard_since_def heartbeat_def Let_def split: option.splits)
qed

text \<open>Pruning drops exactly the workers not heard from in thirty seconds, and touches no other.\<close>

theorem pruneStale_exact:
  assumes "reachable F cfg etag (s, fs)"
  shows "map_of (sv_workers (pruneStale now s)) i =
    (case map_of (sv_workers s) i of None \<Rightarrow> None
     | Some w \<Rightarrow> if now - freshWindow \<le> we_LastSeen w then Some w else None)"
  using reachable_ok [OF assms]
  by (simp add: pruneStale_def Let_def map_of_filter_key server_ok_def not_less split: option.split)

section \<open>The phases of a run\<close>

text \<open>coordinator/server.go takes the server through four phases, with the operations of the API, the pruning ticker
  and the dashboard in between. Nothing calls \<open>resetLobby\<close>.\<close>

datatype phase = PhWaiting | PhSearching | PhStopping | PhEnded

fun phase_name :: "phase \<Rightarrow> string" where
  "phase_name PhWaiting = StateLobby"
| "phase_name PhSearching = StateRunning"
| "phase_name PhStopping = StateStopping"
| "phase_name PhEnded = StateEnded"

fun phase_rank :: "phase \<Rightarrow> nat" where
  "phase_rank PhWaiting = 0"
| "phase_rank PhSearching = 1"
| "phase_rank PhStopping = 2"
| "phase_rank PhEnded = 3"

fun api_op :: "'f op \<Rightarrow> bool" where
  "api_op (OpStart now) = False"
| "api_op OpStop = False"
| "api_op OpEnd = False"
| "api_op OpReset = False"
| "api_op op = True"

text \<open>The operations a request can be.\<close>

fun request_op :: "'f op \<Rightarrow> bool" where
  "request_op (OpRegister rnd now req) = True"
| "request_op (OpHeartbeat now w state) = True"
| "request_op (OpStats now req) = True"
| "request_op (OpHit fault now stamp req) = True"
| "request_op op = False"

lemma request_is_api: "request_op op \<Longrightarrow> api_op op"
  by (cases op) simp_all

inductive run_step :: "'f float_lib \<Rightarrow> phase \<times> 'f Server \<times> fs \<Rightarrow> phase \<times> 'f Server \<times> fs \<Rightarrow> bool"
  for F where
  api: "api_op op \<Longrightarrow> run_step F (ph, st) (ph, apply_op F op st)"
| begin_search: "run_step F (PhWaiting, st) (PhSearching, apply_op F (OpStart now) st)"
| stop_search: "run_step F (PhSearching, st) (PhStopping, apply_op F OpStop st)"
| end_search: "run_step F (PhStopping, st) (PhEnded, apply_op F OpEnd st)"

inductive_cases run_stepE: "run_step F (ph, st) (ph', st')"

lemma api_keeps_state: "api_op op \<Longrightarrow> sv_runState (fst (apply_op F op st)) = sv_runState (fst st)"
  by (cases st; cases op)
    (auto simp: register_def heartbeat_def recordStats_def handleHit_def pruneStale_def Let_def
      split: option.split prod.split bool.split)

lemma phase_state_step:
  assumes "run_step F (ph, s, fs) (ph', s', fs')" "sv_runState s = phase_name ph"
  shows "sv_runState s' = phase_name ph' \<and> phase_rank ph \<le> phase_rank ph'"
proof -
  have keep: "sv_runState s' = sv_runState s" if "api_op op" "(s', fs') = apply_op F op (s, fs)" for op
    using api_keeps_state [OF that(1), of F "(s, fs)"] that(2) by (metis fst_conv)
  from assms(1) show ?thesis
    by (rule run_stepE)
      (use assms(2) keep in \<open>auto simp: startRun_def stopRun_def endRun_def\<close>)
qed

lemma phase_state_steps:
  assumes "(run_step F)\<^sup>*\<^sup>* x y" "sv_runState (fst (snd x)) = phase_name (fst x)"
  shows "sv_runState (fst (snd y)) = phase_name (fst y) \<and> phase_rank (fst x) \<le> phase_rank (fst y)"
  using assms
proof (induction rule: rtranclp_induct)
  case (step y z)
  then show ?case
    using phase_state_step [of F "fst y" "fst (snd y)" "snd (snd y)" "fst z" "fst (snd z)" "snd (snd z)"]
    by (auto intro: order_trans)
qed simp

text \<open>The state the coordinator serves at \<open>/run\<close> is the phase it is in, and it only moves forward:
  lobby, running, stopping, ended, whatever the workers send meanwhile.\<close>

theorem run_state_moves_forward:
  assumes "(run_step F)\<^sup>*\<^sup>* (PhWaiting, setRunConfig etag (NewServer F cfg ui), fs) (ph, s, fs1)"
    and "(run_step F)\<^sup>*\<^sup>* (ph, s, fs1) (ph', s', fs2)"
  shows "rr_State (runStatus s) = phase_name ph \<and> rr_State (runStatus s') = phase_name ph' \<and>
    phase_rank ph \<le> phase_rank ph'"
proof -
  have "sv_runState (setRunConfig etag (NewServer F cfg ui)) = StateLobby"
    by (simp add: setRunConfig_def NewServer_def)
  then have s: "sv_runState s = phase_name ph" using phase_state_steps [OF assms(1)] by simp
  with phase_state_steps [OF assms(2)] show ?thesis by (simp add: runStatus_def)
qed

section \<open>Witnesses\<close>

definition unit_float :: "unit float_lib" where
  "unit_float = \<lparr>f_zero = (), f_add = (\<lambda>_ _. ())\<rparr>"

definition sample_coord :: CoordConfig where
  "sample_coord = \<lparr>cc_Listen = '':8443'', cc_TLSCert = '''', cc_TLSKey = '''', cc_AuthToken = ''secret'',
     cc_Insecure = True, cc_Formats = AllFormats, cc_MinBalance = 30000, cc_AutoStart = False,
     cc_Quiet = False, cc_NoColor = False, cc_Verbose = False, cc_MTLSCA = '''',
     cc_MTLSRequireClientCert = False, cc_MaxWorkers = 1, cc_AllowCIDR = [], cc_RateRegister = 0,
     cc_RateCache = 0, cc_RateAPI = 0\<rparr>"

definition sample_register :: RegisterRequest where
  "sample_register = \<lparr>rq_Hostname = ''h'', rq_Threads = 2, rq_Version = ''1''\<rparr>"

definition sample_term :: CoordTerm where "sample_term = NewCoordUI False False False"

definition sample_server :: "unit Server" where
  "sample_server = snd (register unit_float [0xAB] 5 sample_register
     (setRunConfig ''5-30000'' (NewServer unit_float sample_coord sample_term)))"

lemma sample_reachable: "reachable unit_float sample_coord ''5-30000'' (sample_server, Map.empty)"
proof -
  have "(NewServer unit_float sample_coord sample_term)\<lparr>sv_cachePath := ''''\<rparr> = NewServer unit_float sample_coord sample_term"
    by (simp add: NewServer_def)
  then show ?thesis
    using reachable.step [OF reachable.init [where ui = sample_term and path = "''''" and fs = Map.empty],
        of unit_float sample_coord "''5-30000''" "OpRegister [0xAB] 5 sample_register"]
    by (simp add: sample_server_def)
qed

lemma sample_workers:
  "sv_workers sample_server = [(''w-ab'', \<lparr>we_ID = ''w-ab'', we_Hostname = ''h'', we_Threads = 2,
     we_Version = ''1'', we_State = workerWaiting, we_LastSeen = 5, we_RunKeys = 0, we_KeysPerSec = ()\<rparr>)]"
  by code_simp

theorem coordinator_invariant_witness:
  "server_ok sample_coord ''5-30000'' sample_server \<and> length (sv_workers sample_server) = 1"
  using coordinator_invariant [OF sample_reachable] by (simp add: sample_workers)

theorem worker_gets_config_witness:
  "ParseFormatList (rc_Formats (rr_Config (runStatus sample_server))) = Inr AllFormats"
  using worker_gets_config [OF sample_reachable] by (simp add: sample_coord_def AllFormats_def Any_def)

theorem worker_survives_witness:
  "fst (heartbeat 7 ''w-ab'' ''waiting'' (fst (fold (apply_op unit_float)
    [OpStart 6, OpPrune 30000000005] (sample_server, Map.empty))))"
  by (rule worker_survives [OF sample_reachable, of 5])
    (auto simp: heard_since_def sample_workers freshWindow_def)

theorem pruneStale_exact_witness:
  "map_of (sv_workers (pruneStale 30000000006 sample_server)) ''w-ab'' = None"
  using pruneStale_exact [OF sample_reachable, of 30000000006 "''w-ab''"]
  by (simp add: sample_workers freshWindow_def)

theorem run_state_moves_forward_witness:
  "\<exists>s fs'. (run_step unit_float)\<^sup>*\<^sup>* (PhWaiting, setRunConfig ''e'' (NewServer unit_float sample_coord sample_term), Map.empty)
      (PhSearching, s, fs') \<and> rr_State (runStatus s) = StateRunning"
proof -
  let ?x = "(setRunConfig ''e'' (NewServer unit_float sample_coord sample_term), Map.empty)"
  obtain s fs' where y: "apply_op unit_float (OpStart 1) ?x = (s, fs')" by (rule prod.exhaust)
  have "run_step unit_float (PhWaiting, ?x) (PhSearching, s, fs')"
    using run_step.begin_search [of unit_float ?x 1] y by simp
  then have r: "(run_step unit_float)\<^sup>*\<^sup>* (PhWaiting, ?x) (PhSearching, s, fs')" by (rule r_into_rtranclp)
  show ?thesis using run_state_moves_forward [OF r rtranclp.rtrancl_refl] r by auto
qed

lemma sample_no_hits: "sv_hitAddresses sample_server = []"
  by (simp add: sample_server_def register_def setRunConfig_def NewServer_def Let_def)

lemma sample_known: "map_of (sv_workers sample_server) ''w-ab'' \<noteq> None"
  by (simp add: sample_workers)

definition sample_hit :: HitRequest where
  "sample_hit = \<lparr>hq_WorkerID = ''w-ab'', hq_Address = ''1abc'', hq_WIF = ''K'', hq_Format = ''p2sh'',
     hq_BalanceSats = 7, hq_KeyIndex = 3\<rparr>"

theorem hits_logged_once_witness:
  "\<exists>s' fs'. handle_hits [(LogOk, 9, ''t1'', sample_hit), (LogOk, 10, ''t2'', sample_hit)] (sample_server, Map.empty) = (s', fs') \<and>
    file_data fs' walletsLogFile = request_record ''t1'' sample_hit \<and> sv_clusterHits s' = sv_clusterHits sample_server + 1"
proof -
  let ?calls = "[(LogOk, 9, ''t1'', sample_hit), (LogOk, 10, ''t2'', sample_hit)]"
  obtain s' fs' where h: "handle_hits ?calls (sample_server, Map.empty) = (s', fs')"
    by (rule prod.exhaust)
  have f: "fresh_hits (sv_hitAddresses sample_server) [(''t1'', sample_hit), (''t2'', sample_hit)] = [(''t1'', sample_hit)]"
    by (simp add: sample_hit_def sample_no_hits)
  have k: "fst call = LogOk \<and> map_of (sv_workers sample_server) (hq_WorkerID (snd (reported call))) \<noteq> None"
    if "call \<in> set ?calls" for call
    using that sample_known by (auto simp: sample_hit_def)
  have r: "[(''t1'', sample_hit), (''t2'', sample_hit)] = map reported ?calls" by simp
  show ?thesis
    using hits_logged_once [OF k h r, unfolded f] h by (simp add: file_data_def)
qed

theorem failed_write_loses_hit_witness:
  "\<exists>s' fs'. handleHit LogOpenFails 9 ''t1'' sample_hit (sample_server, Map.empty) = (Some LogFailed, s', fs') \<and>
    handleHit LogOk 10 ''t2'' sample_hit (s', fs') =
      (None, s'\<lparr>sv_ui := hit_ignored sample_hit (sv_ui s')\<rparr>, fs') \<and> fs' walletsLogFile = None"
proof -
  obtain s' fs' where h: "handleHit LogOpenFails 9 ''t1'' sample_hit (sample_server, Map.empty) = (Some LogFailed, s', fs')"
    using sample_known
    by (simp add: handleHit_def sample_hit_def appendWalletHit_def kindFromFormatID_def sample_no_hits)
  show ?thesis
    using failed_write_loses_hit [OF _ _ h, of LogOk 10 "''t2''"] h sample_known
    by (auto simp: sample_hit_def)
qed

end
