(* ===== verification/RateLimit.thy ===== *)
theory RateLimit
  imports GoStd
begin

text \<open>
  coordinator/limits.go: the sliding-window rate limiter, the address a request is counted under, and
  the networks that are exempt. Times are nanoseconds. Parsing of IP addresses and networks is the
  parameter \<open>net_lib\<close>.
\<close>

section \<open>The limiter\<close>

record rateLimiter =
  rl_buckets :: "(string \<times> int list) list"
  rl_limit :: int
  rl_window :: int

text \<open>\<open>None\<close> is Go's nil limiter, which allows everything.\<close>

definition newRateLimiter :: "int \<Rightarrow> int \<Rightarrow> rateLimiter option" where
  "newRateLimiter limit window =
     (if limit \<le> 0 then None
      else Some \<lparr>rl_buckets = [], rl_limit = limit, rl_window = window\<rparr>)"

definition bucket :: "rateLimiter \<Rightarrow> string \<Rightarrow> int list" where
  "bucket r key = (case map_of (rl_buckets r) key of None \<Rightarrow> [] | Some ts \<Rightarrow> ts)"

definition allow :: "int \<Rightarrow> string \<Rightarrow> rateLimiter option \<Rightarrow> bool \<times> rateLimiter option" where
  "allow now key lmt =
     (case lmt of
        None \<Rightarrow> (True, None)
      | Some r \<Rightarrow>
          let cutoff = now - rl_window r;
              times = filter (\<lambda>t. t > cutoff) (bucket r key)
          in if int (length times) \<ge> rl_limit r
             then (False, Some (r\<lparr>rl_buckets := AList.update key times (rl_buckets r)\<rparr>))
             else (True, Some (r\<lparr>rl_buckets := AList.update key (times @ [now]) (rl_buckets r)\<rparr>)))"

section \<open>Who is asking\<close>

text \<open>The last index of a character, and \<open>net.SplitHostPort\<close>, of which only the host is used; a bracket anywhere but
  around the host, in the port too, is an error.\<close>

definition LastIndexByte :: "string \<Rightarrow> char \<Rightarrow> nat option" where
  "LastIndexByte s c = map_option (\<lambda>i. length s - 1 - i) (IndexByte (rev s) c)"

definition SplitHost :: "string \<Rightarrow> string option" where
  "SplitHost hostport =
     (case LastIndexByte hostport (CHR '':'') of
        None \<Rightarrow> None
      | Some i \<Rightarrow>
          if hostport ! 0 = CHR ''['' then
            (case IndexByte hostport (CHR '']'') of
               None \<Rightarrow> None
             | Some e \<Rightarrow>
                 if e + 1 \<noteq> i then None
                 else if CHR ''['' \<in> set (drop 1 hostport) \<or> CHR '']'' \<in> set (drop (e + 1) hostport) then None
                 else Some (take (e - 1) (drop 1 hostport)))
          else
            (let host = take i hostport in
             if CHR '':'' \<in> set host then None
             else if CHR ''['' \<in> set hostport \<or> CHR '']'' \<in> set hostport then None
             else Some host))"

text \<open>The parts of a request the limits look at; a missing header is empty.\<close>

definition clientIP :: "string \<Rightarrow> string \<Rightarrow> string" where
  "clientIP xff remoteAddr =
     (if xff \<noteq> '''' then TrimSpace (hd (Split (CHR '','') xff))
      else (case SplitHost remoteAddr of None \<Rightarrow> remoteAddr | Some host \<Rightarrow> host))"

record 'ip net_lib =
  n_ParseIP :: "string \<Rightarrow> 'ip option"
  n_ParseCIDR :: "string \<Rightarrow> ('ip \<Rightarrow> bool) option"

definition ipAllowed :: "'ip net_lib \<Rightarrow> string \<Rightarrow> string list \<Rightarrow> bool" where
  "ipAllowed N ip cidrs =
     (if length cidrs = 0 then False
      else
        (case n_ParseIP N ip of
           None \<Rightarrow> False
         | Some addr \<Rightarrow>
             list_ex (\<lambda>c. case n_ParseCIDR N (TrimSpace c) of None \<Rightarrow> False | Some contains \<Rightarrow> contains addr) cidrs))"

text \<open>The wrapper: whether the handler runs, and the limiter afterwards. A refused request gets 429.\<close>

definition rateLimit ::
  "'ip net_lib \<Rightarrow> string list \<Rightarrow> int \<Rightarrow> string \<Rightarrow> string \<Rightarrow> rateLimiter option \<Rightarrow> bool \<times> rateLimiter option" where
  "rateLimit N cidrs now xff remoteAddr lmt =
     (let ip = clientIP xff remoteAddr in
      if ipAllowed N ip cidrs then (True, lmt) else allow now ip lmt)"

section \<open>No window holds more than the limit\<close>

text \<open>The times at which a sequence of calls (time and key) was accepted for a key.\<close>

fun accepted :: "string \<Rightarrow> (int \<times> string) list \<Rightarrow> rateLimiter \<Rightarrow> int list" where
  "accepted k [] r = []"
| "accepted k ((now, key) # calls) r =
     (case allow now key (Some r) of
        (ok, None) \<Rightarrow> []
      | (ok, Some r') \<Rightarrow> (if ok \<and> key = k then [now] else []) @ accepted k calls r')"

lemma allow_bucket:
  "allow now key (Some r) = (ok, Some r') \<Longrightarrow>
    rl_limit r' = rl_limit r \<and> rl_window r' = rl_window r \<and>
    (ok \<longleftrightarrow> int (length (filter (\<lambda>t. t > now - rl_window r) (bucket r key))) < rl_limit r) \<and>
    bucket r' k = (if k = key then filter (\<lambda>t. t > now - rl_window r) (bucket r key) @ (if ok then [now] else [])
      else bucket r k)"
  by (auto simp: allow_def Let_def bucket_def update_conv split: if_splits)

lemma allow_Some: "\<exists>ok r'. allow now key (Some r) = (ok, Some r')"
  by (cases "allow now key (Some r)") (auto simp: allow_def Let_def split: if_splits)

definition in_window :: "int \<Rightarrow> int \<Rightarrow> int list \<Rightarrow> int list" where
  "in_window w t xs = filter (\<lambda>x. t - w < x \<and> x \<le> t) xs"

lemma in_window_snoc:
  assumes bound: "\<And>t. int (length (in_window w t xs)) \<le> limit" "limit \<ge> 1"
    and room: "int (length (filter (\<lambda>x. x > now - w) xs)) < limit"
    and le: "\<forall>x \<in> set xs. x \<le> now"
  shows "int (length (in_window w t (xs @ [now]))) \<le> limit"
proof (cases "t < now")
  case True
  then have "in_window w t (xs @ [now]) = in_window w t xs" by (simp add: in_window_def)
  then show ?thesis using bound(1) by simp
next
  case False
  have "in_window w t xs = filter (\<lambda>x. t - w < x \<and> x \<le> t) (filter (\<lambda>x. x > now - w) xs)"
    using False by (auto simp: in_window_def intro!: filter_cong)
  then have "length (in_window w t xs) \<le> length (filter (\<lambda>x. x > now - w) xs)"
    by (metis length_filter_le)
  then show ?thesis using room by (auto simp: in_window_def)
qed

text \<open>What a bucket remembers of the times \<open>acc\<close> accepted so far: those after some point that no later
  call looks before.\<close>

definition remembers :: "int \<Rightarrow> rateLimiter \<Rightarrow> string \<Rightarrow> int list \<Rightarrow> bool" where
  "remembers now r k acc \<longleftrightarrow> (\<exists>c \<le> now - rl_window r. bucket r k = filter (\<lambda>x. x > c) acc)"

lemma accepted_bound:
  assumes "sorted (map fst calls)" "\<forall>p \<in> set calls. now0 \<le> fst p" "\<forall>x \<in> set acc. x \<le> now0"
    and "remembers now0 r k acc" "rl_limit r \<ge> 1" "rl_window r > 0"
    and "\<And>t. int (length (in_window (rl_window r) t acc)) \<le> rl_limit r"
  shows "int (length (in_window (rl_window r) t (acc @ accepted k calls r))) \<le> rl_limit r"
  using assms
proof (induction calls arbitrary: r acc now0)
  case (Cons p calls)
  obtain now key where p: "p = (now, key)" by (rule prod.exhaust)
  obtain ok r' where a: "allow now key (Some r) = (ok, Some r')" using allow_Some by blast
  note b = allow_bucket [OF a, of k]
  have now: "now0 \<le> now" "\<forall>p \<in> set calls. now \<le> fst p" "sorted (map fst calls)"
    using Cons.prems(1,2) by (auto simp: p)
  obtain c where c: "c \<le> now0 - rl_window r" "bucket r k = filter (\<lambda>x. x > c) acc"
    using Cons.prems(4) by (auto simp: remembers_def)
  have le: "\<forall>x \<in> set acc. x \<le> now" using Cons.prems(3) now(1) by auto
  let ?new = "if ok \<and> key = k then [now] else []"
  have f: "filter (\<lambda>x. x > now - rl_window r) (bucket r k) = filter (\<lambda>x. x > now - rl_window r) acc"
    unfolding c(2) using c(1) now(1) by (auto intro!: filter_cong)
  have window: "\<And>t. int (length (in_window (rl_window r) t (acc @ ?new))) \<le> rl_limit r"
  proof (cases "ok \<and> key = k")
    case True
    then have "int (length (filter (\<lambda>x. x > now - rl_window r) (bucket r k))) < rl_limit r" using b by blast
    then have "int (length (filter (\<lambda>x. x > now - rl_window r) acc)) < rl_limit r" unfolding f .
    then show "int (length (in_window (rl_window r) t (acc @ ?new))) \<le> rl_limit r" for t
      using in_window_snoc [OF Cons.prems(7,5) _ le, of t] True by simp
  qed (use Cons.prems(7) in auto)
  have rem: "remembers now r' k (acc @ ?new)"
  proof (cases "key = k")
    case True
    then have "bucket r' k = filter (\<lambda>x. x > now - rl_window r) acc @ ?new" using b f by auto
    then have "bucket r' k = filter (\<lambda>x. x > now - rl_window r') (acc @ ?new)" using Cons.prems(6) b by auto
    then show ?thesis unfolding remembers_def by blast
  next
    case False
    then have "bucket r' k = filter (\<lambda>x. x > c) (acc @ ?new)" using b c(2) by simp
    moreover have "c \<le> now - rl_window r'" using b c(1) now(1) by simp
    ultimately show ?thesis unfolding remembers_def by blast
  qed
  have lmt: "rl_limit r' = rl_limit r" "rl_window r' = rl_window r" using b by simp_all
  have le': "\<forall>x \<in> set (acc @ ?new). x \<le> now" using le by auto
  have acc_eq: "accepted k (p # calls) r = ?new @ accepted k calls r'" by (simp add: p a)
  show ?case
    using Cons.IH [OF now(3,2) le' rem] Cons.prems(5,6) window unfolding acc_eq lmt by (simp add: append_assoc)
qed (use assms(7) in simp)

lemma limiter_bound:
  assumes "newRateLimiter limit window = Some r" "window > 0" "sorted (map fst calls)"
  shows "int (length (in_window window t (accepted k calls r))) \<le> limit"
proof -
  have r: "rl_limit r = limit" "rl_window r = window" "limit \<ge> 1" "rl_buckets r = []"
    using assms(1) by (auto simp: newRateLimiter_def split: if_splits)
  have now: "\<exists>now0. \<forall>p \<in> set calls. now0 \<le> fst p"
    using assms(3) by (cases calls) auto
  then obtain now0 where now0: "\<forall>p \<in> set calls. now0 \<le> fst p" by blast
  have rem: "remembers now0 r k []" by (auto simp: remembers_def bucket_def r)
  show ?thesis
    using accepted_bound [OF assms(3) now0 _ rem, of t] assms(2) r by (simp add: in_window_def)
qed

text \<open>A request as the wrapper sees it: the time the limiter reads, the \<open>X-Forwarded-For\<close> header and the remote
  address. The times at which the wrapper let requests of the client \<open>k\<close> through to the handler.\<close>

type_synonym limited_request = "int \<times> string \<times> string"

definition client_of :: "limited_request \<Rightarrow> string" where
  "client_of q = (case q of (now, xff, remoteAddr) \<Rightarrow> clientIP xff remoteAddr)"

fun let_through :: "'ip net_lib \<Rightarrow> string list \<Rightarrow> string \<Rightarrow> limited_request list \<Rightarrow> rateLimiter option \<Rightarrow> int list" where
  "let_through N cidrs k [] rl = []"
| "let_through N cidrs k ((now, xff, remoteAddr) # reqs) rl =
     (case rateLimit N cidrs now xff remoteAddr rl of
        (ok, rl') \<Rightarrow> (if ok \<and> clientIP xff remoteAddr = k then [now] else []) @ let_through N cidrs k reqs rl')"

text \<open>The limiter sees the requests of the clients that are not exempt.\<close>

lemma let_through_accepted:
  assumes "\<not> ipAllowed N k cidrs"
  shows "let_through N cidrs k reqs (Some r) =
    accepted k (map (\<lambda>q. (fst q, client_of q)) (filter (\<lambda>q. \<not> ipAllowed N (client_of q) cidrs) reqs)) r"
proof (induction reqs arbitrary: r)
  case (Cons q reqs)
  obtain now xff remote where q: "q = (now, xff, remote)" by (rule prod_cases3)
  obtain ok r' where a: "allow now (clientIP xff remote) (Some r) = (ok, Some r')" using allow_Some by blast
  show ?case using Cons.IH a assms by (auto simp: q client_of_def rateLimit_def Let_def)
qed simp

text \<open>C31. The wrapper keeps the limit. Of any sequence of requests, of any clients, whose times the limiter reads in order,
  it lets through to the handler at most \<open>limit\<close> requests of one client in every half-open interval of the length of
  the window. A client is what \<open>clientIP\<close> makes of a request, the first entry of \<open>X-Forwarded-For\<close> or the remote
  address (\<open>rate_limit_bypass\<close> shows what that means), and it is not in an exempt network.\<close>

theorem rate_limit_bound:
  assumes "newRateLimiter limit window = Some r" "window > 0" "sorted (map fst reqs)" "\<not> ipAllowed N client cidrs"
  shows "int (length (in_window window t (let_through N cidrs client reqs (Some r)))) \<le> limit"
proof -
  have "sorted (map fst (filter P reqs))" for P using assms(3) by (rule sorted_filter)
  then show ?thesis
    unfolding let_through_accepted [OF assms(4)] using assms(1,2)
    by (intro limiter_bound) (simp_all add: comp_def)
qed

definition no_nets :: "unit net_lib" where
  "no_nets = \<lparr>n_ParseIP = (\<lambda>s. None), n_ParseCIDR = (\<lambda>s. None)\<rparr>"

definition requests_at :: "int list \<Rightarrow> limited_request list" where
  "requests_at = map (\<lambda>now. (now, '''', ''10.0.0.1:4000''))"

lemma sample_host: "clientIP '''' ''10.0.0.1:4000'' = ''10.0.0.1''"
  by code_simp

theorem rate_limit_bound_witness:
  "let_through no_nets [] ''10.0.0.1'' (requests_at [0, 10, 20, 65]) (Some \<lparr>rl_buckets = [], rl_limit = 2, rl_window = 60\<rparr>) =
      [0, 10, 65] \<and>
    int (length (in_window 60 65 (let_through no_nets [] ''10.0.0.1'' (requests_at [0, 10, 20, 65])
      (Some \<lparr>rl_buckets = [], rl_limit = 2, rl_window = 60\<rparr>)))) \<le> 2"
proof (rule conjI)
  show "let_through no_nets [] ''10.0.0.1'' (requests_at [0, 10, 20, 65])
      (Some \<lparr>rl_buckets = [], rl_limit = 2, rl_window = 60\<rparr>) = [0, 10, 65]"
    by (simp add: requests_at_def rateLimit_def ipAllowed_def sample_host allow_def Let_def bucket_def)
qed (rule rate_limit_bound, simp_all add: newRateLimiter_def requests_at_def ipAllowed_def)

text \<open>\<open>allow\<close> reads the clock before it takes the lock, so two requests can pass the lock in the other order than that of
  their times. Then the limit does not hold: a request that read the clock at 59 and waited while one of the time 61
  emptied the bucket is let through, the third one in the window that ends at 59.\<close>

theorem late_lock_exceeds_limit:
  "length (in_window 60 59 (let_through no_nets [] ''10.0.0.1'' (requests_at [0, 0, 61, 59]) (newRateLimiter 2 60))) = 3"
  by (simp add: newRateLimiter_def requests_at_def rateLimit_def ipAllowed_def sample_host allow_def Let_def bucket_def
      in_window_def)

section \<open>A worker in the lobby\<close>

text \<open>The requests of one worker in a minute of the lobby, when each is answered at once: every second its session asks for
  the state of the run and sends a heartbeat (worker/run.go), and every ten seconds its heartbeat goroutine sends
  another.\<close>

definition lobby_times :: "int list" where
  "lobby_times = concat (map (\<lambda>i. let now = int i * 1000000000 in
     (if i mod 10 = 0 then [now] else []) @ [now, now]) [0..<60])"

definition lobby_minute :: "string \<Rightarrow> (int \<times> string) list" where
  "lobby_minute ip = map (\<lambda>now. (now, ip)) lobby_times"

lemma lobby_times_facts:
  "length lobby_times = 126" "sorted lobby_times" "list_all (\<lambda>t. - 1000000000 < t \<and> t \<le> 59 * 1000000000) lobby_times"
  by code_simp+

lemma accepted_times: "t \<in> set (accepted k calls r) \<Longrightarrow> t \<in> fst ` set calls"
proof (induction k calls r rule: accepted.induct)
  case (2 k now key calls r)
  obtain ok r' where a: "allow now key (Some r) = (ok, r')" by (rule prod.exhaust)
  show ?case using 2 by (cases r') (auto simp: a split: if_splits)
qed simp

text \<open>They are more than the default limit of 120 requests lets through: at least six of the 126 are refused.\<close>

theorem lobby_exceeds_limit:
  assumes "newRateLimiter 120 (60 * 1000000000) = Some r"
  shows "length (lobby_minute ip) = 126 \<and> length (accepted ip (lobby_minute ip) r) \<le> 120"
proof -
  let ?w = "60 * 1000000000 :: int" and ?t = "59 * 1000000000 :: int" and ?acc = "accepted ip (lobby_minute ip) r"
  have "map fst (lobby_minute ip) = lobby_times" by (simp add: lobby_minute_def comp_def)
  then have "int (length (in_window ?w ?t ?acc)) \<le> 120"
    using lobby_times_facts(2) by (intro limiter_bound [OF assms]) (simp_all del: sorted_map)
  moreover have "- 1000000000 < t \<and> t \<le> ?t" if "t \<in> set ?acc" for t
    using accepted_times [OF that] lobby_times_facts(3) by (auto simp: lobby_minute_def list_all_iff)
  then have "in_window ?w ?t ?acc = ?acc" unfolding in_window_def by (intro filter_True) auto
  ultimately show ?thesis using lobby_times_facts(1) by (simp add: lobby_minute_def)
qed

section \<open>The key is what the client says it is\<close>

text \<open>The requests of one connection, each with the \<open>X-Forwarded-For\<close> header its sender chose.\<close>

fun rateLimits ::
  "'ip net_lib \<Rightarrow> string list \<Rightarrow> string \<Rightarrow> (int \<times> string) list \<Rightarrow> rateLimiter option \<Rightarrow> bool list" where
  "rateLimits N cidrs remoteAddr [] rl = []"
| "rateLimits N cidrs remoteAddr ((now, xff) # reqs) rl =
     (case rateLimit N cidrs now xff remoteAddr rl of
        (ok, rl') \<Rightarrow> ok # rateLimits N cidrs remoteAddr reqs rl')"

lemma rateLimit_fresh:
  assumes "rl_limit r \<ge> 1" "bucket r (clientIP xff remoteAddr) = []"
  shows "\<exists>r'. rateLimit N cidrs now xff remoteAddr (Some r) = (True, Some r') \<and> rl_limit r' = rl_limit r \<and>
    (\<forall>k. k \<noteq> clientIP xff remoteAddr \<longrightarrow> bucket r' k = bucket r k)"
  using assms by (auto simp: rateLimit_def Let_def allow_def bucket_def update_conv)

lemma rateLimits_fresh:
  assumes "rl_limit r \<ge> 1" "distinct (map (\<lambda>(now, xff). clientIP xff remoteAddr) reqs)"
    and "\<forall>(now, xff) \<in> set reqs. bucket r (clientIP xff remoteAddr) = []"
  shows "rateLimits N cidrs remoteAddr reqs (Some r) = replicate (length reqs) True"
  using assms
proof (induction reqs arbitrary: r)
  case (Cons p reqs)
  obtain now xff where p: "p = (now, xff)" by (rule prod.exhaust)
  obtain r' where r': "rateLimit N cidrs now xff remoteAddr (Some r) = (True, Some r')" "rl_limit r' = rl_limit r"
      "\<forall>k. k \<noteq> clientIP xff remoteAddr \<longrightarrow> bucket r' k = bucket r k"
    using rateLimit_fresh [of r xff remoteAddr N cidrs now] Cons.prems by (auto simp: p)
  have "\<forall>(now, xff) \<in> set reqs. bucket r' (clientIP xff remoteAddr) = []"
    using Cons.prems(2,3) r'(3) by (fastforce simp: p image_iff)
  then show ?case using Cons.IH [of r'] Cons.prems r' by (simp add: p)
qed simp

text \<open>The limit does not bind a client that names itself: requests from one and the same remote address
  are all accepted, however many and however fast, when each carries an \<open>X-Forwarded-For\<close> header of its own,
  since the limiter counts under the header's first entry.\<close>

theorem rate_limit_bypass:
  assumes "newRateLimiter limit window = Some r" "distinct (map (TrimSpace \<circ> hd \<circ> Split (CHR '','') \<circ> snd) reqs)"
    and "\<forall>p \<in> set reqs. snd p \<noteq> ''''"
  shows "rateLimits N cidrs remoteAddr reqs (Some r) = replicate (length reqs) True"
proof (rule rateLimits_fresh)
  have r: "rl_limit r = limit" "limit \<ge> 1" "rl_buckets r = []"
    using assms(1) by (auto simp: newRateLimiter_def split: if_splits)
  then show "rl_limit r \<ge> 1" by simp
  have "map (\<lambda>(now, xff). clientIP xff remoteAddr) reqs = map (TrimSpace \<circ> hd \<circ> Split (CHR '','') \<circ> snd) reqs"
    using assms(3) by (auto simp: clientIP_def)
  then show "distinct (map (\<lambda>(now, xff). clientIP xff remoteAddr) reqs)" using assms(2) by metis
  show "\<forall>(now, xff) \<in> set reqs. bucket r (clientIP xff remoteAddr) = []"
    using r by (auto simp: bucket_def)
qed

theorem rate_limit_bypass_witness:
  "rateLimits no_nets [] ''203.0.113.9:4000''
    [(0, ''1''), (0, ''2''), (0, ''3'')] (Some \<lparr>rl_buckets = [], rl_limit = 1, rl_window = 60\<rparr>) =
    replicate 3 True"
proof -
  have "TrimSpace ''1'' = ''1''" "TrimSpace ''2'' = ''2''" "TrimSpace ''3'' = ''3''" by code_simp+
  then have "rateLimits no_nets [] ''203.0.113.9:4000''
    [(0, ''1''), (0, ''2''), (0, ''3'')] (Some \<lparr>rl_buckets = [], rl_limit = 1, rl_window = 60\<rparr>) =
    replicate (length [(0 :: int, ''1''), (0, ''2''), (0, ''3'')]) True"
    by (intro rate_limit_bypass [where limit = 1 and window = 60]) (simp_all add: newRateLimiter_def)
  then show ?thesis by (simp only: list.size numeral_3_eq_3 One_nat_def add_Suc_right add_0_right)
qed

end
