(* ===== verification/Api.thy ===== *)
theory Api
  imports Cluster RateLimit
begin

text \<open>
  coordinator/auth.go and handlers.go: the HTTP face of the coordinator. A request carries the headers the
  program reads, a response its status and what is encoded into its body. The JSON decoders are the parameter
  \<open>api_json\<close>; paths are in the canonical form to which \<open>http.ServeMux\<close> redirects. What a request meets outside
  (the clock, random bytes, failing files) is the record \<open>req_env\<close>.
\<close>

section \<open>Requests and responses\<close>

record HeartbeatRequest =
  hb_WorkerID :: string
  hb_State :: string

record http_request =
  hr_Method :: string
  hr_Path :: string
  hr_Authorization :: string
  hr_ForwardedFor :: string
  hr_IfNoneMatch :: string
  hr_RemoteAddr :: string
  hr_Body :: string

datatype http_body =
    NoBody
  | TextBody string
  | RegisterBody RegisterResponse
  | RunBody RunResponse
  | CacheBody string u64 nat "u8 list"

record http_response =
  rs_Code :: nat
  rs_Body :: http_body

definition http_Error :: "string \<Rightarrow> nat \<Rightarrow> http_response" where
  "http_Error msg code = \<lparr>rs_Code = code, rs_Body = TextBody msg\<rparr>"

definition writeHeader :: "nat \<Rightarrow> http_response" where
  "writeHeader code = \<lparr>rs_Code = code, rs_Body = NoBody\<rparr>"

definition writeJSON :: "nat \<Rightarrow> http_body \<Rightarrow> http_response" where
  "writeJSON code v = \<lparr>rs_Code = code, rs_Body = v\<rparr>"

record 'f api_json =
  aj_register :: "string \<Rightarrow> RegisterRequest option"
  aj_heartbeat :: "string \<Rightarrow> HeartbeatRequest option"
  aj_stats :: "string \<Rightarrow> 'f StatsRequest option"
  aj_hit :: "string \<Rightarrow> HitRequest option"

record req_env =
  qe_now :: int
  qe_rnd :: "u8 list"
  qe_stamp :: string
  qe_logFault :: log_fault
  qe_openFails :: bool
  qe_statFails :: bool

definition MethodGet :: string where "MethodGet = ''GET''"
definition MethodPost :: string where "MethodPost = ''POST''"

definition StatusOK :: nat where "StatusOK = 200"
definition StatusNoContent :: nat where "StatusNoContent = 204"
definition StatusNotModified :: nat where "StatusNotModified = 304"
definition StatusBadRequest :: nat where "StatusBadRequest = 400"
definition StatusUnauthorized :: nat where "StatusUnauthorized = 401"
definition StatusNotFound :: nat where "StatusNotFound = 404"
definition StatusMethodNotAllowed :: nat where "StatusMethodNotAllowed = 405"
definition StatusTooManyRequests :: nat where "StatusTooManyRequests = 429"
definition StatusInternalServerError :: nat where "StatusInternalServerError = 500"
definition StatusServiceUnavailable :: nat where "StatusServiceUnavailable = 503"

lemmas status_defs = StatusOK_def StatusNoContent_def StatusNotModified_def StatusBadRequest_def
  StatusUnauthorized_def StatusNotFound_def StatusMethodNotAllowed_def StatusTooManyRequests_def
  StatusInternalServerError_def StatusServiceUnavailable_def

definition method_not_allowed :: http_response where
  "method_not_allowed = http_Error ''method not allowed'' StatusMethodNotAllowed"

definition bad_request :: http_response where
  "bad_request = http_Error ''bad request'' StatusBadRequest"

section \<open>Handlers\<close>

definition handleRegister ::
  "'f float_lib \<Rightarrow> 'f api_json \<Rightarrow> req_env \<Rightarrow> http_request \<Rightarrow> 'f Server \<Rightarrow> http_response \<times> 'f Server" where
  "handleRegister F J env r s =
     (if hr_Method r \<noteq> MethodPost then (method_not_allowed, s)
      else if cc_MaxWorkers (sv_cfg s) > 0 \<and> int (length (sv_workers s)) \<ge> cc_MaxWorkers (sv_cfg s)
      then (http_Error ''cluster full'' StatusServiceUnavailable, s)
      else
        (case aj_register J (hr_Body r) of
           None \<Rightarrow> (bad_request, s)
         | Some req \<Rightarrow>
             let req = (if rq_Hostname req = ''''
                   then req\<lparr>rq_Hostname := clientIP (hr_ForwardedFor r) (hr_RemoteAddr r)\<rparr> else req);
                 req = (if rq_Threads req < 1 then req\<lparr>rq_Threads := 1\<rparr> else req)
             in (case register F (qe_rnd env) (qe_now env) req s of
                   (resp, s) \<Rightarrow>
                     if rp_WorkerID resp = '''' then (http_Error ''cluster full'' StatusServiceUnavailable, s)
                     else (writeJSON StatusOK (RegisterBody resp), s))))"

definition handleHeartbeat ::
  "'f api_json \<Rightarrow> req_env \<Rightarrow> http_request \<Rightarrow> 'f Server \<Rightarrow> http_response \<times> 'f Server" where
  "handleHeartbeat J env r s =
     (if hr_Method r \<noteq> MethodPost then (method_not_allowed, s)
      else
        (case aj_heartbeat J (hr_Body r) of
           None \<Rightarrow> (bad_request, s)
         | Some req \<Rightarrow>
             (case heartbeat (qe_now env) (hb_WorkerID req) (hb_State req) s of
                (False, s) \<Rightarrow> (http_Error ''unknown worker_id'' StatusNotFound, s)
              | (True, s) \<Rightarrow> (writeHeader StatusNoContent, s))))"

definition handleRun :: "http_request \<Rightarrow> 'f Server \<Rightarrow> http_response" where
  "handleRun r s =
     (if hr_Method r \<noteq> MethodGet then method_not_allowed else writeJSON StatusOK (RunBody (runStatus s)))"

text \<open>The message of a failing file operation is not modelled.\<close>

definition handleCache :: "req_env \<Rightarrow> http_request \<Rightarrow> 'f Server \<Rightarrow> fs \<Rightarrow> http_response" where
  "handleCache env r s fs =
     (if hr_Method r \<noteq> MethodGet then method_not_allowed
      else
        (case CacheETag fs (sv_cachePath s) of
           Inl e \<Rightarrow> http_Error '''' StatusInternalServerError
         | Inr etag \<Rightarrow>
             if hr_IfNoneMatch r = etag then writeHeader StatusNotModified
             else
               (case fs (sv_cachePath s) of
                  None \<Rightarrow> http_Error '''' StatusInternalServerError
                | Some f \<Rightarrow>
                    if qe_openFails env \<or> qe_statFails env then http_Error '''' StatusInternalServerError
                    else \<lparr>rs_Code = StatusOK, rs_Body = CacheBody etag (cc_MinBalance (sv_cfg s))
                           (length (f_data f)) (f_data f)\<rparr>)))"

definition handleStats ::
  "'f float_lib \<Rightarrow> 'f api_json \<Rightarrow> req_env \<Rightarrow> http_request \<Rightarrow> 'f Server \<Rightarrow> http_response \<times> 'f Server" where
  "handleStats F J env r s =
     (if hr_Method r \<noteq> MethodPost then (method_not_allowed, s)
      else
        (case aj_stats J (hr_Body r) of
           None \<Rightarrow> (bad_request, s)
         | Some req \<Rightarrow> (writeHeader StatusNoContent, recordStats F (qe_now env) req s)))"

definition handleHitHTTP ::
  "'f api_json \<Rightarrow> req_env \<Rightarrow> http_request \<Rightarrow> 'f Server \<times> fs \<Rightarrow> http_response \<times> 'f Server \<times> fs" where
  "handleHitHTTP J env r st =
     (if hr_Method r \<noteq> MethodPost then (method_not_allowed, st)
      else
        (case aj_hit J (hr_Body r) of
           None \<Rightarrow> (bad_request, st)
         | Some req \<Rightarrow>
             (case handleHit (qe_logFault env) (qe_now env) (qe_stamp env) req st of
                (Some err, st) \<Rightarrow> (http_Error '''' StatusBadRequest, st)
              | (None, st) \<Rightarrow> (writeHeader StatusNoContent, st))))"

section \<open>Authentication and routing\<close>

definition bearerAuth ::
  "string \<Rightarrow> http_request \<Rightarrow> ('s \<Rightarrow> http_response \<times> 's) \<Rightarrow> 's \<Rightarrow> http_response \<times> 's" where
  "bearerAuth token r next_handler st =
     (if token = '''' then (http_Error ''auth not configured'' StatusInternalServerError, st)
      else
        (let hdr = hr_Authorization r in
         if \<not> HasPrefix hdr ''Bearer '' then (http_Error ''unauthorized'' StatusUnauthorized, st)
         else
           (let got = TrimPrefix hdr ''Bearer '' in
            if got \<noteq> token then (http_Error ''unauthorized'' StatusUnauthorized, st)
            else next_handler st)))"

record 'f api_state =
  ap_server :: "'f Server"
  ap_fs :: fs
  ap_reg :: "rateLimiter option"
  ap_cache :: "rateLimiter option"
  ap_api :: "rateLimiter option"

definition minute :: int where "minute = 60 * 1000000000"
definition hour :: int where "hour = 60 * minute"

definition default_limiter :: "int \<Rightarrow> int \<Rightarrow> int \<Rightarrow> rateLimiter option" where
  "default_limiter rate dflt window =
     (if rate = 0 then newRateLimiter dflt window else newRateLimiter rate window)"

text \<open>The limiters \<open>mountAPI\<close> makes.\<close>

definition mountAPI :: "'f Server \<times> fs \<Rightarrow> 'f api_state" where
  "mountAPI st = (case st of (s, fs) \<Rightarrow>
     \<lparr>ap_server = s, ap_fs = fs,
      ap_reg = default_limiter (cc_RateRegister (sv_cfg s)) 10 minute,
      ap_cache = default_limiter (cc_RateCache (sv_cfg s)) 2 hour,
      ap_api = default_limiter (cc_RateAPI (sv_cfg s)) 120 minute\<rparr>)"

definition too_many :: http_response where
  "too_many = http_Error ''rate limit exceeded'' StatusTooManyRequests"

text \<open>The routes behind the authentication: the limiter of each, then its handler.\<close>

definition api_routes ::
  "'ip net_lib \<Rightarrow> 'f float_lib \<Rightarrow> 'f api_json \<Rightarrow> req_env \<Rightarrow> http_request \<Rightarrow> string \<Rightarrow> 'f api_state \<Rightarrow>
     http_response \<times> 'f api_state" where
  "api_routes N F J env r path a =
     (let s = ap_server a; fs = ap_fs a;
          limited = rateLimit N (cc_AllowCIDR (sv_cfg s)) (qe_now env) (hr_ForwardedFor r) (hr_RemoteAddr r) in
      if path = ''/register'' then
        (case limited (ap_reg a) of
           (False, rl) \<Rightarrow> (too_many, a\<lparr>ap_reg := rl\<rparr>)
         | (True, rl) \<Rightarrow> (case handleRegister F J env r s of
             (resp, s) \<Rightarrow> (resp, a\<lparr>ap_reg := rl, ap_server := s\<rparr>)))
      else if path = ''/cache'' then
        (case limited (ap_cache a) of
           (False, rl) \<Rightarrow> (too_many, a\<lparr>ap_cache := rl\<rparr>)
         | (True, rl) \<Rightarrow> (handleCache env r s fs, a\<lparr>ap_cache := rl\<rparr>))
      else if path \<in> set [''/heartbeat'', ''/run'', ''/stats'', ''/hit''] then
        (case limited (ap_api a) of
           (False, rl) \<Rightarrow> (too_many, a\<lparr>ap_api := rl\<rparr>)
         | (True, rl) \<Rightarrow>
             (let a = a\<lparr>ap_api := rl\<rparr> in
              if path = ''/heartbeat'' then
                (case handleHeartbeat J env r s of (resp, s) \<Rightarrow> (resp, a\<lparr>ap_server := s\<rparr>))
              else if path = ''/run'' then (handleRun r s, a)
              else if path = ''/stats'' then
                (case handleStats F J env r s of (resp, s) \<Rightarrow> (resp, a\<lparr>ap_server := s\<rparr>))
              else
                (case handleHitHTTP J env r (s, fs) of
                   (resp, s, fs) \<Rightarrow> (resp, a\<lparr>ap_server := s, ap_fs := fs\<rparr>))))
      else (http_Error ''404 page not found'' StatusNotFound, a))"

definition serve ::
  "'ip net_lib \<Rightarrow> 'f float_lib \<Rightarrow> 'f api_json \<Rightarrow> req_env \<Rightarrow> http_request \<Rightarrow> 'f api_state \<Rightarrow>
     http_response \<times> 'f api_state" where
  "serve N F J env r a =
     (if hr_Path r = ''/health'' then (\<lparr>rs_Code = StatusOK, rs_Body = TextBody ''ok''\<rparr>, a)
      else if HasPrefix (hr_Path r) ''/api/v1/'' then
        bearerAuth (cc_AuthToken (sv_cfg (ap_server a))) r
          (api_routes N F J env r (TrimPrefix (hr_Path r) ''/api/v1'')) a
      else (http_Error ''404 page not found'' StatusNotFound, a))"

section \<open>Only authenticated requests count\<close>

lemma prefix_trim: "HasPrefix s p \<and> TrimPrefix s p = t \<longleftrightarrow> s = p @ t"
  by (auto simp: HasPrefix_iff TrimPrefix_append)

lemma bearerAuth_cases:
  "bearerAuth token r next_handler st =
    (if token = '''' then (http_Error ''auth not configured'' StatusInternalServerError, st)
     else if hr_Authorization r = ''Bearer '' @ token then next_handler st
     else (http_Error ''unauthorized'' StatusUnauthorized, st))"
  using prefix_trim [of "hr_Authorization r" "''Bearer ''" token] by (auto simp: bearerAuth_def Let_def)

text \<open>The answer to a request that is not authenticated.\<close>

definition refusal :: "string \<Rightarrow> http_request \<Rightarrow> http_response" where
  "refusal token r =
     (if hr_Path r = ''/health'' then \<lparr>rs_Code = StatusOK, rs_Body = TextBody ''ok''\<rparr>
      else if HasPrefix (hr_Path r) ''/api/v1/'' then
        (if token = '''' then http_Error ''auth not configured'' StatusInternalServerError
         else http_Error ''unauthorized'' StatusUnauthorized)
      else http_Error ''404 page not found'' StatusNotFound)"

definition authorized :: "string \<Rightarrow> http_request \<Rightarrow> bool" where
  "authorized token r \<longleftrightarrow> token \<noteq> '''' \<and> hr_Authorization r = ''Bearer '' @ token"

lemma serve_refused:
  "\<not> authorized (cc_AuthToken (sv_cfg (ap_server a))) r \<Longrightarrow>
    serve N F J env r a = (refusal (cc_AuthToken (sv_cfg (ap_server a))) r, a)"
  by (auto simp: serve_def bearerAuth_cases refusal_def authorized_def)

lemma refusal_code: "HasPrefix (hr_Path r) ''/api/v1/'' \<Longrightarrow> rs_Code (refusal token r) \<in> set [401, 500]"
  by (auto simp: refusal_def http_Error_def status_defs HasPrefix_iff)

text \<open>C13. A request without the coordinator's token changes nothing: workers, run state, counters, files and
  rate limiters stay as they are, and the answer is the same whatever they hold, so it tells nothing about
  them (no run configuration, no cache). An empty token lets nobody in.\<close>

theorem unauthenticated_inert:
  assumes "\<not> authorized (cc_AuthToken (sv_cfg (ap_server a))) r" "sv_cfg (ap_server b) = sv_cfg (ap_server a)"
  shows "snd (serve N F J env r a) = a \<and> fst (serve N F J env' r b) = fst (serve N F J env r a) \<and>
    (HasPrefix (hr_Path r) ''/api/v1/'' \<longrightarrow> rs_Code (fst (serve N F J env r a)) \<in> set [401, 500])"
  using serve_refused [of a r N F J env] serve_refused [of b r N F J env'] refusal_code assms by simp

section \<open>A request is an operation of the coordinator\<close>

text \<open>What a request does to the server and the files: nothing, or one operation of \<open>Cluster\<close> that a
  request can be.\<close>

definition acts :: "'f float_lib \<Rightarrow> 'f Server \<times> fs \<Rightarrow> 'f Server \<times> fs \<Rightarrow> bool" where
  "acts F st st' \<longleftrightarrow> st' = st \<or> (\<exists>op. request_op op \<and> st' = apply_op F op st)"

lemma acts_same [simp]: "acts F st st"
  by (simp add: acts_def)

lemma acts_op: "request_op op \<Longrightarrow> acts F st (apply_op F op st)"
  by (auto simp: acts_def)

lemma handleRegister_acts: "acts F (s, fs) (snd (handleRegister F J env r s), fs)"
  using acts_op [of "OpRegister (qe_rnd env) (qe_now env) req" F "(s, fs)" for req]
  by (auto simp: handleRegister_def Let_def split: option.split prod.split) (metis snd_conv)+

lemma handleHeartbeat_acts: "acts F (s, fs) (snd (handleHeartbeat J env r s), fs)"
  using acts_op [of "OpHeartbeat (qe_now env) i st" F "(s, fs)" for i st]
  by (auto simp: handleHeartbeat_def split: option.split prod.split bool.split) (metis snd_conv)+

lemma handleStats_acts: "acts F (s, fs) (snd (handleStats F J env r s), fs)"
  using acts_op [of "OpStats (qe_now env) req" F "(s, fs)" for req]
  by (auto simp: handleStats_def split: option.split)

lemma handleHitHTTP_acts: "acts F (s, fs) (snd (handleHitHTTP J env r (s, fs)))"
  using acts_op [of "OpHit (qe_logFault env) (qe_now env) (qe_stamp env) req" F "(s, fs)" for req]
  by (auto simp: handleHitHTTP_def split: option.split prod.split) (metis snd_conv)+

lemma api_routes_acts:
  "acts F (ap_server a, ap_fs a)
    (ap_server (snd (api_routes N F J env r path a)), ap_fs (snd (api_routes N F J env r path a)))"
proof -
  have reg: "handleRegister F J env r (ap_server a) = (resp, s) \<Longrightarrow> acts F (ap_server a, ap_fs a) (s, ap_fs a)" for resp s
    using handleRegister_acts [of F "ap_server a" "ap_fs a" J env r] by simp
  have beat: "handleHeartbeat J env r (ap_server a) = (resp, s) \<Longrightarrow> acts F (ap_server a, ap_fs a) (s, ap_fs a)" for resp s
    using handleHeartbeat_acts [of F "ap_server a" "ap_fs a" J env r] by simp
  have stats: "handleStats F J env r (ap_server a) = (resp, s) \<Longrightarrow> acts F (ap_server a, ap_fs a) (s, ap_fs a)" for resp s
    using handleStats_acts [of F "ap_server a" "ap_fs a" J env r] by simp
  have hit: "handleHitHTTP J env r (ap_server a, ap_fs a) = (resp, s, fs) \<Longrightarrow> acts F (ap_server a, ap_fs a) (s, fs)"
    for resp s fs using handleHitHTTP_acts [of F "ap_server a" "ap_fs a" J env r] by simp
  show ?thesis
    unfolding api_routes_def Let_def
    by (simp add: reg beat stats hit split: prod.split bool.split)
qed

lemma serve_acts:
  "acts F (ap_server a, ap_fs a) (ap_server (snd (serve N F J env r a)), ap_fs (snd (serve N F J env r a)))"
  by (simp add: serve_def bearerAuth_cases api_routes_acts)

text \<open>C12. Each request served is nothing or one operation of the coordinator's state machine, so a coordinator
  that has served any requests, with starts, stops and prunings in between, is one of its reachable states
  and keeps their invariant.\<close>

theorem requests_are_operations:
  assumes "reachable F cfg etag (ap_server a, ap_fs a)" "serve N F J env r a = (resp, a')"
  shows "reachable F cfg etag (ap_server a', ap_fs a') \<and> server_ok cfg etag (ap_server a') \<and>
    ((ap_server a', ap_fs a') = (ap_server a, ap_fs a) \<or>
     (\<exists>op. request_op op \<and> (ap_server a', ap_fs a') = apply_op F op (ap_server a, ap_fs a)))"
proof -
  have "acts F (ap_server a, ap_fs a) (ap_server a', ap_fs a')"
    using serve_acts [of F a N J env r] assms(2) by simp
  then have acts: "(ap_server a', ap_fs a') = (ap_server a, ap_fs a) \<or>
      (\<exists>op. request_op op \<and> (ap_server a', ap_fs a') = apply_op F op (ap_server a, ap_fs a))"
    by (simp add: acts_def)
  then have r: "reachable F cfg etag (ap_server a', ap_fs a')"
    using assms(1) reachable.step by metis
  then have "server_ok cfg etag (ap_server a')" using reachable_ok [OF r] by simp
  with acts r show ?thesis by blast
qed

end
