(* ===== verification/Coordinator.thy ===== *)
theory Coordinator
  imports Api Reporter
begin

text \<open>
  coordinator/server.go: what \<open>Run\<close> does until the API is mounted, with its early errors, and what the
  coordinator then serves as its cache; and the reporter of coordinator/ui.go, by which loading prints on the
  terminal of the coordinator. The phases that follow are in \<open>Cluster\<close> and \<open>CoordRun\<close>.
\<close>

section \<open>The reporter\<close>

definition coord_LogFundedLoad :: "(int \<Rightarrow> string) \<Rightarrow> 'bf Sets \<Rightarrow> int \<Rightarrow> bool \<Rightarrow> CoordTerm \<Rightarrow> CoordTerm" where
  "coord_LogFundedLoad seconds sets elapsed fromCache u =
     (if ct_quiet u then u
      else
        (let source = (if fromCache then ''cache hit'' else ''parsed TSV'')
         in coord_Infof (''  Funded loaded ('' @ source @ '', '' @ seconds elapsed @ ''s, '' @
              show_nat (Total sets) @ '' entries)'' @ newline) u))"

definition UIReporter :: "bool \<Rightarrow> (int \<Rightarrow> string) \<Rightarrow> ('bf, CoordTerm) Reporter" where
  "UIReporter verb seconds = \<lparr>rep_Section = coord_Section, rep_Infof = coord_Infof, rep_Warnf = coord_Warnf,
     rep_PrintfErr = coord_Infof, rep_PrintlnErr = (\<lambda>s. Eventf (s @ newline)), rep_Progress = (\<lambda>_ _ _ _ u. u),
     rep_ProgressIndeterminate = (\<lambda>_ _ u. u), rep_ClearProgress = (\<lambda>u. u),
     rep_LogFundedLoad = coord_LogFundedLoad seconds, rep_LogBloomBuild = (\<lambda>_ _ u. u),
     rep_Quiet = ct_quiet, rep_Verbose = (\<lambda>_. verb)\<rparr>"

section \<open>Starting\<close>

datatype tls_error = CAReadFailed | InvalidCA

record tls_conf =
  tc_ClientCAs :: "u8 list option"
  tc_RequireClientCert :: bool

text \<open>\<open>pemOk\<close> says whether the bytes hold a certificate.\<close>

definition tlsConfig :: "(u8 list \<Rightarrow> bool) \<Rightarrow> fs \<Rightarrow> CoordConfig \<Rightarrow> tls_error + tls_conf" where
  "tlsConfig pemOk fs cfg =
     (if cc_MTLSCA cfg = '''' \<and> \<not> cc_MTLSRequireClientCert cfg
      then Inr \<lparr>tc_ClientCAs = None, tc_RequireClientCert = False\<rparr>
      else
        (let require = cc_MTLSRequireClientCert cfg in
         if cc_MTLSCA cfg \<noteq> '''' then
           (case fs (cc_MTLSCA cfg) of
              None \<Rightarrow> Inl CAReadFailed
            | Some f \<Rightarrow>
                if \<not> pemOk (f_data f) then Inl InvalidCA
                else Inr \<lparr>tc_ClientCAs = Some (f_data f), tc_RequireClientCert = require\<rparr>)
         else Inr \<lparr>tc_ClientCAs = None, tc_RequireClientCert = require\<rparr>))"

datatype start_error =
    TLSRequired | TokenRequired | StartLoadFailed load_failure | StartCacheFailed cache_error
  | StartTLSFailed tls_error

text \<open>What one start meets outside: the environment variable, whether there is a terminal, the update of funded.tsv and
  the load, and their clocks.\<close>

record start_env =
  se_token :: string
  se_tty :: bool
  se_web :: web
  se_tsvStatFails :: bool
  se_tsvFault :: io_fault
  se_rmFails :: bool
  se_tsvNow :: int
  se_clock :: ensure_clock
  se_load :: load_env
  se_loadClock :: load_clock
  se_pemOk :: "u8 list \<Rightarrow> bool"

definition with_defaults :: "string \<Rightarrow> CoordConfig \<Rightarrow> CoordConfig" where
  "with_defaults envToken cfg =
     (let cfg = (if cc_MinBalance cfg = 0 then cfg\<lparr>cc_MinBalance := DefaultMinBalanceSats\<rparr> else cfg)
      in if cc_AuthToken cfg = '''' then cfg\<lparr>cc_AuthToken := envToken\<rparr> else cfg)"

text \<open>The error of \<open>EnsureTSV\<close> is ignored, as in the code; the reporter's field \<open>verbose\<close> is left unset.\<close>

definition start_coordinator ::
  "'f float_lib \<Rightarrow> 'bf rep_text \<Rightarrow> addr_lib \<Rightarrow> 'bf bloom_lib \<Rightarrow> start_env \<Rightarrow> CoordConfig \<Rightarrow> fs \<Rightarrow> mapping \<Rightarrow>
     (start_error + 'f Server \<times> 'bf Sets \<times> tls_conf) \<times> fs \<times> mapping" where
  "start_coordinator F X L B env cfg fs act =
     (let cfg = with_defaults (se_token env) cfg in
      if \<not> cc_Insecure cfg \<and> (cc_TLSCert cfg = '''' \<or> cc_TLSKey cfg = '''') then (Inl TLSRequired, fs, act)
      else if cc_AuthToken cfg = '''' then (Inl TokenRequired, fs, act)
      else
        (let ui = coord_Section ''Funded data'' (NewCoordUI (se_tty env) (cc_Quiet cfg) (cc_NoColor cfg));
             rep = Some (UIReporter False (rt_seconds1 X));
             ((tsvErr, fs), ui) = EnsureTSV_reported rep X (se_clock env) (se_web env) (se_tsvStatFails env)
               (se_tsvFault env) (se_rmFails env) (se_tsvNow env) fs ui
         in case Load_reported rep X (se_loadClock env) L B (se_load env)
                \<lparr>o_MinBalance = cc_MinBalance cfg, o_TSVPath = ''''\<rparr> fs act ui of
              ((Inl e, fs, act), ui) \<Rightarrow> (Inl (StartLoadFailed e), fs, act)
            | ((Inr sets, fs, act), ui) \<Rightarrow>
                let srv = (NewServer F cfg ui)\<lparr>sv_cachePath := CachePath (cc_MinBalance cfg)\<rparr> in
                (case CacheETag fs (sv_cachePath srv) of
                   Inl e \<Rightarrow> (Inl (StartCacheFailed e), fs, act)
                 | Inr etag \<Rightarrow>
                     let srv = setRunConfig etag srv in
                     (case tlsConfig (se_pemOk env) fs cfg of
                        Inl e \<Rightarrow> (Inl (StartTLSFailed e), fs, act)
                      | Inr tls \<Rightarrow>
                          (Inr (srv\<lparr>sv_ui := LogListening (cc_Listen cfg) (sv_ui srv)\<rparr>, sets, tls), fs, act)))))"

section \<open>A coordinator that started\<close>

lemma start_coordinator_Inr:
  fixes B :: "'bf bloom_lib"
  assumes "start_coordinator F X L B env cfg fs act = (Inr (s, sets, tls), fs', act')"
  obtains fs1 etag ui where
    "fs1 = snd (EnsureTSV (se_web env) (se_tsvStatFails env) (se_tsvFault env) (se_rmFails env) (se_tsvNow env) fs)"
    "cc_AuthToken (with_defaults (se_token env) cfg) \<noteq> ''''"
    "cc_Insecure cfg \<or> cc_TLSCert cfg \<noteq> '''' \<and> cc_TLSKey cfg \<noteq> ''''"
    "Load L B (se_load env) \<lparr>o_MinBalance = cc_MinBalance (with_defaults (se_token env) cfg), o_TSVPath = ''''\<rparr>
      fs1 act = (Inr sets, fs', act')"
    "s = setRunConfig etag ((NewServer F (with_defaults (se_token env) cfg) ui)\<lparr>sv_cachePath :=
      CachePath (cc_MinBalance (with_defaults (se_token env) cfg))\<rparr>)"
    "CacheETag fs' (CachePath (cc_MinBalance (with_defaults (se_token env) cfg))) = Inr etag"
    "tlsConfig (se_pemOk env) fs' (with_defaults (se_token env) cfg) = Inr tls"
proof -
  let ?cfg = "with_defaults (se_token env) cfg"
  let ?rep = "Some (UIReporter False (rt_seconds1 X)) :: ('bf, CoordTerm) Reporter option"
  let ?opts = "\<lparr>o_MinBalance = cc_MinBalance ?cfg, o_TSVPath = ''''\<rparr>"
  have keep: "cc_Insecure ?cfg = cc_Insecure cfg" "cc_TLSCert ?cfg = cc_TLSCert cfg" "cc_TLSKey ?cfg = cc_TLSKey cfg"
    by (simp_all add: with_defaults_def Let_def)
  obtain err1 fs1 ui1 where e: "EnsureTSV_reported ?rep X (se_clock env) (se_web env) (se_tsvStatFails env)
      (se_tsvFault env) (se_rmFails env) (se_tsvNow env) fs
      (coord_Section ''Funded data'' (NewCoordUI (se_tty env) (cc_Quiet ?cfg) (cc_NoColor ?cfg))) = ((err1, fs1), ui1)"
    by (metis prod.collapse)
  obtain r fs2 act2 ui2 where l: "Load_reported ?rep X (se_loadClock env) L B (se_load env) ?opts fs1 act ui1 =
      ((r, fs2, act2), ui2)"
    by (metis prod.collapse)
  have fs1: "fs1 = snd (EnsureTSV (se_web env) (se_tsvStatFails env) (se_tsvFault env) (se_rmFails env) (se_tsvNow env) fs)"
    using EnsureTSV_reported_fst e by (metis fst_conv snd_conv)
  have load: "Load L B (se_load env) ?opts fs1 act = (r, fs2, act2)"
    using Load_reported_fst l by (metis fst_conv)
  have guard: "cc_Insecure ?cfg \<or> cc_TLSCert ?cfg \<noteq> '''' \<and> cc_TLSKey ?cfg \<noteq> ''''" "cc_AuthToken ?cfg \<noteq> ''''"
    using assms by (auto simp: start_coordinator_def Let_def split: if_splits)
  have r: "r = Inr sets" "fs2 = fs'" "act2 = act'"
    and c: "\<exists>etag tls'. CacheETag fs' (CachePath (cc_MinBalance ?cfg)) = Inr etag \<and>
      tlsConfig (se_pemOk env) fs' ?cfg = Inr tls \<and>
      s = (setRunConfig etag ((NewServer F ?cfg ui2)\<lparr>sv_cachePath := CachePath (cc_MinBalance ?cfg)\<rparr>))
        \<lparr>sv_ui := LogListening (cc_Listen ?cfg) ui2\<rparr>"
    using assms guard
    by (auto simp: start_coordinator_def Let_def e l NewServer_def setRunConfig_def split: sum.splits)
  then obtain etag where etag: "CacheETag fs' (CachePath (cc_MinBalance ?cfg)) = Inr etag"
    "tlsConfig (se_pemOk env) fs' ?cfg = Inr tls"
    "s = setRunConfig etag ((NewServer F ?cfg (LogListening (cc_Listen ?cfg) ui2))\<lparr>sv_cachePath :=
      CachePath (cc_MinBalance ?cfg)\<rparr>)"
    by (auto simp: NewServer_def setRunConfig_def)
  show thesis
    by (rule that [OF fs1 guard(2) _ load [unfolded r] etag(3) etag(1,2)]) (use guard(1) keep in simp)
qed

lemma with_defaults_min: "cc_MinBalance (with_defaults t cfg) =
    (if cc_MinBalance cfg = 0 then DefaultMinBalanceSats else cc_MinBalance cfg)"
  by (simp add: with_defaults_def Let_def)

lemma server_setup [simp]:
  "sv_cfg (setRunConfig etag ((NewServer F cfg ui)\<lparr>sv_cachePath := p\<rparr>)) = cfg"
  "sv_cachePath (setRunConfig etag ((NewServer F cfg ui)\<lparr>sv_cachePath := p\<rparr>)) = p"
  "sv_runConfig (setRunConfig etag ((NewServer F cfg ui)\<lparr>sv_cachePath := p\<rparr>)) =
    \<lparr>rc_Formats = FormatList (cc_Formats cfg), rc_MinBalanceSats = cc_MinBalance cfg, rc_CacheETag = etag\<rparr>"
  by (simp_all add: setRunConfig_def NewServer_def)

section \<open>The cache it serves\<close>

lemma DecodeCache_header:
  "DecodeCache B d t m = Inr s \<Longrightarrow> \<exists>hdr. ParseCacheHeader d = Inr hdr \<and> h_Mtime hdr = t \<and> h_MinBalanceSats hdr = m"
  by (auto simp: DecodeCache_def bindR_def split: sum.splits if_splits)

text \<open>Whoever holds the bytes of a cache that decodes loads the index it holds.\<close>

lemma LoadFromCacheFile_decodes:
  assumes "DecodeCache B d t m = Inr s" "fs path = Some f" "f_data f = d"
  shows "LoadFromCacheFile B False fs path act = (Inr s, Some d)"
proof -
  obtain hdr where hdr: "ParseCacheHeader d = Inr hdr" "h_Mtime hdr = t" "h_MinBalanceSats hdr = m"
    using DecodeCache_header [OF assms(1)] by blast
  have "ReadCacheHeader fs path = Inr hdr" using assms(2,3) hdr(1) by (simp add: ReadCacheHeader_def os_ReadFile_def)
  moreover have "ReadCache B fs path t m = Inr s" using assms by (simp add: ReadCache_def os_ReadFile_def)
  ultimately show ?thesis
    using MmapLoad_eq [of B fs path t m act] hdr assms(2,3) by (simp add: LoadFromCacheFile_def)
qed

text \<open>A cache file that holds the tables \<open>p\<close>, with all filters, for the time \<open>t\<close> and the minimum \<open>m\<close>.\<close>

definition holds_index :: "'bf bloom_lib \<Rightarrow> 'bf Sets \<Rightarrow> int \<Rightarrow> u64 \<Rightarrow> u8 list \<Rightarrow> bool" where
  "holds_index B p t m d \<longleftrightarrow> (case DecodeCache B d t m of Inl e \<Rightarrow> False
     | Inr s \<Rightarrow> same_tables s p \<and> index_ok B s \<and> bloomsComplete s)"

lemma written_holds:
  assumes "same_tables s p" "index_ok B s" "bloomsComplete s" "tables_ok p" "MinBalanceSats p = m" "m \<noteq> 0"
    and "tables_fit p" "\<And>f. bloom_storable B (Some f)" "nano_ok t"
  shows "\<exists>f. snd (WriteCache B NoFault now (CachePath m, s, t) fs) (CachePath m) = Some f \<and>
    holds_index B p t m (f_data f)"
proof -
  have st: "storable B s" using storable_same assms by blast
  then obtain d where d: "encode_cache B s t = Inr d" using encode_cache_storable by blast
  have "effective_min s = m" using assms(1,5,6) by (simp add: effective_min_def same_tables_def)
  then have "DecodeCache B d t m = Inr (cached s)" using DecodeCache_encode [OF assms(9) st d] by simp
  moreover have "same_tables (cached s) p" "index_ok B (cached s)" "bloomsComplete (cached s)"
    using assms(1-6)
    by (simp_all add: same_tables_def cached_def effective_min_def index_ok_defs bloomsComplete_def)
  ultimately show ?thesis using d by (simp add: WriteCache_def Let_def holds_index_def)
qed

lemma Load_leaves_cache:
  assumes "bloom_lossless B" "\<And>f. bloom_storable B (Some f)"
    and tsv: "fs (load_path opts) = Some tsv" "nano_ok (f_mtime tsv)"
    and p: "parseTSV L (load_min opts) (bytes_chars (f_data tsv)) = Inr p" "tables_fit p"
    and faithful: "cache_faithful B p fs (f_mtime tsv) (load_min opts)"
    and nofault: "e_writeFault env = NoFault" "Load L B env opts fs act = (Inr s, fs', act')"
  shows "\<exists>f. fs' (CachePath (load_min opts)) = Some f \<and> holds_index B p (f_mtime tsv) (load_min opts) (f_data f)"
proof -
  let ?t = "f_mtime tsv" and ?m = "load_min opts" and ?env = "env\<lparr>e_tsvFault := TsvOk\<rparr>"
  note readable = Load_no_fault [OF nofault(2)]
  have pok: "tables_ok p" "MinBalanceSats p = ?m" "blooms_cover B p" using parse_ok [OF p(1)] by blast+
  note written = written_holds [OF _ _ _ pok(1,2) load_min_pos p(2) assms(2) tsv(2)]
  show ?thesis
  proof (cases "ReadCache B fs (CachePath ?m) ?t ?m")
    case (Inr s0)
    then have s0: "same_tables s0 p" "blooms_cover B s0" using faithful by (simp_all add: cache_faithful_def)
    then have e: "index_ok B (EnsureBlooms B s0)" "bloomsComplete (EnsureBlooms B s0)"
      using index_ok_Ensure [OF assms(1)] pok(1) same_tables_ok by blast+
    have fs': "fs' = (if bloomsComplete s0 then fs else snd (WriteCache B NoFault (e_now env)
        (CachePath ?m, EnsureBlooms B s0, ?t) fs))"
      using Load_cached [OF tsv(1) Inr, of L ?env act] nofault(1) readable by auto
    show ?thesis
    proof (cases "bloomsComplete s0")
      case True
      obtain f where f: "fs (CachePath ?m) = Some f" "DecodeCache B (f_data f) ?t ?m = Inr s0"
        using Inr by (auto simp: ReadCache_def os_ReadFile_def split: option.splits)
      moreover have "index_ok B s0" using s0 pok(1) same_tables_ok by (auto simp: index_ok_def)
      ultimately show ?thesis using True s0 fs' by (simp add: holds_index_def)
    next
      case False
      then show ?thesis using written [OF _ e] s0(1) fs' by simp
    qed
  next
    case (Inl err)
    let ?s = "EnsureBlooms B (Sets_Sort p)"
    have s: "same_tables ?s p" using same_tables_Sort [OF pok(1)] by simp
    have "blooms_cover B (Sets_Sort p)" "tables_ok (Sets_Sort p)"
      using pok by (simp_all add: Sort_tables_ok blooms_cover_def tables_ok_def)
    then have e: "index_ok B ?s" "bloomsComplete ?s" using index_ok_Ensure [OF assms(1)] by blast+
    have "fs' = snd (WriteCache B NoFault (e_now env) (CachePath ?m, ?s, ?t) fs)"
      using Load_parsed [OF tsv(1) Inl p(1), of ?env act] nofault(1) readable by auto
    then show ?thesis using written [OF s e] by simp
  qed
qed

lemma serve_cache:
  assumes "authorized (cc_AuthToken (sv_cfg (ap_server a))) r" "hr_Path r = ''/api/v1/cache''" "hr_Method r = MethodGet"
    and "fst (rateLimit N (cc_AllowCIDR (sv_cfg (ap_server a))) (qe_now env) (hr_ForwardedFor r) (hr_RemoteAddr r)
      (ap_cache a))"
    and "CacheETag (ap_fs a) (sv_cachePath (ap_server a)) = Inr etag" "ap_fs a (sv_cachePath (ap_server a)) = Some f"
    and "\<not> qe_openFails env" "\<not> qe_statFails env"
  shows "fst (serve N F J env r a) =
    (if hr_IfNoneMatch r = etag then writeHeader StatusNotModified
     else \<lparr>rs_Code = StatusOK, rs_Body = CacheBody etag (cc_MinBalance (sv_cfg (ap_server a)))
       (length (f_data f)) (f_data f)\<rparr>)"
proof -
  obtain rl where rl: "rateLimit N (cc_AllowCIDR (sv_cfg (ap_server a))) (qe_now env) (hr_ForwardedFor r)
      (hr_RemoteAddr r) (ap_cache a) = (True, rl)"
    using assms(4) by (metis prod.collapse)
  have p: "HasPrefix (hr_Path r) ''/api/v1/''" "TrimPrefix (hr_Path r) ''/api/v1'' = ''/cache''"
    "hr_Path r \<noteq> ''/health''"
    using assms(2) TrimPrefix_append [of "''/api/v1''" "''/cache''"] HasPrefix_append [of "''/api/v1/''" "''cache''"]
    by simp_all
  have "serve N F J env r a = api_routes N F J env r ''/cache'' a"
    using assms(1) p by (simp add: serve_def bearerAuth_cases authorized_def)
  also have "fst \<dots> = handleCache env r (ap_server a) (ap_fs a)"
    using rl by (simp add: api_routes_def Let_def)
  finally show ?thesis using assms(3,5-8) by (simp add: handleCache_def)
qed

text \<open>A guarded coordinator with a readable funded.tsv, no fault in writing the cache and no certificate
  authority to read starts.\<close>

lemma start_coordinator_works:
  fixes B :: "'bf bloom_lib"
  assumes "cc_AuthToken (with_defaults (se_token env) cfg) \<noteq> ''''"
    and "cc_Insecure cfg \<or> cc_TLSCert cfg \<noteq> '''' \<and> cc_TLSKey cfg \<noteq> ''''" "cc_MTLSCA cfg = ''''"
    and "fs1 = snd (EnsureTSV (se_web env) (se_tsvStatFails env) (se_tsvFault env) (se_rmFails env) (se_tsvNow env) fs)"
    and "m = cc_MinBalance (with_defaults (se_token env) cfg)"
    and "bloom_lossless B" "\<And>f. bloom_storable B (Some f)"
    and "fs1 DefaultTSVFile = Some tsv" "nano_ok (f_mtime tsv)"
    and "parseTSV L m (bytes_chars (f_data tsv)) = Inr p" "tables_fit p"
    and "cache_faithful B p fs1 (f_mtime tsv) m" "e_writeFault (se_load env) = NoFault"
      "e_tsvFault (se_load env) = TsvOk"
  shows "\<exists>s sets tls fs' act'. start_coordinator F X L B env cfg fs act = (Inr (s, sets, tls), fs', act')"
proof -
  let ?cfg = "with_defaults (se_token env) cfg"
  let ?opts = "\<lparr>o_MinBalance = cc_MinBalance ?cfg, o_TSVPath = ''''\<rparr>"
  have keep: "cc_Insecure ?cfg = cc_Insecure cfg" "cc_TLSCert ?cfg = cc_TLSCert cfg" "cc_TLSKey ?cfg = cc_TLSKey cfg"
    "cc_MTLSCA ?cfg = cc_MTLSCA cfg" by (simp_all add: with_defaults_def Let_def)
  have "m \<noteq> 0" unfolding assms(5) by (simp add: with_defaults_min DefaultMinBalanceSats_def)
  then have opts: "load_min ?opts = m" "load_path ?opts = DefaultTSVFile"
    unfolding assms(5) by (simp_all add: load_min_def load_path_def)
  obtain sets fs' act' where load: "Load L B (se_load env) ?opts fs1 act = (Inr sets, fs', act')"
    using Load_refines [OF assms(6,7), of fs1 ?opts tsv L p] assms(8-12,14) unfolding opts by metis
  obtain f where f: "fs' (CachePath m) = Some f" "holds_index B p (f_mtime tsv) m (f_data f)"
    using Load_leaves_cache [OF assms(6,7), of fs1 ?opts tsv L p, OF _ assms(9) _ assms(11)]
      assms(8,10,12,13) load unfolding opts by metis
  obtain si where si: "DecodeCache B (f_data f) (f_mtime tsv) m = Inr si"
    using f(2) by (auto simp: holds_index_def split: sum.splits)
  obtain hdr where "ParseCacheHeader (f_data f) = Inr hdr" using DecodeCache_header [OF si] by blast
  then obtain etag where "CacheETag fs' (CachePath m) = Inr etag"
    using f(1) by (simp add: CacheETag_def ReadCacheHeader_def os_ReadFile_def)
  then have e: "CacheETag fs' (CachePath (cc_MinBalance ?cfg)) = Inr etag" unfolding assms(5) .
  obtain tls where tls: "tlsConfig (se_pemOk env) fs' ?cfg = Inr tls"
    using assms(3) keep by (cases "cc_MTLSRequireClientCert ?cfg") (auto simp: tlsConfig_def)
  have guard: "\<not> (\<not> cc_Insecure ?cfg \<and> (cc_TLSCert ?cfg = '''' \<or> cc_TLSKey ?cfg = ''''))"
    using assms(2) keep by simp
  let ?rep = "Some (UIReporter False (rt_seconds1 X)) :: ('bf, CoordTerm) Reporter option"
  obtain err1 ui1 where ens: "EnsureTSV_reported ?rep X (se_clock env) (se_web env) (se_tsvStatFails env)
      (se_tsvFault env) (se_rmFails env) (se_tsvNow env) fs
      (coord_Section ''Funded data'' (NewCoordUI (se_tty env) (cc_Quiet ?cfg) (cc_NoColor ?cfg))) = ((err1, fs1), ui1)"
    unfolding assms(4) using EnsureTSV_reported_fst by (metis prod.collapse)
  obtain ui2 where l: "Load_reported ?rep X (se_loadClock env) L B (se_load env) ?opts fs1 act ui1 =
      ((Inr sets, fs', act'), ui2)"
    using Load_reported_fst load by (metis prod.collapse)
  show ?thesis
    unfolding start_coordinator_def Let_def if_not_P [OF guard] if_not_P [OF assms(1)]
    by (simp add: ens l e tls NewServer_def)
qed

section \<open>What a coordinator starts with\<close>

text \<open>A start with a funded.tsv that parses to \<open>p\<close>, and no fault in writing the cache.\<close>

definition start_writes ::
  "addr_lib \<Rightarrow> 'bf bloom_lib \<Rightarrow> start_env \<Rightarrow> fs \<Rightarrow> u64 \<Rightarrow> os_file \<Rightarrow> 'bf Sets \<Rightarrow> bool" where
  "start_writes L B env fs m tsv p \<longleftrightarrow>
     bloom_lossless B \<and> (\<forall>f. bloom_storable B (Some f)) \<and> fs DefaultTSVFile = Some tsv \<and> nano_ok (f_mtime tsv) \<and>
     parseTSV L m (bytes_chars (f_data tsv)) = Inr p \<and> tables_fit p \<and> cache_faithful B p fs (f_mtime tsv) m \<and>
     e_writeFault (se_load env) = NoFault"

lemma start_index:
  assumes "start_writes L B env fs m tsv p" "m \<noteq> 0"
    and load: "Load L B (se_load env) \<lparr>o_MinBalance = m, o_TSVPath = ''''\<rparr> fs act = (Inr s, fs', act')"
  shows "same_tables s p \<and> index_ok B s \<and> bloomsComplete s \<and>
    (\<exists>f. fs' (CachePath m) = Some f \<and> holds_index B p (f_mtime tsv) m (f_data f))"
proof -
  let ?opts = "\<lparr>o_MinBalance = m, o_TSVPath = ''''\<rparr>" and ?env = "(se_load env)\<lparr>e_tsvFault := TsvOk\<rparr>"
  have opts: "load_min ?opts = m" "load_path ?opts = DefaultTSVFile"
    using assms(2) by (simp_all add: load_min_def load_path_def)
  note w = assms(1) [unfolded start_writes_def]
  have "\<exists>f. fs' (CachePath m) = Some f \<and> holds_index B p (f_mtime tsv) m (f_data f)"
    using Load_leaves_cache [OF _ _ _ _ _ _ _ _ load, of tsv p] w unfolding opts by blast
  moreover have "same_tables s p \<and> index_ok B s \<and> bloomsComplete s"
    using Load_refines [of B fs ?opts tsv L p ?env act] w Load_no_fault [OF load] unfolding opts by fastforce
  ultimately show ?thesis by blast
qed

text \<open>C30. A coordinator only starts guarded and consistent: it has a token, it speaks TLS unless it was told
  to be insecure, a minimum balance of zero has become the default; its index is what \<open>Load\<close> gives for that minimum in the
  files after the update of funded.tsv, and the tag it announces to the workers is the tag of the cache file it serves, as
  \<open>Load\<close> left it. When that file could be written, the index and the cache file hold the tables of funded.tsv. It
  starts in a reachable state of the state machine, in the lobby.\<close>

theorem coordinator_starts_guarded:
  assumes "start_coordinator F X L B env cfg fs act = (Inr (s, sets, tls), fs', act')"
    and "m = rc_MinBalanceSats (sv_runConfig s)"
    and "fs1 = snd (EnsureTSV (se_web env) (se_tsvStatFails env) (se_tsvFault env) (se_rmFails env) (se_tsvNow env) fs)"
  shows "cc_AuthToken (sv_cfg s) \<noteq> '''' \<and>
    (cc_Insecure (sv_cfg s) \<or> cc_TLSCert (sv_cfg s) \<noteq> '''' \<and> cc_TLSKey (sv_cfg s) \<noteq> '''') \<and>
    m \<noteq> 0 \<and> sv_cachePath s = CachePath m \<and>
    Load L B (se_load env) \<lparr>o_MinBalance = m, o_TSVPath = ''''\<rparr> fs1 act = (Inr sets, fs', act') \<and>
    CacheETag fs' (sv_cachePath s) = Inr (rc_CacheETag (sv_runConfig s)) \<and>
    (\<forall>tsv p. start_writes L B env fs1 m tsv p \<longrightarrow> same_tables sets p \<and> index_ok B sets \<and> bloomsComplete sets \<and>
      (\<exists>f. fs' (sv_cachePath s) = Some f \<and> holds_index B p (f_mtime tsv) m (f_data f))) \<and>
    sv_runState s = StateLobby \<and> reachable F (sv_cfg s) (rc_CacheETag (sv_runConfig s)) (s, fs')"
  using assms(1)
proof (rule start_coordinator_Inr)
  let ?cfg = "with_defaults (se_token env) cfg"
  fix fs1' etag ui
  assume g: "cc_AuthToken ?cfg \<noteq> ''''" "cc_Insecure cfg \<or> cc_TLSCert cfg \<noteq> '''' \<and> cc_TLSKey cfg \<noteq> ''''"
    and fs1': "fs1' = snd (EnsureTSV (se_web env) (se_tsvStatFails env) (se_tsvFault env) (se_rmFails env) (se_tsvNow env) fs)"
    and load: "Load L B (se_load env) \<lparr>o_MinBalance = cc_MinBalance ?cfg, o_TSVPath = ''''\<rparr> fs1' act = (Inr sets, fs', act')"
    and s: "s = setRunConfig etag ((NewServer F ?cfg ui)\<lparr>sv_cachePath := CachePath (cc_MinBalance ?cfg)\<rparr>)"
    and e: "CacheETag fs' (CachePath (cc_MinBalance ?cfg)) = Inr etag"
  have keep: "cc_Insecure ?cfg = cc_Insecure cfg" "cc_TLSCert ?cfg = cc_TLSCert cfg" "cc_TLSKey ?cfg = cc_TLSKey cfg"
    by (simp_all add: with_defaults_def Let_def)
  have m: "m = cc_MinBalance ?cfg" "m \<noteq> 0" unfolding assms(2) s by (simp_all add: with_defaults_min DefaultMinBalanceSats_def)
  have load': "Load L B (se_load env) \<lparr>o_MinBalance = m, o_TSVPath = ''''\<rparr> fs1 act = (Inr sets, fs', act')"
    using load unfolding assms(3) fs1' m(1) .
  have "sv_runState s = StateLobby" unfolding s by (simp add: setRunConfig_def NewServer_def)
  moreover have "reachable F ?cfg etag (s, fs')" unfolding s by (rule reachable.init)
  moreover have "sv_cachePath s = CachePath m" "sv_cfg s = ?cfg" "rc_CacheETag (sv_runConfig s) = etag"
    unfolding s m(1) by simp_all
  ultimately show ?thesis using g e keep m(2) load' start_index [OF _ m(2) load'] unfolding m(1) by simp
qed

end
