(* ===== verification/Client.thy ===== *)
theory Client
  imports Coordinator
begin

text \<open>
  worker/client.go and worker/config.go: the worker's HTTP client with its retry loops, and the download of
  the cache through a temporary file. What a request meets is an argument: no answer, or a status with a body.
  A retry loop is driven by the list of its attempts; when the list is used up the loop is still running.
\<close>

section \<open>The client\<close>

record WorkerConfig =
  wc_CoordinatorURL :: string
  wc_AuthToken :: string
  wc_Threads :: int
  wc_TLSSkipVerify :: bool
  wc_TLSCA :: string
  wc_TLSCert :: string
  wc_TLSKey :: string
  wc_ProxyURL :: string
  wc_DialTimeout :: int
  wc_StatsInterval :: int
  wc_SimulateHit :: bool
  wc_SimulateHitAt :: int
  wc_Quiet :: bool
  wc_Verbose :: bool

definition second :: int where "second = 1000000000"

record Client =
  cl_base :: string
  cl_token :: string
  cl_timeout :: int
  cl_cacheTimeout :: int
  cl_skipVerify :: bool
  cl_rootCAs :: "u8 list option"
  cl_certificate :: bool
  cl_proxy :: "string option"
  cl_backoff :: int
  cl_verbose :: bool

datatype client_error = ClientCARead | ClientCAInvalid | ClientKeyPair | ClientProxyURL

text \<open>What the TLS and URL packages say: whether bytes hold a certificate, whether a key pair loads, whether
  a URL parses.\<close>

record client_lib =
  k_pemOk :: "u8 list \<Rightarrow> bool"
  k_keyPairOk :: "string \<Rightarrow> string \<Rightarrow> bool"
  k_urlOk :: "string \<Rightarrow> bool"

definition TrimRight :: "string \<Rightarrow> char \<Rightarrow> string" where
  "TrimRight s c = rev (dropWhile (\<lambda>x. x = c) (rev s))"

definition NewClient :: "client_lib \<Rightarrow> string \<Rightarrow> fs \<Rightarrow> WorkerConfig \<Rightarrow> client_error + Client" where
  "NewClient K envToken fs cfg =
     (let token = (if wc_AuthToken cfg = '''' then envToken else wc_AuthToken cfg);
          dial = (if wc_DialTimeout cfg = 0 then 30 * second else wc_DialTimeout cfg)
      in bindR (if wc_TLSCA cfg \<noteq> '''' then
                  (case fs (wc_TLSCA cfg) of
                     None \<Rightarrow> Inl ClientCARead
                   | Some f \<Rightarrow> if k_pemOk K (f_data f) then Inr (Some (f_data f)) else Inl ClientCAInvalid)
                else Inr None) (\<lambda>ca.
         bindR (if wc_TLSCert cfg \<noteq> '''' \<and> wc_TLSKey cfg \<noteq> '''' then
                  (if k_keyPairOk K (wc_TLSCert cfg) (wc_TLSKey cfg) then Inr True else Inl ClientKeyPair)
                else Inr False) (\<lambda>cert.
         bindR (if wc_ProxyURL cfg \<noteq> '''' then
                  (if k_urlOk K (wc_ProxyURL cfg) then Inr (Some (wc_ProxyURL cfg)) else Inl ClientProxyURL)
                else Inr None) (\<lambda>proxy.
           Inr \<lparr>cl_base = TrimRight (wc_CoordinatorURL cfg) (CHR ''/''), cl_token = token,
             cl_timeout = dial + 60 * second, cl_cacheTimeout = 45 * 60 * second,
             cl_skipVerify = wc_TLSSkipVerify cfg, cl_rootCAs = ca, cl_certificate = cert, cl_proxy = proxy,
             cl_backoff = second, cl_verbose = wc_Verbose cfg\<rparr>))))"

text \<open>The header that carries the token; a request without a token has none.\<close>

definition auth_header :: "string \<Rightarrow> string" where
  "auth_header token = (if token \<noteq> '''' then ''Bearer '' @ token else '''')"

section \<open>One request\<close>

text \<open>No answer (the request cannot be made or sent), or a status and what its body decodes to.\<close>

datatype 'r http_result = NoAnswer | Answer nat "'r option"

datatype try_error = RequestFailed | ServerError nat | BadBody | HttpError nat

definition tryJSON :: "bool \<Rightarrow> 'r http_result \<Rightarrow> try_error + nat \<times> 'r option" where
  "tryJSON wantBody res =
     (case res of
        NoAnswer \<Rightarrow> Inl RequestFailed
      | Answer code body \<Rightarrow>
          if code \<ge> 500 then Inl (ServerError code)
          else if wantBody \<and> code = StatusOK \<and> body = None then Inl BadBody
          else if code \<ge> 400 then Inl (HttpError code)
          else Inr (code, if wantBody \<and> code = StatusOK then body else None))"

section \<open>Retrying\<close>

text \<open>One turn of a retry loop: what the request meets, and whether the context has ended after it and while
  waiting for the next.\<close>

record 'a retry_turn =
  rt_result :: 'a
  rt_ended :: bool
  rt_endedWaiting :: bool

datatype 'v retried = Running | ContextEnded | Finished 'v

definition next_backoff :: "int \<Rightarrow> int" where
  "next_backoff b = (if b < 60 * second then b * 2 else b)"

text \<open>The result, the client's backoff after it and the times waited. A wait that the context ends is
  not counted.\<close>

fun doJSON :: "bool \<Rightarrow> 'r http_result retry_turn list \<Rightarrow> int \<Rightarrow> (nat \<times> 'r option) retried \<times> int \<times> int list" where
  "doJSON wantBody [] backoff = (Running, backoff, [])"
| "doJSON wantBody (t # ts) backoff =
     (case tryJSON wantBody (rt_result t) of
        Inr v \<Rightarrow> (Finished v, second, [])
      | Inl err \<Rightarrow>
          if rt_ended t then (ContextEnded, backoff, [])
          else if rt_endedWaiting t then (ContextEnded, backoff, [])
          else
            (case doJSON wantBody ts (next_backoff backoff) of
               (r, b, waits) \<Rightarrow> (r, b, backoff # waits)))"

section \<open>Downloading the cache\<close>

text \<open>The answer to the download: a status, the \<open>ETag\<close> header, and the bytes of the body with whether
  reading them ends in an error.\<close>

datatype cache_result = CacheNoAnswer | CacheAnswer nat string "u8 list" bool

datatype sync_error = SyncRequestFailed | SyncStatus nat | SyncCreate | SyncCopy | SyncClose | SyncRename

text \<open>The file half: create the temporary file, copy, close, rename. A failed rename leaves the temporary file.\<close>

definition save_cache ::
  "io_fault \<Rightarrow> int \<Rightarrow> string \<times> u8 list \<times> bool \<Rightarrow> fs \<Rightarrow> sync_error option \<times> fs" where
  "save_cache fault now job fs =
     (case job of (destPath, body, readFails) \<Rightarrow>
        let tmp = tmp_path destPath in
        if fault = CreateFails then (Some SyncCreate, fs)
        else if readFails \<or> fault = WriteFails then (Some SyncCopy, fs(tmp := None))
        else if fault = CloseFails then (Some SyncClose, fs(tmp := None))
        else
          (let written = \<lparr>f_data = body, f_mtime = now\<rparr> in
           if fault = RenameFails then (Some SyncRename, fs(tmp \<mapsto> written))
           else (None, fs(tmp := None, destPath \<mapsto> written))))"

definition saved_content :: "string \<times> u8 list \<times> bool \<Rightarrow> u8 list option" where
  "saved_content job = (case job of (destPath, body, readFails) \<Rightarrow> if readFails then None else Some body)"

interpretation sync_writer: atomic_writer saved_content fst save_cache
proof
  fix fault now r fs fs' p and e and job :: "string \<times> u8 list \<times> bool"
  obtain path d bad where j: "job = (path, d, bad)" by (rule prod_cases3)
  note d = save_cache_def saved_content_def Let_def j
  show "save_cache fault now job fs = (None, fs') \<Longrightarrow>
      \<exists>d. saved_content job = Some d \<and> fs' (fst job) = Some \<lparr>f_data = d, f_mtime = now\<rparr>"
    by (auto simp: d split: if_splits)
  show "save_cache fault now job fs = (Some e, fs') \<Longrightarrow> fs' (fst job) = fs (fst job)"
    by (auto simp: d split: if_splits)
  show "save_cache fault now job fs = (r, fs') \<Longrightarrow> p \<noteq> fst job \<Longrightarrow> p \<noteq> tmp_path (fst job) \<Longrightarrow> fs' p = fs p"
    by (auto simp: d split: if_splits)
  show "saved_content job \<noteq> None \<Longrightarrow> fst (save_cache NoFault now job fs) = None"
    by (auto simp: d split: if_splits)
qed

text \<open>The new tag, or the error.\<close>

definition tryDownloadCache ::
  "io_fault \<Rightarrow> int \<Rightarrow> string \<Rightarrow> string \<Rightarrow> cache_result \<Rightarrow> fs \<Rightarrow> (sync_error + string) \<times> fs" where
  "tryDownloadCache fault now destPath etag res fs =
     (case res of
        CacheNoAnswer \<Rightarrow> (Inl SyncRequestFailed, fs)
      | CacheAnswer code newETag body readFails \<Rightarrow>
          if code = StatusNotModified then (Inr etag, fs)
          else if code \<noteq> StatusOK then (Inl (SyncStatus code), fs)
          else
            (case save_cache fault now (destPath, body, readFails) fs of
               (Some e, fs) \<Rightarrow> (Inl e, fs)
             | (None, fs) \<Rightarrow> (Inr newETag, fs)))"

record sync_env =
  sy_fault :: io_fault
  sy_now :: int
  sy_answer :: cache_result

fun DownloadCache ::
  "string \<Rightarrow> string \<Rightarrow> sync_env retry_turn list \<Rightarrow> int \<Rightarrow> fs \<Rightarrow> string retried \<times> int \<times> int list \<times> fs" where
  "DownloadCache destPath etag [] backoff fs = (Running, backoff, [], fs)"
| "DownloadCache destPath etag (t # ts) backoff fs =
     (case tryDownloadCache (sy_fault (rt_result t)) (sy_now (rt_result t)) destPath etag (sy_answer (rt_result t)) fs of
        (Inr newETag, fs) \<Rightarrow> (Finished newETag, second, [], fs)
      | (Inl err, fs) \<Rightarrow>
          if rt_ended t then (ContextEnded, backoff, [], fs)
          else if rt_endedWaiting t then (ContextEnded, backoff, [], fs)
          else
            (case DownloadCache destPath etag ts (next_backoff backoff) fs of
               (r, b, waits, fs) \<Rightarrow> (r, b, backoff # waits, fs)))"

section \<open>Retry loops\<close>

lemma next_backoff_power: "(next_backoff ^^ i) second = second * 2 ^ min i 6"
proof (induction i)
  case (Suc i)
  show ?case
  proof (cases "i < 6")
    case True
    then have "i \<in> set [0, 1, 2, 3, 4, 5]" by auto
    then show ?thesis using Suc by (auto simp: next_backoff_def second_def)
  next
    case False
    then show ?thesis using Suc by (simp add: next_backoff_def second_def min_def)
  qed
qed simp

definition fails_on :: "('a \<Rightarrow> bool) \<Rightarrow> 'a retry_turn \<Rightarrow> bool" where
  "fails_on bad t \<longleftrightarrow> bad (rt_result t) \<and> \<not> rt_ended t \<and> \<not> rt_endedWaiting t"

lemma doJSON_failures:
  "list_all (fails_on (\<lambda>r. isl (tryJSON w r))) ts \<Longrightarrow>
    doJSON w (ts @ us) b =
      (case doJSON w us ((next_backoff ^^ length ts) b) of
         (r, b', waits) \<Rightarrow> (r, b', map (\<lambda>i. (next_backoff ^^ i) b) [0..<length ts] @ waits))"
proof (induction ts arbitrary: b)
  case (Cons t ts)
  obtain e where e: "tryJSON w (rt_result t) = Inl e" "\<not> rt_ended t" "\<not> rt_endedWaiting t"
    using Cons.prems by (auto simp: fails_on_def isl_def)
  have shift: "map (\<lambda>i. (next_backoff ^^ i) b) [0..<Suc (length ts)] =
      b # map (\<lambda>i. (next_backoff ^^ i) (next_backoff b)) [0..<length ts]"
    unfolding map_upt_Suc by (simp add: funpow_swap1)
  have "(next_backoff ^^ length ts) (next_backoff b) = (next_backoff ^^ Suc (length ts)) b"
    by (simp add: funpow_swap1)
  then show ?case
    using Cons.IH [of "next_backoff b"] Cons.prems e shift by (simp split: prod.split)
qed simp

text \<open>C32. A request is repeated until it succeeds: while the context lives, a request whose first \<open>k\<close> attempts
  fail and whose next one succeeds returns that answer, after waiting 1, 2, 4, 8, 16, 32 and from then on 64
  seconds between the attempts, and the next request starts with one second again.\<close>

theorem doJSON_retries:
  assumes "list_all (fails_on (\<lambda>r. isl (tryJSON w r))) ts" "tryJSON w (rt_result t) = Inr v"
  shows "doJSON w (ts @ t # us) second =
    (Finished v, second, map (\<lambda>i. second * 2 ^ min i 6) [0..<length ts])"
  using doJSON_failures [OF assms(1), of "t # us" second] assms(2) by (simp add: next_backoff_power)

text \<open>A request that fails for good is never given up.\<close>

lemma doJSON_stuck:
  assumes "list_all (fails_on (\<lambda>r. isl (tryJSON w r))) ts"
  shows "fst (doJSON w ts b) = Running"
  using doJSON_failures [OF assms, of "[]" b] by simp

section \<open>The downloaded file\<close>

lemma tryDownloadCache_outcome:
  assumes "tryDownloadCache fault now path etag res fs = (r, fs')"
  shows "(case r of
      Inl e \<Rightarrow> fs' path = fs path
    | Inr etag' \<Rightarrow> (etag' = etag \<and> fs' = fs \<and> (\<exists>h b f. res = CacheAnswer StatusNotModified h b f)) \<or>
        (\<exists>body. res = CacheAnswer StatusOK etag' body False \<and> fs' path = Some \<lparr>f_data = body, f_mtime = now\<rparr>)) \<and>
    (\<forall>p. p \<noteq> path \<and> p \<noteq> tmp_path path \<longrightarrow> fs' p = fs p)"
proof (cases res)
  case CacheNoAnswer
  then show ?thesis using assms by (auto simp: tryDownloadCache_def)
next
  case (CacheAnswer code h body bad)
  show ?thesis
  proof (cases "code = StatusOK")
    case False
    then show ?thesis using assms CacheAnswer by (auto simp: tryDownloadCache_def split: if_splits)
  next
    case True
    obtain e fs1 where s: "save_cache fault now (path, body, bad) fs = (e, fs1)" by (rule prod.exhaust)
    have frame: "p \<noteq> path \<and> p \<noteq> tmp_path path \<Longrightarrow> fs1 p = fs p" for p
      using sync_writer.frame [OF s, of p] by simp
    show ?thesis
    proof (cases e)
      case None
      then have "bad = False \<and> fs1 path = Some \<lparr>f_data = body, f_mtime = now\<rparr>"
        using sync_writer.success [of fault now "(path, body, bad)" fs fs1] s
        by (auto simp: saved_content_def split: if_splits)
      then show ?thesis
        using assms CacheAnswer True s None frame
        by (auto simp: tryDownloadCache_def status_defs)
    next
      case (Some x)
      then have "fs1 path = fs path"
        using sync_writer.failure [of fault now "(path, body, bad)" fs x fs1] s by simp
      then show ?thesis
        using assms CacheAnswer True s Some frame by (auto simp: tryDownloadCache_def status_defs)
    qed
  qed
qed

lemma DownloadCache_outcome:
  assumes "DownloadCache path etag ts b fs = (r, b', waits, fs')"
  shows "(case r of
      Finished etag' \<Rightarrow> (etag' = etag \<and> fs' path = fs path) \<or>
        (\<exists>t \<in> set ts. \<exists>body. sy_answer (rt_result t) = CacheAnswer StatusOK etag' body False \<and>
          fs' path = Some \<lparr>f_data = body, f_mtime = sy_now (rt_result t)\<rparr>)
    | _ \<Rightarrow> fs' path = fs path) \<and>
    (\<forall>p. p \<noteq> path \<and> p \<noteq> tmp_path path \<longrightarrow> fs' p = fs p)"
  using assms
proof (induction ts arbitrary: b fs r b' waits)
  case (Cons t ts)
  obtain x fs1 where x: "tryDownloadCache (sy_fault (rt_result t)) (sy_now (rt_result t)) path etag
      (sy_answer (rt_result t)) fs = (x, fs1)" by (rule prod.exhaust)
  note o1 = tryDownloadCache_outcome [OF x]
  show ?case
  proof (cases x)
    case (Inr etag')
    then have "r = Finished etag'" "fs' = fs1" using Cons.prems x by auto
    then show ?thesis using o1 Inr by auto
  next
    case (Inl e)
    then have keep: "fs1 path = fs path" "\<forall>p. p \<noteq> path \<and> p \<noteq> tmp_path path \<longrightarrow> fs1 p = fs p" using o1 by auto
    show ?thesis
    proof (cases "rt_ended t \<or> rt_endedWaiting t")
      case True
      then have "r = ContextEnded" "fs' = fs1" using Cons.prems x Inl by (auto split: if_splits)
      then show ?thesis using keep by simp
    next
      case False
      obtain r1 b1 w1 fs2 where d: "DownloadCache path etag ts (next_backoff b) fs1 = (r1, b1, w1, fs2)"
        by (rule prod_cases4)
      then have "r = r1" "fs' = fs2" using Cons.prems x Inl False by auto
      then show ?thesis
        using Cons.IH [of "next_backoff b" fs1 r1 b1 w1] d keep by (auto split: retried.splits)
    qed
  qed
qed simp

text \<open>C34. However many attempts it takes and wherever each fails, downloading leaves at the destination what
  was there, or the whole body of an answer the coordinator gave in full together with its tag; it touches no
  file but the destination and its temporary file, and until it finishes the destination is unchanged.\<close>

theorem DownloadCache_safe:
  assumes "DownloadCache path etag ts b fs = (r, b', waits, fs')"
  shows "(case r of
      Finished etag' \<Rightarrow> (etag' = etag \<and> fs' path = fs path) \<or>
        (\<exists>t \<in> set ts. \<exists>body. sy_answer (rt_result t) = CacheAnswer StatusOK etag' body False \<and>
          fs' path = Some \<lparr>f_data = body, f_mtime = sy_now (rt_result t)\<rparr>)
    | _ \<Rightarrow> fs' path = fs path) \<and>
    (\<forall>p. p \<noteq> path \<and> p \<noteq> tmp_path path \<longrightarrow> fs' p = fs p)"
  by (rule DownloadCache_outcome [OF assms])

section \<open>Witnesses\<close>

definition sample_turn :: "'a \<Rightarrow> 'a retry_turn" where
  "sample_turn x = \<lparr>rt_result = x, rt_ended = False, rt_endedWaiting = False\<rparr>"

theorem doJSON_retries_witness:
  "doJSON True ([sample_turn (Answer 500 None), sample_turn NoAnswer] @ sample_turn (Answer 200 (Some ())) # []) second =
    (Finished (200, Some ()), second, map (\<lambda>i. second * 2 ^ min i 6) [0..<2])"
  using doJSON_retries [of True "[sample_turn (Answer 500 None), sample_turn NoAnswer]"
      "sample_turn (Answer 200 (Some ()))" "(200, Some ())" "[]"]
  by (simp add: fails_on_def sample_turn_def tryJSON_def StatusOK_def numeral_2_eq_2)

theorem DownloadCache_safe_witness:
  "\<exists>b waits fs'. DownloadCache ''funded.cache'' ''''
      [sample_turn \<lparr>sy_fault = WriteFails, sy_now = 1, sy_answer = CacheAnswer StatusOK ''t'' [1] False\<rparr>,
       sample_turn \<lparr>sy_fault = NoFault, sy_now = 2, sy_answer = CacheAnswer StatusOK ''t'' [1] False\<rparr>]
      second Map.empty = (Finished ''t'', b, waits, fs') \<and>
    (\<exists>now. fs' ''funded.cache'' = Some \<lparr>f_data = [1], f_mtime = now\<rparr>)"
proof -
  let ?ts = "[sample_turn \<lparr>sy_fault = WriteFails, sy_now = 1, sy_answer = CacheAnswer StatusOK ''t'' [1] False\<rparr>,
       sample_turn \<lparr>sy_fault = NoFault, sy_now = 2, sy_answer = CacheAnswer StatusOK ''t'' [1] False\<rparr>]"
  obtain b waits fs' where d: "DownloadCache ''funded.cache'' '''' ?ts second Map.empty = (Finished ''t'', b, waits, fs')"
    by (simp add: sample_turn_def tryDownloadCache_def save_cache_def status_defs Let_def)
  show ?thesis
    using DownloadCache_safe [OF d] d by (auto simp: sample_turn_def)
qed

end
