(* ===== verification/Worker.thy ===== *)
theory Worker
  imports Client Session
begin

text \<open>
  worker/run.go: a worker registers, brings its cache up to date, waits for the coordinator and searches. The
  random wallets, the clock and the answers of the coordinator are arguments. The goroutines are modelled by
  what they share with the search: the counters of the progress hook and of the statistics ticker.
\<close>

section \<open>Counting keys\<close>

record worker_stats =
  ws_lastTotal :: u64
  ws_runKeys :: u64
  ws_sinceReport :: u64

definition zero_worker_stats :: worker_stats where
  "zero_worker_stats = \<lparr>ws_lastTotal = 0, ws_runKeys = 0, ws_sinceReport = 0\<rparr>"

text \<open>The progress hook.\<close>

definition count_progress :: "u64 \<Rightarrow> worker_stats \<Rightarrow> worker_stats" where
  "count_progress totalKeys ws =
     (let delta = totalKeys - ws_lastTotal ws
      in ws\<lparr>ws_lastTotal := totalKeys, ws_runKeys := ws_runKeys ws + delta,
           ws_sinceReport := ws_sinceReport ws + delta\<rparr>)"

text \<open>One report: the ticker's, and the last one when the search has ended. \<open>elapsed\<close> is in nanoseconds,
  \<open>rate\<close> the floating-point quotient.\<close>

definition make_report ::
  "'f \<Rightarrow> (u64 \<Rightarrow> int \<Rightarrow> 'f) \<Rightarrow> string \<Rightarrow> int \<Rightarrow> worker_stats \<Rightarrow> 'f StatsRequest \<times> worker_stats" where
  "make_report zero rate workerID elapsed ws =
     (let delta = ws_sinceReport ws;
          kps = (if elapsed > 0 then rate (ws_runKeys ws) elapsed else zero)
      in (\<lparr>sq_WorkerID = workerID, sq_KeysTriedDelta = delta, sq_KeysPerSecond = kps,
           sq_RunKeysTried = ws_runKeys ws\<rparr>, ws\<lparr>ws_sinceReport := 0\<rparr>))"

text \<open>The hook and the ticker in any order; the reports in the order they are made, each with whether it was delivered: the
  post of the ticker's report may fail, when the search ends, and its error is ignored after the count was reset.\<close>

datatype stats_event = EvProgress u64 | EvTick int bool

fun stats_events ::
  "'f \<Rightarrow> (u64 \<Rightarrow> int \<Rightarrow> 'f) \<Rightarrow> string \<Rightarrow> stats_event list \<Rightarrow> worker_stats \<Rightarrow>
     ('f StatsRequest \<times> bool) list \<times> worker_stats" where
  "stats_events zero rate workerID [] ws = ([], ws)"
| "stats_events zero rate workerID (EvProgress n # evs) ws =
     stats_events zero rate workerID evs (count_progress n ws)"
| "stats_events zero rate workerID (EvTick elapsed delivered # evs) ws =
     (case make_report zero rate workerID elapsed ws of
        (req, ws) \<Rightarrow>
          (case stats_events zero rate workerID evs ws of (posts, ws) \<Rightarrow> ((req, delivered) # posts, ws)))"

section \<open>One search\<close>

text \<open>\<open>encodeWIF\<close> is the compressed main-net WIF of the wallet package.\<close>

definition hit_request :: "addr_lib \<Rightarrow> (u8 list \<Rightarrow> string) \<Rightarrow> string \<Rightarrow> HitEvent \<Rightarrow> HitRequest" where
  "hit_request L encodeWIF workerID ev =
     \<lparr>hq_WorkerID = workerID,
      hq_Address = EncodeMatchAddress L (ev_Kind ev) (Keys (ev_Wallet ev)),
      hq_WIF = encodeWIF (PrivKey (ev_Wallet ev)),
      hq_Format = MatchKindName (ev_Kind ev),
      hq_BalanceSats = ev_BalanceSats ev,
      hq_KeyIndex = ev_KeyIndex ev\<rparr>"

definition worker_search_config :: "WorkerConfig \<Rightarrow> int \<Rightarrow> FormatMask \<Rightarrow> Config" where
  "worker_search_config cfg threads formats =
     \<lparr>cfg_Threads = threads, cfg_Formats = formats, cfg_NumKeys = 0, cfg_SessionBase = 0, cfg_Forever = True,
      cfg_MaxKeys = 0, cfg_CheckpointInterval = 0, cfg_SimulateHit = wc_SimulateHit cfg,
      cfg_SimulateHitAt = word_of_int (wc_SimulateHitAt cfg), cfg_VerifyLookup = False,
      cfg_InjectIndexHit = '''', cfg_ResetSession = False\<rparr>"

text \<open>The hooks of a worker's search: the progress counter, and the hit that is posted until it is taken. The
  post fails only when the context ends first, which \<open>posted\<close> says of each hit.\<close>

definition worker_hooks ::
  "addr_lib \<Rightarrow> (u8 list \<Rightarrow> string) \<Rightarrow> string \<Rightarrow> (HitRequest \<Rightarrow> bool) \<Rightarrow>
     ('f, worker_stats \<times> HitRequest list) Hooks" where
  "worker_hooks L encodeWIF workerID posted =
     \<lparr>OnProgress = None,
      OnForeverProgress = Some (\<lambda>totalKeys elapsed hits (ws, posts). (count_progress totalKeys ws, posts)),
      OnSummary = None,
      OnHit = Some (\<lambda>ev (ws, posts).
        let req = hit_request L encodeWIF workerID ev in
        if posted req then (None, ws, posts @ [req]) else (Some ContextDone, ws, posts)),
      OnInjectLog = None, OnLookupVerify = None\<rparr>"

text \<open>What a search leaves: the last report, the hits posted, whether it failed, and the files. A search that
  the context ended has not failed.\<close>

definition searchUntilStop ::
  "addr_lib \<Rightarrow> 'bf bloom_lib \<Rightarrow> 'f session_lib \<Rightarrow> (u8 list \<Rightarrow> string) \<Rightarrow> (HitRequest \<Rightarrow> bool) \<Rightarrow> renv \<Rightarrow> fend \<Rightarrow>
     WorkerConfig \<Rightarrow> string \<Rightarrow> int \<Rightarrow> 'bf Sets \<Rightarrow> FormatMask \<Rightarrow> fturn list \<Rightarrow> int \<Rightarrow> fs \<Rightarrow>
     ('f StatsRequest \<times> HitRequest list \<times> search_error option \<times> fs) option" where
  "searchUntilStop L B J encodeWIF posted env fe cfg workerID threads sets formats turns elapsed fs =
     (case Run L B J (\<lambda>_ _. fl_zero J) env fe (worker_search_config cfg threads formats) sets
         (worker_hooks L encodeWIF workerID posted) [] turns (zero_worker_stats, []) fs of
        None \<Rightarrow> None
      | Some (stats, err, (ws, posts), fs) \<Rightarrow>
          Some (fst (make_report (fl_zero J) (fl_rate J) workerID elapsed ws), posts,
            if err = Some ContextDone then None else err, fs))"

text \<open>The last report of a search and the heartbeat after it. Both run under \<open>context.Background\<close>, which never ends.\<close>

definition background :: "'r http_result list \<Rightarrow> 'r http_result retry_turn list" where
  "background = map (\<lambda>r. \<lparr>rt_result = r, rt_ended = False, rt_endedWaiting = False\<rparr>)"

definition finish_search :: "unit http_result list \<Rightarrow> unit http_result list \<Rightarrow> int \<Rightarrow> (nat \<times> unit option) retried" where
  "finish_search reports beats backoff =
     (case doJSON False (background reports) backoff of
        (Finished v, b, waits) \<Rightarrow> fst (doJSON False (background beats) b)
      | (r, b, waits) \<Rightarrow> r)"

section \<open>A session\<close>

text \<open>One turn of the session loop: whether the context has ended, the coordinator's answers to the status
  request and to the heartbeat, the attempts of a new download, and how the search ends.\<close>

record session_turn =
  tn_ended :: bool
  tn_status :: "RunResponse retried"
  tn_beat :: "unit retried"
  tn_sync :: "sync_env retry_turn list"
  tn_mmapFails :: bool
  tn_search :: "search_error option retried"

datatype session_error =
    SessionContext | SessionRejected | SessionSync | SessionCache cache_error | SessionFormats format_error
  | SessionSearch search_error

datatype session_end = StillRunning | SessionError session_error | SessionOver

record 'bf session_state =
  ss_tag :: string
  ss_sets :: "'bf Sets"
  ss_backoff :: int
  ss_map :: mapping
  ss_fs :: fs

text \<open>The index in memory is replaced when the coordinator announces another tag.\<close>

definition resync ::
  "'bf bloom_lib \<Rightarrow> string \<Rightarrow> session_turn \<Rightarrow> string \<Rightarrow> 'bf session_state \<Rightarrow> session_end + 'bf session_state" where
  "resync B cachePath t announced st =
     (if announced \<noteq> '''' \<and> announced \<noteq> ss_tag st then
        (case DownloadCache cachePath (ss_tag st) (tn_sync t) (ss_backoff st) (ss_fs st) of
           (Running, b, waits, fs) \<Rightarrow> Inl StillRunning
         | (ContextEnded, b, waits, fs) \<Rightarrow> Inl (SessionError SessionContext)
         | (Finished tag, b, waits, fs) \<Rightarrow>
             (case LoadFromCacheFile B (tn_mmapFails t) fs cachePath (UnmapActive (ss_map st)) of
                (Inl e, act) \<Rightarrow> Inl (SessionError (SessionCache e))
              | (Inr sets, act) \<Rightarrow>
                  Inr \<lparr>ss_tag = tag, ss_sets = sets, ss_backoff = b, ss_map = act, ss_fs = fs\<rparr>))
      else Inr st)"

text \<open>The loop, with the index and the formats of every search it starts.\<close>

fun session_loop ::
  "'bf bloom_lib \<Rightarrow> string \<Rightarrow> session_turn list \<Rightarrow> 'bf session_state \<Rightarrow>
     session_end \<times> ('bf session_state \<times> FormatMask) list" where
  "session_loop B cachePath [] st = (StillRunning, [])"
| "session_loop B cachePath (t # ts) st =
     (if tn_ended t then (SessionError SessionContext, [])
      else
        (case tn_status t of
           Running \<Rightarrow> (StillRunning, [])
         | ContextEnded \<Rightarrow> (SessionError SessionContext, [])
         | Finished status \<Rightarrow>
             if rr_State status = StateLobby then
               (if tn_beat t = Running then (StillRunning, []) else session_loop B cachePath ts st)
             else if rr_State status = StateRunning then
               (case resync B cachePath t (rc_CacheETag (rr_Config status)) st of
                  Inl r \<Rightarrow> (r, [])
                | Inr st \<Rightarrow>
                    (case ParseFormatList (rc_Formats (rr_Config status)) of
                       Inl e \<Rightarrow> (SessionError (SessionFormats e), [])
                     | Inr formats \<Rightarrow>
                         if tn_beat t = Running then (StillRunning, [])
                         else
                           (case tn_search t of
                              Running \<Rightarrow> (StillRunning, [(st, formats)])
                            | ContextEnded \<Rightarrow> (SessionError SessionContext, [(st, formats)])
                            | Finished (Some e) \<Rightarrow> (SessionError (SessionSearch e), [(st, formats)])
                            | Finished None \<Rightarrow>
                                (case session_loop B cachePath ts st of
                                   (r, searches) \<Rightarrow> (r, (st, formats) # searches)))))
             else if rr_State status = StateStopping \<or> rr_State status = StateEnded then
               (if tn_beat t = Running then (StillRunning, []) else (SessionOver, []))
             else session_loop B cachePath ts st))"

definition cache_min :: "RunConfig \<Rightarrow> u64" where
  "cache_min cfg = (if rc_MinBalanceSats cfg = 0 then DefaultMinBalanceSats else rc_MinBalanceSats cfg)"

definition local_tag :: "fs \<Rightarrow> string \<Rightarrow> string" where
  "local_tag fs path = (case CacheETag fs path of Inl e \<Rightarrow> '''' | Inr tag \<Rightarrow> tag)"

definition runSession ::
  "'bf bloom_lib \<Rightarrow> RegisterResponse retried \<Rightarrow> sync_env retry_turn list \<Rightarrow> bool \<Rightarrow> session_turn list \<Rightarrow> int \<Rightarrow>
     fs \<Rightarrow> mapping \<Rightarrow> session_end \<times> ('bf session_state \<times> FormatMask) list" where
  "runSession B reg sync mmapFails turns backoff fs act =
     (case reg of
        Running \<Rightarrow> (StillRunning, [])
      | ContextEnded \<Rightarrow> (SessionError SessionContext, [])
      | Finished resp \<Rightarrow>
          if rp_WorkerID resp = '''' then (SessionError SessionRejected, [])
          else
            (let cachePath = CachePath (cache_min (rp_Config resp)) in
             case DownloadCache cachePath (local_tag fs cachePath) sync backoff fs of
               (Running, b, waits, fs) \<Rightarrow> (StillRunning, [])
             | (ContextEnded, b, waits, fs) \<Rightarrow> (SessionError SessionSync, [])
             | (Finished tag, b, waits, fs) \<Rightarrow>
                 (case LoadFromCacheFile B mmapFails fs cachePath act of
                    (Inl e, act) \<Rightarrow> (SessionError (SessionCache e), [])
                  | (Inr sets, act) \<Rightarrow>
                      session_loop B cachePath turns
                        \<lparr>ss_tag = tag, ss_sets = sets, ss_backoff = b, ss_map = act, ss_fs = fs\<rparr>)))"

section \<open>The keys a worker reports\<close>

text \<open>The deltas of the reports that were delivered, or lost.\<close>

definition deltas :: "bool \<Rightarrow> ('f StatsRequest \<times> bool) list \<Rightarrow> u64" where
  "deltas delivered posts = sum_list (map (sq_KeysTriedDelta \<circ> fst) (filter (\<lambda>p. snd p = delivered) posts))"

lemma deltas_all: "deltas True posts + deltas False posts = sum_list (map (sq_KeysTriedDelta \<circ> fst) posts)"
  by (induction posts) (auto simp: deltas_def algebra_simps)

lemma stats_events_sum:
  assumes "stats_events zero rate w evs ws = (posts, ws')"
  shows "sum_list (map (sq_KeysTriedDelta \<circ> fst) posts) + ws_sinceReport ws' =
      ws_sinceReport ws + (ws_lastTotal ws' - ws_lastTotal ws) \<and>
    ws_runKeys ws' = ws_runKeys ws + (ws_lastTotal ws' - ws_lastTotal ws)"
  using assms
proof (induction evs arbitrary: ws posts)
  case (Cons ev evs)
  show ?case
  proof (cases ev)
    case (EvProgress n)
    then show ?thesis using Cons.IH [of "count_progress n ws" posts] Cons.prems
      by (simp add: count_progress_def Let_def algebra_simps)
  next
    case (EvTick e d)
    obtain req ws1 where m: "make_report zero rate w e ws = (req, ws1)" by (rule prod.exhaust)
    obtain posts1 ws2 where s: "stats_events zero rate w evs ws1 = (posts1, ws2)" by (rule prod.exhaust)
    have "posts = (req, d) # posts1" "ws' = ws2" using Cons.prems(1) EvTick m s by auto
    then show ?thesis using Cons.IH [of ws1 posts1] m s
      by (auto simp: make_report_def Let_def algebra_simps)
  qed
qed simp

fun last_progress :: "stats_event list \<Rightarrow> u64 \<Rightarrow> u64" where
  "last_progress [] n = n"
| "last_progress (EvProgress m # evs) n = last_progress evs m"
| "last_progress (EvTick e d # evs) n = last_progress evs n"

lemma stats_events_last:
  "stats_events zero rate w evs ws = (posts, ws') \<Longrightarrow> ws_lastTotal ws' = last_progress evs (ws_lastTotal ws)"
proof (induction evs arbitrary: ws posts)
  case (Cons ev evs)
  then show ?case
    by (cases ev) (fastforce simp: count_progress_def make_report_def Let_def split: prod.splits)+
qed simp

text \<open>C37. The reports of one search add up: whenever the ticker fires between the progress calls, the deltas of the
  reports made, the last report included, sum to the last total the search announced, and the last report carries that
  total as the worker's run keys. What the coordinator is told is therefore that total less the deltas of the
  reports whose post failed, which nothing makes up for. The total announced is that of the session file, so it counts
  the keys of earlier runs again.\<close>

theorem worker_reports_total:
  assumes "stats_events zero rate w evs zero_worker_stats = (posts, ws)"
  shows "sum_list (map sq_KeysTriedDelta (map fst posts @ [fst (make_report zero rate w elapsed ws)])) = last_progress evs 0 \<and>
    sq_RunKeysTried (fst (make_report zero rate w elapsed ws)) = last_progress evs 0 \<and>
    deltas True posts + sq_KeysTriedDelta (fst (make_report zero rate w elapsed ws)) =
      last_progress evs 0 - deltas False posts"
proof -
  have "sum_list (map (sq_KeysTriedDelta \<circ> fst) posts) + ws_sinceReport ws = last_progress evs 0"
    "ws_runKeys ws = last_progress evs 0"
    using stats_events_sum [OF assms] stats_events_last [OF assms] by (simp_all add: zero_worker_stats_def)
  then show ?thesis
    using deltas_all [of posts] by (auto simp: make_report_def Let_def algebra_simps)
qed

section \<open>The hit a worker posts\<close>

lemma worker_format_known: "k \<noteq> MatchKindOther \<Longrightarrow>
    fst (kindFromFormatID (MatchKindName k)) = MatchKindName k \<and> snd (kindFromFormatID (MatchKindName k)) \<noteq> ''Unknown''"
  by (cases k) (simp_all add: kindFromFormatID_def)

text \<open>What a worker found is what the coordinator writes: a hit posted by a registered worker, of an address
  not seen before, appends one block to wallets.txt with the wallet's key index, the identifier and a known
  label of the matched format, the address printed for that format, the balance and the WIF of the wallet.\<close>

theorem posted_hit_is_logged:
  assumes "ev_Kind ev \<noteq> MatchKindOther" "map_of (sv_workers s) w \<noteq> None"
    and "EncodeMatchAddress L (ev_Kind ev) (Keys (ev_Wallet ev)) \<notin> set (sv_hitAddresses s)"
    and "handleHit LogOk now stamp (hit_request L encodeWIF w ev) (s, fs) = (err, s', fs')"
  shows "err = None \<and> sv_clusterHits s' = sv_clusterHits s + 1 \<and>
    (\<exists>label. label \<noteq> ''Unknown'' \<and> file_data fs' walletsLogFile = file_data fs walletsLogFile @
      chars_bytes (wallet_record stamp (ev_KeyIndex ev) (MatchKindName (ev_Kind ev)) label
        (EncodeMatchAddress L (ev_Kind ev) (Keys (ev_Wallet ev))) (encodeWIF (PrivKey (ev_Wallet ev)))
        (ev_BalanceSats ev)))"
proof -
  let ?req = "hit_request L encodeWIF w ev"
  obtain label where label: "kindFromFormatID (MatchKindName (ev_Kind ev)) = (MatchKindName (ev_Kind ev), label)"
      "label \<noteq> ''Unknown''"
    using worker_format_known [OF assms(1)] by (metis prod.collapse)
  have "handleHit LogOk now stamp ?req (s, fs) =
    (None, s\<lparr>sv_hitAddresses := sv_hitAddresses s @ (if hq_Address ?req \<noteq> '''' then [hq_Address ?req] else []),
        sv_clusterHits := sv_clusterHits s + 1, sv_ui := hit_printed ?req (sv_ui s)\<rparr>,
      append_to now walletsLogFile (request_record stamp ?req) fs)"
    using assms(2,3) by (intro handleHit_fresh) (auto simp: hit_request_def)
  then have r: "err = None" "sv_clusterHits s' = sv_clusterHits s + 1"
      "fs' = append_to now walletsLogFile (request_record stamp ?req) fs"
    using assms(4) by auto
  have "request_record stamp ?req = chars_bytes (wallet_record stamp (ev_KeyIndex ev) (MatchKindName (ev_Kind ev))
      label (EncodeMatchAddress L (ev_Kind ev) (Keys (ev_Wallet ev))) (encodeWIF (PrivKey (ev_Wallet ev)))
      (ev_BalanceSats ev))"
    using label(1) by (simp add: request_record_def hit_request_def)
  with r label(2) show ?thesis by (auto simp: file_data_def append_to_def)
qed

section \<open>What a session searches\<close>

text \<open>An answer of a coordinator whose cache has the tag \<open>etag\<close> to a worker whose file has the tag \<open>old\<close>: the
  file with its tag, or \<open>not modified\<close> to a worker that has it.\<close>

definition honest_answer :: "string \<Rightarrow> string \<Rightarrow> string \<Rightarrow> cache_result \<Rightarrow> bool" where
  "honest_answer path etag old ans \<longleftrightarrow>
     (case ans of
        CacheNoAnswer \<Rightarrow> True
      | CacheAnswer code tag body readFails \<Rightarrow>
          (code = StatusNotModified \<longrightarrow> old = etag) \<and>
          (code = StatusOK \<longrightarrow> tag = etag \<and>
            (\<forall>now. CacheETag [path \<mapsto> \<lparr>f_data = body, f_mtime = now\<rparr>] path = Inr etag)))"

lemma CacheETag_local: "fs path = fs' path \<Longrightarrow> CacheETag fs path = CacheETag fs' path"
  by (simp add: CacheETag_def ReadCacheHeader_def os_ReadFile_def)

lemma local_tag_Some: "local_tag fs path = etag \<Longrightarrow> etag \<noteq> '''' \<Longrightarrow> CacheETag fs path = Inr etag"
  by (auto simp: local_tag_def split: sum.splits)

text \<open>After a download from such a coordinator the file has its tag.\<close>

lemma DownloadCache_tag:
  assumes "DownloadCache path old ts b fs = (Finished tag, b', waits, fs')" "etag \<noteq> ''''"
    and "\<And>t. t \<in> set ts \<Longrightarrow> honest_answer path etag old (sy_answer (rt_result t))" "local_tag fs path = old"
  shows "tag = etag \<and> CacheETag fs' path = Inr etag"
  using assms(1,3,4)
proof (induction ts arbitrary: b fs b' waits)
  case (Cons t ts)
  obtain x fs1 where x: "tryDownloadCache (sy_fault (rt_result t)) (sy_now (rt_result t)) path old
      (sy_answer (rt_result t)) fs = (x, fs1)" by (rule prod.exhaust)
  note o1 = tryDownloadCache_outcome [OF x]
  have honest: "honest_answer path etag old (sy_answer (rt_result t))" using Cons.prems(2) by simp
  show ?case
  proof (cases x)
    case (Inr tag')
    then have r: "tag = tag'" "fs' = fs1" using Cons.prems(1) x by auto
    from o1 Inr consider
        "tag' = old" "fs1 = fs" "\<exists>h b f. sy_answer (rt_result t) = CacheAnswer StatusNotModified h b f"
      | body where "sy_answer (rt_result t) = CacheAnswer StatusOK tag' body False"
        "fs1 path = Some \<lparr>f_data = body, f_mtime = sy_now (rt_result t)\<rparr>" by auto
    then show ?thesis
    proof cases
      case 1
      then have "old = etag" using honest by (auto simp: honest_answer_def)
      then show ?thesis using 1 r Cons.prems(3) local_tag_Some assms(2) by auto
    next
      case 2
      then have "tag' = etag" and "CacheETag [path \<mapsto> \<lparr>f_data = body, f_mtime = sy_now (rt_result t)\<rparr>] path = Inr etag"
        using honest by (auto simp: honest_answer_def)
      then show ?thesis
        using r 2 CacheETag_local [of fs1 path "[path \<mapsto> \<lparr>f_data = body, f_mtime = sy_now (rt_result t)\<rparr>]"] by simp
    qed
  next
    case (Inl e)
    then have keep: "fs1 path = fs path" using o1 by auto
    have go: "\<not> (rt_ended t \<or> rt_endedWaiting t)" using Cons.prems(1) x Inl by (auto split: if_splits)
    obtain r1 b1 w1 fs2 where d: "DownloadCache path old ts (next_backoff b) fs1 = (r1, b1, w1, fs2)"
      by (rule prod_cases4)
    then have "r1 = Finished tag" "fs' = fs2" using Cons.prems(1) x Inl go by auto
    moreover have "local_tag fs1 path = old"
      using CacheETag_local [of fs1 path fs] keep Cons.prems(3) by (simp add: local_tag_def)
    ultimately show ?thesis
      using Cons.IH [of "next_backoff b" fs1 b1 w1] d Cons.prems(2) by simp
  qed
qed simp

text \<open>The index in memory is that of the cache file, and the tag is the file's.\<close>

definition tagged_index :: "'bf bloom_lib \<Rightarrow> string \<Rightarrow> 'bf session_state \<Rightarrow> bool" where
  "tagged_index B path st \<longleftrightarrow> CacheETag (ss_fs st) path = Inr (ss_tag st) \<and>
     (\<exists>mmapFails act. fst (LoadFromCacheFile B mmapFails (ss_fs st) path act) = Inr (ss_sets st))"

text \<open>The downloads of a turn are answered with the file of the tag that the turn announces; nobody who lacks it gets
  \<open>not modified\<close>.\<close>

definition honest_turn :: "string \<Rightarrow> session_turn \<Rightarrow> bool" where
  "honest_turn path t \<longleftrightarrow>
     (case tn_status t of
        Finished status \<Rightarrow>
          (\<forall>a \<in> set (tn_sync t). honest_answer path (rc_CacheETag (rr_Config status)) '''' (sy_answer (rt_result a)))
      | _ \<Rightarrow> True)"

definition run_turn :: "session_turn \<Rightarrow> bool" where
  "run_turn t \<longleftrightarrow> (case tn_status t of Finished status \<Rightarrow> rr_State status = StateRunning | _ \<Rightarrow> False)"

text \<open>A search that does what a turn announces: the formats, and an index of the announced tag, when a tag is announced.\<close>

definition follows :: "'bf bloom_lib \<Rightarrow> string \<Rightarrow> 'bf session_state \<times> FormatMask \<Rightarrow> session_turn \<Rightarrow> bool" where
  "follows B path search t \<longleftrightarrow>
     (case (search, tn_status t) of
        ((st, formats), Finished status) \<Rightarrow>
          ParseFormatList (rc_Formats (rr_Config status)) = Inr formats \<and>
          (rc_CacheETag (rr_Config status) \<noteq> '''' \<longrightarrow> ss_tag st = rc_CacheETag (rr_Config status)) \<and>
          tagged_index B path st
      | _ \<Rightarrow> False)"

lemma honest_newcomer: "honest_answer path etag '''' ans \<Longrightarrow> etag \<noteq> '''' \<Longrightarrow> honest_answer path etag old ans"
  by (auto simp: honest_answer_def split: cache_result.splits)

lemma resync_follows:
  assumes "tagged_index B path st" "tn_status t = Finished status" "honest_turn path t"
    and "resync B path t (rc_CacheETag (rr_Config status)) st = Inr st1"
  shows "tagged_index B path st1 \<and>
    (rc_CacheETag (rr_Config status) \<noteq> '''' \<longrightarrow> ss_tag st1 = rc_CacheETag (rr_Config status))"
proof -
  let ?etag = "rc_CacheETag (rr_Config status)"
  show ?thesis
  proof (cases "?etag \<noteq> '''' \<and> ?etag \<noteq> ss_tag st")
    case True
    obtain r b waits fs where d: "DownloadCache path (ss_tag st) (tn_sync t) (ss_backoff st) (ss_fs st) = (r, b, waits, fs)"
      by (rule prod_cases4)
    obtain x act where l: "LoadFromCacheFile B (tn_mmapFails t) fs path (UnmapActive (ss_map st)) = (x, act)"
      by (rule prod.exhaust)
    obtain tag sets where r: "r = Finished tag" "x = Inr sets"
      "st1 = \<lparr>ss_tag = tag, ss_sets = sets, ss_backoff = b, ss_map = act, ss_fs = fs\<rparr>"
      using assms(4) True d l by (auto simp: resync_def split: retried.splits sum.splits)
    have "honest_answer path ?etag (ss_tag st) (sy_answer (rt_result a))" if "a \<in> set (tn_sync t)" for a
      using assms(2,3) that True honest_newcomer by (auto simp: honest_turn_def)
    moreover have "local_tag (ss_fs st) path = ss_tag st" using assms(1) by (simp add: tagged_index_def local_tag_def)
    ultimately have "tag = ?etag \<and> CacheETag fs path = Inr ?etag"
      using DownloadCache_tag [OF d [unfolded r(1)]] True by blast
    moreover have "fst (LoadFromCacheFile B (tn_mmapFails t) fs path (UnmapActive (ss_map st))) = Inr sets"
      using l r(2) by simp
    ultimately show ?thesis unfolding tagged_index_def r(3) by auto
  next
    case False
    then show ?thesis using assms(1,4) by (auto simp: resync_def)
  qed
qed

text \<open>The searches of a session follow its turns with a running coordinator, one by one.\<close>

lemma session_loop_follows:
  assumes "tagged_index B path st" "\<forall>t \<in> set ts. honest_turn path t"
  shows "\<exists>m. list_all2 (follows B path) (snd (session_loop B path ts st)) (take m (filter run_turn ts))"
  using assms
proof (induction ts arbitrary: st)
  case (Cons t ts)
  have IH: "\<exists>m. list_all2 (follows B path) (snd (session_loop B path ts st1)) (take m (filter run_turn ts))"
    if "tagged_index B path st1" for st1
    using Cons.IH [OF that] Cons.prems(2) by simp
  have none: "\<exists>m. list_all2 (follows B path) [] (take m xs)" for xs by (rule exI [of _ 0]) simp
  show ?case
  proof (cases "tn_status t")
    case (Finished status)
    show ?thesis
    proof (cases "\<not> tn_ended t \<and> rr_State status = StateRunning")
      case True
      then have run: "rr_State status \<noteq> StateLobby" "run_turn t" by (auto simp: state_names run_turn_def Finished)
      show ?thesis
      proof (cases "resync B path t (rc_CacheETag (rr_Config status)) st")
        case (Inr st1)
        have st1: "tagged_index B path st1 \<and>
            (rc_CacheETag (rr_Config status) \<noteq> '''' \<longrightarrow> ss_tag st1 = rc_CacheETag (rr_Config status))"
          using resync_follows [OF Cons.prems(1) Finished _ Inr] Cons.prems(2) by simp
        have one: "follows B path (st1, formats) t" if "ParseFormatList (rc_Formats (rr_Config status)) = Inr formats" for formats
          using st1 that by (simp add: follows_def Finished)
        obtain m where m: "list_all2 (follows B path) (snd (session_loop B path ts st1)) (take m (filter run_turn ts))"
          using IH st1 by blast
        have "\<exists>m. list_all2 (follows B path) ((st1, formats) # snd (session_loop B path ts st1))
            (take m (t # filter run_turn ts))" "\<exists>m. list_all2 (follows B path) [(st1, formats)] (take m (t # filter run_turn ts))"
          if "ParseFormatList (rc_Formats (rr_Config status)) = Inr formats" for formats
          using one [OF that] m by (intro exI [of _ "Suc m"], simp) (rule exI [of _ 1], simp add: one [OF that])
        then show ?thesis
          using True run none
          by (auto simp: Finished Inr case_prod_unfold split: sum.splits retried.splits option.splits if_splits)
      qed (use True run none in \<open>simp add: Finished\<close>)
    next
      case False
      have "run_turn t \<longleftrightarrow> rr_State status = StateRunning" by (simp add: run_turn_def Finished)
      with False show ?thesis using none IH [OF Cons.prems(1)] by (auto simp: Finished)
    qed
  qed (use none in \<open>auto\<close>)
qed simp

text \<open>The turn that ends a session: the coordinator's run is over.\<close>

definition over_turn :: "session_turn \<Rightarrow> bool" where
  "over_turn t \<longleftrightarrow> (case tn_status t of
     Finished status \<Rightarrow> rr_State status = StateStopping \<or> rr_State status = StateEnded | _ \<Rightarrow> False)"

text \<open>A session that ends because the run is over has searched in every turn with a running coordinator before.\<close>

lemma session_loop_searches_all:
  assumes "fst (session_loop B path ts st) = SessionOver"
  shows "length (snd (session_loop B path ts st)) = length (filter run_turn (takeWhile (\<lambda>t. \<not> over_turn t) ts))"
  using assms
proof (induction ts arbitrary: st)
  case (Cons t ts)
  show ?case
  proof (cases "tn_status t")
    case (Finished status)
    have "resync B path t tag st \<noteq> Inl SessionOver" for tag
      by (auto simp: resync_def split: retried.split sum.split prod.split)
    then show ?thesis
      using Cons.prems Cons.IH
      by (auto simp: Finished run_turn_def over_turn_def state_names case_prod_unfold
          split: if_splits sum.splits retried.splits option.splits)
  qed (use Cons.prems in \<open>auto split: if_splits\<close>)
qed simp

text \<open>C19. A worker searches what the coordinator announces. With a coordinator that serves the cache of the tag it
  announces, the searches of a session follow its turns with a running coordinator one by one: each runs with the formats of
  its turn, on an index loaded from a cache file of the tag announced in its turn, also when that is not the tag of the index
  the worker had before. Downloads that fail and are repeated, answers \<open>not modified\<close> and heartbeats do not matter. A
  session that ends because the run is over has searched in every turn with a running coordinator before that.\<close>

theorem session_searches_announced_index:
  assumes "reg = Finished resp" "path = CachePath (cache_min (rp_Config resp))" "etag \<noteq> ''''"
    and "\<forall>a \<in> set sync. honest_answer path etag (local_tag fs path) (sy_answer (rt_result a))"
    and "\<forall>t \<in> set turns. honest_turn path t"
  shows "(\<exists>m. list_all2 (follows B path) (snd (runSession B reg sync mmapFails turns backoff fs act))
      (take m (filter run_turn turns))) \<and>
    (fst (runSession B reg sync mmapFails turns backoff fs act) = SessionOver \<longrightarrow>
      length (snd (runSession B reg sync mmapFails turns backoff fs act)) =
        length (filter run_turn (takeWhile (\<lambda>t. \<not> over_turn t) turns)))"
proof -
  have none: "\<exists>m. list_all2 (follows B path) [] (take m xs)" for xs by (rule exI [of _ 0]) simp
  obtain r b waits fs1 where d: "DownloadCache path (local_tag fs path) sync backoff fs = (r, b, waits, fs1)"
    by (rule prod_cases4)
  obtain x act1 where l: "LoadFromCacheFile B mmapFails fs1 path act = (x, act1)" by (rule prod.exhaust)
  show ?thesis
  proof (cases "\<exists>tag sets. r = Finished tag \<and> x = Inr sets")
    case True
    then obtain tag sets where t: "r = Finished tag" "x = Inr sets" by blast
    let ?st = "\<lparr>ss_tag = tag, ss_sets = sets, ss_backoff = b, ss_map = act1, ss_fs = fs1\<rparr>"
    have "tag = etag \<and> CacheETag fs1 path = Inr etag"
      using DownloadCache_tag [OF d [unfolded t] assms(3) _ refl] assms(4) by blast
    moreover have "fst (LoadFromCacheFile B mmapFails fs1 path act) = Inr sets" using l t(2) by simp
    ultimately have "tagged_index B path ?st" unfolding tagged_index_def by auto
    then show ?thesis
      using session_loop_follows [OF _ assms(5)] session_loop_searches_all [of B path turns] none d l t
      by (auto simp: runSession_def Let_def assms(1,2))
  next
    case False
    then have "snd (runSession B reg sync mmapFails turns backoff fs act) = [] \<and>
        fst (runSession B reg sync mmapFails turns backoff fs act) \<noteq> SessionOver"
      using d l by (auto simp: runSession_def Let_def assms(1,2) split: retried.split sum.split)
    then show ?thesis using none by simp
  qed
qed

section \<open>From the coordinator's table to the worker's\<close>

text \<open>What the worker sees of a response.\<close>

definition cache_answer :: "http_response \<Rightarrow> cache_result" where
  "cache_answer resp =
     (case rs_Body resp of
        CacheBody etag minBalance len body \<Rightarrow> CacheAnswer (rs_Code resp) etag body False
      | _ \<Rightarrow> CacheAnswer (rs_Code resp) '''' [] False)"

lemma served_cache_installed:
  assumes "holds_index B p t m d"
    and "tryDownloadCache fault now path old (cache_answer \<lparr>rs_Code = StatusOK, rs_Body = CacheBody etag b n d\<rparr>)
      wfs = (Inr tag, wfs')"
  shows "\<exists>si act'. LoadFromCacheFile B False wfs' path act = (Inr si, act') \<and> tag = etag \<and>
    same_tables si p \<and> index_ok B si \<and> bloomsComplete si"
proof -
  obtain si where si: "DecodeCache B d t m = Inr si" "same_tables si p" "index_ok B si" "bloomsComplete si"
    using assms(1) by (auto simp: holds_index_def split: sum.splits)
  have "tag = etag \<and> wfs' path = Some \<lparr>f_data = d, f_mtime = now\<rparr>"
    using tryDownloadCache_outcome [OF assms(2)] by (auto simp: cache_answer_def status_defs)
  then show ?thesis
    using LoadFromCacheFile_decodes [OF si(1), of wfs' path _ act] si by auto
qed

text \<open>A download request that reaches the cache file.\<close>

definition gets_cache :: "'ip net_lib \<Rightarrow> req_env \<Rightarrow> http_request \<Rightarrow> 'f api_state \<Rightarrow> bool" where
  "gets_cache N env r a \<longleftrightarrow>
     authorized (cc_AuthToken (sv_cfg (ap_server a))) r \<and> hr_Path r = ''/api/v1/cache'' \<and> hr_Method r = MethodGet \<and>
     fst (rateLimit N (cc_AllowCIDR (sv_cfg (ap_server a))) (qe_now env) (hr_ForwardedFor r) (hr_RemoteAddr r) (ap_cache a)) \<and>
     \<not> qe_openFails env \<and> \<not> qe_statFails env"

lemma started_serves_cache:
  assumes "start_coordinator F X L B env cfg fs act = (Inr (s, sets, tls), fs', act')"
    and "fs1 = snd (EnsureTSV (se_web env) (se_tsvStatFails env) (se_tsvFault env) (se_rmFails env) (se_tsvNow env) fs)"
    and "m = rc_MinBalanceSats (sv_runConfig s)"
    and "bloom_lossless B" "\<And>f. bloom_storable B (Some f)"
    and "fs1 DefaultTSVFile = Some tsv" "nano_ok (f_mtime tsv)"
    and "parseTSV L m (bytes_chars (f_data tsv)) = Inr p" "tables_fit p"
    and "cache_faithful B p fs1 (f_mtime tsv) m" "e_writeFault (se_load env) = NoFault"
    and "sv_cfg (ap_server a) = sv_cfg s" "sv_cachePath (ap_server a) = sv_cachePath s"
      "ap_fs a (sv_cachePath s) = fs' (sv_cachePath s)"
    and "gets_cache N qenv r a" "hr_IfNoneMatch r \<noteq> rc_CacheETag (sv_runConfig s)"
  shows "\<exists>d b n. holds_index B p (f_mtime tsv) m d \<and> fst (serve N F J qenv r a) =
    \<lparr>rs_Code = StatusOK, rs_Body = CacheBody (rc_CacheETag (sv_runConfig s)) b n d\<rparr>"
  using assms(1)
proof (rule start_coordinator_Inr)
  let ?cfg = "with_defaults (se_token env) cfg"
  let ?opts = "\<lparr>o_MinBalance = cc_MinBalance ?cfg, o_TSVPath = ''''\<rparr>"
  fix fs1' etag ui
  assume fs1': "fs1' = snd (EnsureTSV (se_web env) (se_tsvStatFails env) (se_tsvFault env) (se_rmFails env) (se_tsvNow env) fs)"
    and load: "Load L B (se_load env) ?opts fs1' act = (Inr sets, fs', act')"
    and s: "s = setRunConfig etag ((NewServer F ?cfg ui)\<lparr>sv_cachePath := CachePath (cc_MinBalance ?cfg)\<rparr>)"
    and e: "CacheETag fs' (CachePath (cc_MinBalance ?cfg)) = Inr etag"
  have m: "m = cc_MinBalance ?cfg" using assms(3) unfolding s by simp
  have "m \<noteq> 0" unfolding m by (simp add: with_defaults_min DefaultMinBalanceSats_def)
  then have opts: "load_min ?opts = m" "load_path ?opts = DefaultTSVFile"
    unfolding m by (simp_all add: load_min_def load_path_def)
  obtain f where f: "fs' (CachePath m) = Some f" "holds_index B p (f_mtime tsv) m (f_data f)"
    using Load_leaves_cache [OF assms(4,5), of fs1 ?opts tsv L p, OF _ assms(7) _ assms(9)]
      assms(2,6,8,10,11) fs1' load unfolding opts by metis
  have path: "sv_cachePath s = CachePath m" "rc_CacheETag (sv_runConfig s) = etag" unfolding s m by simp_all
  have "CacheETag (ap_fs a) (sv_cachePath (ap_server a)) = Inr etag"
    using e assms(13,14) CacheETag_local [of "ap_fs a" "CachePath m" fs'] path m by simp
  moreover have "ap_fs a (sv_cachePath (ap_server a)) = Some f" using f(1) assms(13,14) path by simp
  ultimately have "fst (serve N F J qenv r a) = \<lparr>rs_Code = StatusOK, rs_Body = CacheBody etag
      (cc_MinBalance (sv_cfg (ap_server a))) (length (f_data f)) (f_data f)\<rparr>"
    using serve_cache [of a r N qenv etag f F J] assms(15,16) path by (simp add: gets_cache_def)
  then show ?thesis unfolding path(2) using f(2) by auto
qed

text \<open>C6. The index goes from the coordinator to the worker unharmed. When a coordinator has started (and could
  write its cache), an authorized download that it serves and that the worker completes puts in the worker's
  cache file an index that loads: it has exactly the tables of the coordinator's funded.tsv, is well formed
  and has its filters, under the tag the coordinator announces.\<close>

theorem worker_loads_coordinator_index:
  assumes "start_coordinator F X L B env cfg fs act = (Inr (s, sets, tls), fs', act')"
    and "fs1 = snd (EnsureTSV (se_web env) (se_tsvStatFails env) (se_tsvFault env) (se_rmFails env) (se_tsvNow env) fs)"
    and "m = rc_MinBalanceSats (sv_runConfig s)"
    and "bloom_lossless B" "\<And>f. bloom_storable B (Some f)"
    and "fs1 DefaultTSVFile = Some tsv" "nano_ok (f_mtime tsv)"
    and "parseTSV L m (bytes_chars (f_data tsv)) = Inr p" "tables_fit p"
    and "cache_faithful B p fs1 (f_mtime tsv) m" "e_writeFault (se_load env) = NoFault"
    and "sv_cfg (ap_server a) = sv_cfg s" "sv_cachePath (ap_server a) = sv_cachePath s"
      "ap_fs a (sv_cachePath s) = fs' (sv_cachePath s)"
    and "gets_cache N qenv r a" "hr_IfNoneMatch r \<noteq> rc_CacheETag (sv_runConfig s)"
    and "tryDownloadCache fault now (CachePath m) old (cache_answer (fst (serve N F J qenv r a))) wfs = (Inr tag, wfs')"
  shows "\<exists>si wact'. LoadFromCacheFile B False wfs' (CachePath m) wact = (Inr si, wact') \<and>
    tag = rc_CacheETag (sv_runConfig s) \<and> same_tables si p \<and> index_ok B si \<and> bloomsComplete si"
proof -
  obtain d b n where "holds_index B p (f_mtime tsv) m d" and resp: "fst (serve N F J qenv r a) =
      \<lparr>rs_Code = StatusOK, rs_Body = CacheBody (rc_CacheETag (sv_runConfig s)) b n d\<rparr>"
    using started_serves_cache [OF assms(1-16)] by blast
  then show ?thesis using served_cache_installed [OF _ assms(17) [unfolded resp]] by metis
qed

section \<open>A slow synchronisation\<close>

text \<open>The answers a worker gets to its heartbeat: the status of the handler, once per server state.\<close>

definition beat_answers ::
  "'f api_json \<Rightarrow> req_env \<Rightarrow> http_request \<Rightarrow> 'f Server list \<Rightarrow> unit http_result retry_turn list" where
  "beat_answers J env r = map (\<lambda>s. sample_turn (Answer (rs_Code (fst (handleHeartbeat J env r s))) None))"

lemma unknown_beat:
  assumes "hr_Method r = MethodPost" "aj_heartbeat J (hr_Body r) = Some req" "map_of (sv_workers s) (hb_WorkerID req) = None"
  shows "handleHeartbeat J env r s = (http_Error ''unknown worker_id'' StatusNotFound, s)"
  using assms by (simp add: handleHeartbeat_def heartbeat_def)

text \<open>A worker that is silent for more than thirty seconds after registering, as during a long download of
  the cache, when no heartbeat is sent, is dropped by the next pruning; from then on its heartbeat is answered
  404 and repeated without end, so the session never gets past it: it is still running after any number of
  attempts, and never registers again.\<close>

theorem slow_sync_hangs:
  assumes "reachable F cfg etag (s, fs)" "register F rnd t req s = (resp, s1)" "rp_WorkerID resp \<noteq> ''''"
    and "now > t + freshWindow" "s2 = pruneStale now s1"
    and "hr_Method r = MethodPost" "aj_heartbeat J (hr_Body r) = Some beat" "hb_WorkerID beat = rp_WorkerID resp"
  shows "fst (doJSON False (beat_answers J env r (replicate n s2)) backoff) = Running"
proof -
  let ?id = "rp_WorkerID resp"
  obtain w where s1: "sv_workers s1 = AList.update ?id w (sv_workers s)" "we_LastSeen w = t"
    using assms(2,3) by (auto simp: register_def Let_def empty_RegisterResponse_def split: if_splits)
  have "server_ok cfg etag s" using reachable_ok [OF assms(1)] by simp
  then have "distinct (map fst (sv_workers s1))" by (simp add: s1 server_ok_def distinct_update)
  then have "map_of (sv_workers s2) ?id = None"
    using assms(4,5) s1 by (simp add: pruneStale_def Let_def map_of_filter_key update_conv)
  then have beat: "fst (handleHeartbeat J env r s2) = http_Error ''unknown worker_id'' StatusNotFound"
    using unknown_beat [OF assms(6,7), of s2] assms(8) by simp
  show ?thesis
    by (rule doJSON_stuck)
      (simp add: beat_answers_def beat list_all_iff fails_on_def sample_turn_def tryJSON_def http_Error_def status_defs)
qed

end
