(* ===== verification/ClusterSamples.thy ===== *)
theory ClusterSamples
  imports Worker
begin

text \<open>
  Concrete coordinators, requests and sessions: the theorems of \<open>Api\<close>, \<open>Coordinator\<close> and \<open>Worker\<close>
  applied to them.
\<close>

section \<open>Requests\<close>

definition sample_json :: "unit api_json" where
  "sample_json = \<lparr>aj_register = (\<lambda>b. Some sample_register),
     aj_heartbeat = (\<lambda>b. Some \<lparr>hb_WorkerID = b, hb_State = ''waiting''\<rparr>),
     aj_stats = (\<lambda>b. None), aj_hit = (\<lambda>b. None)\<rparr>"

definition sample_net :: "unit net_lib" where
  "sample_net = \<lparr>n_ParseIP = (\<lambda>s. None), n_ParseCIDR = (\<lambda>s. None)\<rparr>"

definition sample_req_env :: req_env where
  "sample_req_env = \<lparr>qe_now = 50, qe_rnd = [0xCD], qe_stamp = ''t'', qe_logFault = LogOk, qe_openFails = False,
     qe_statFails = False\<rparr>"

definition sample_request :: "string \<Rightarrow> string \<Rightarrow> string \<Rightarrow> string \<Rightarrow> http_request" where
  "sample_request verb path auth body = \<lparr>hr_Method = verb, hr_Path = path, hr_Authorization = auth,
     hr_ForwardedFor = '''', hr_IfNoneMatch = '''', hr_RemoteAddr = ''203.0.113.9:4000'', hr_Body = body\<rparr>"

definition sample_api :: "unit api_state" where
  "sample_api = mountAPI (sample_server, Map.empty)"

lemma sample_server_cfg: "sv_cfg sample_server = sample_coord"
  using reachable_ok [OF sample_reachable] by (simp add: server_ok_def)

theorem unauthenticated_inert_witness:
  "snd (serve sample_net unit_float sample_json sample_req_env
      (sample_request ''GET'' ''/api/v1/run'' ''Bearer guess'' '''') sample_api) = sample_api"
  using unauthenticated_inert [of sample_api "sample_request ''GET'' ''/api/v1/run'' ''Bearer guess'' ''''" sample_api
      sample_net unit_float sample_json sample_req_env]
  by (simp add: authorized_def sample_request_def sample_api_def mountAPI_def sample_server_cfg sample_coord_def)

theorem requests_are_operations_witness:
  "\<exists>resp a'. serve sample_net unit_float sample_json sample_req_env
      (sample_request ''POST'' ''/api/v1/heartbeat'' ''Bearer secret'' ''w-ab'') sample_api = (resp, a') \<and>
    server_ok sample_coord ''5-30000'' (ap_server a')"
proof -
  obtain resp a' where s: "serve sample_net unit_float sample_json sample_req_env
      (sample_request ''POST'' ''/api/v1/heartbeat'' ''Bearer secret'' ''w-ab'') sample_api = (resp, a')"
    by (rule prod.exhaust)
  have "reachable unit_float sample_coord ''5-30000'' (ap_server sample_api, ap_fs sample_api)"
    using sample_reachable by (simp add: sample_api_def mountAPI_def)
  from requests_are_operations [OF this s] s show ?thesis by blast
qed

section \<open>A coordinator that starts\<close>

definition quiet_web :: web where
  "quiet_web = \<lparr>w_head = HeadFails, w_head_after = HeadFails, w_get = GetFails, w_parse_time = (\<lambda>_. None),
     w_answer = ''''\<rparr>"

definition sample_start_env :: start_env where
  "sample_start_env = \<lparr>se_token = '''', se_tty = False, se_web = quiet_web, se_tsvStatFails = False, se_tsvFault = NoFault,
     se_rmFails = False, se_tsvNow = 0, se_clock = sample_clock,
     se_load = sample_env, se_loadClock = sample_load_clock, se_pemOk = (\<lambda>_. False)\<rparr>"

lemma sample_update: "snd (EnsureTSV (se_web sample_start_env) (se_tsvStatFails sample_start_env)
    (se_tsvFault sample_start_env) (se_rmFails sample_start_env) (se_tsvNow sample_start_env) sample_fs) = sample_fs"
  by (simp add: EnsureTSV_def sample_start_env_def quiet_web_def sample_fs_def DefaultTSVFile_def
      remoteLastModified_def)

lemma sample_defaults: "with_defaults (se_token sample_start_env) sample_coord = sample_coord"
  by (simp add: with_defaults_def sample_coord_def sample_start_env_def)

lemma sample_tsv_file: "sample_fs DefaultTSVFile = Some \<lparr>f_data = chars_bytes sample_tsv, f_mtime = 5\<rparr>"
  by (simp add: sample_fs_def DefaultTSVFile_def)

lemma sample_faithful: "cache_faithful B p sample_fs t 30000"
  by (simp add: cache_faithful_def sample_no_cache)

lemma sample_parsed_file:
  obtains p :: "u8 Sets" where "parseTSV sample_lib 30000 (bytes_chars (chars_bytes sample_tsv)) = Inr p" "tables_fit p"
  using sample_parsed by auto

lemma sample_started:
  obtains s :: "unit Server" and sets tls fs' act' where
    "start_coordinator unit_float sample_text sample_lib sample_bloom sample_start_env sample_coord sample_fs None =
      (Inr (s, sets, tls), fs', act')"
proof -
  obtain p :: "u8 Sets" where p: "parseTSV sample_lib 30000 (bytes_chars (chars_bytes sample_tsv)) = Inr p" "tables_fit p"
    by (rule sample_parsed_file)
  have "\<exists>(s :: unit Server) sets tls fs' act'. start_coordinator unit_float sample_text sample_lib sample_bloom sample_start_env
      sample_coord sample_fs None = (Inr (s, sets, tls), fs', act')"
    by (rule start_coordinator_works [where ?fs1.0 = sample_fs and m = 30000 and p = p
          and tsv = "\<lparr>f_data = chars_bytes sample_tsv, f_mtime = 5\<rparr>"])
      (use p in \<open>simp_all add: sample_update sample_defaults sample_tsv_file sample_faithful sample_bloom_lossless
        sample_bloom_storable sample_nano\<close>, simp_all add: sample_coord_def sample_start_env_def sample_env_def)
  then show thesis using that by blast
qed

theorem coordinator_starts_guarded_witness:
  "\<exists>(s :: unit Server) sets tls fs' act'. start_coordinator unit_float sample_text sample_lib sample_bloom sample_start_env
      sample_coord sample_fs None = (Inr (s, sets, tls), fs', act') \<and> cc_AuthToken (sv_cfg s) \<noteq> '''' \<and>
    sv_runState s = StateLobby"
proof (rule sample_started)
  fix s :: "unit Server" and sets tls fs' act'
  assume s: "start_coordinator unit_float sample_text sample_lib sample_bloom sample_start_env sample_coord sample_fs None =
      (Inr (s, sets, tls), fs', act')"
  from coordinator_starts_guarded [OF this refl refl] s show ?thesis by blast
qed

section \<open>Workers\<close>

theorem worker_reports_total_witness:
  "\<exists>posts ws. stats_events () (\<lambda>_ _. ()) ''w'' [EvProgress 100, EvTick 1 True, EvProgress 150, EvTick 2 False, EvProgress 170]
      zero_worker_stats = (posts, ws) \<and>
    sum_list (map sq_KeysTriedDelta (map fst posts @ [fst (make_report () (\<lambda>_ _. ()) ''w'' 3 ws)])) = 170 \<and>
    deltas True posts + sq_KeysTriedDelta (fst (make_report () (\<lambda>_ _. ()) ''w'' 3 ws)) = 120"
proof -
  obtain posts ws where e: "stats_events () (\<lambda>_ _. ()) ''w'' [EvProgress 100, EvTick 1 True, EvProgress 150, EvTick 2 False,
      EvProgress 170] zero_worker_stats = (posts, ws)" by (rule prod.exhaust)
  moreover have "deltas False posts = 50"
    using e by (auto simp: make_report_def count_progress_def zero_worker_stats_def deltas_def Let_def)
  ultimately show ?thesis using worker_reports_total [OF e, of 3] by simp
qed

definition sample_event :: HitEvent where
  "sample_event = \<lparr>ev_Wallet = sample_wallet, ev_Kind = MatchLegacyCompressed, ev_KeyIndex = 3, ev_BalanceSats = 7,
     ev_Simulated = False\<rparr>"

theorem posted_hit_is_logged_witness:
  "\<exists>s' fs'. handleHit LogOk 9 ''t'' (hit_request sample_lib (\<lambda>_. ''K'') ''w-ab'' sample_event)
      (sample_server, Map.empty) = (None, s', fs') \<and> sv_clusterHits s' = sv_clusterHits sample_server + 1"
proof -
  obtain err s' fs' where h: "handleHit LogOk 9 ''t'' (hit_request sample_lib (\<lambda>_. ''K'') ''w-ab'' sample_event)
      (sample_server, Map.empty) = (err, s', fs')" by (rule prod_cases3)
  show ?thesis
    using posted_hit_is_logged [OF _ _ _ h] h sample_known sample_no_hits by (auto simp: sample_event_def)
qed

theorem worker_loads_coordinator_index_witness:
  "\<exists>(s :: unit Server) p wfs' si wact'. parseTSV sample_lib 30000 sample_tsv = Inr p \<and>
    LoadFromCacheFile sample_bloom False wfs' (CachePath 30000) None = (Inr si, wact') \<and> same_tables si p"
proof (rule sample_started)
  fix s :: "unit Server" and sets tls fs' act'
  assume started: "start_coordinator unit_float sample_text sample_lib sample_bloom sample_start_env sample_coord sample_fs None =
      (Inr (s, sets, tls), fs', act')"
  obtain p :: "u8 Sets" where p: "parseTSV sample_lib 30000 (bytes_chars (chars_bytes sample_tsv)) = Inr p" "tables_fit p"
    by (rule sample_parsed_file)
  obtain etag ui where s: "s = setRunConfig etag ((NewServer unit_float sample_coord ui)\<lparr>sv_cachePath := CachePath 30000\<rparr>)"
    using start_coordinator_Inr [OF started] sample_defaults by (metis CoordConfig.select_convs(7) sample_coord_def)
  then have m: "30000 = rc_MinBalanceSats (sv_runConfig s)" by (simp add: sample_coord_def)
  define a where "a = \<lparr>ap_server = s, ap_fs = fs', ap_reg = None, ap_cache = None, ap_api = None\<rparr>"
  define r where "r = (sample_request ''GET'' ''/api/v1/cache'' ''Bearer secret'' '''')
      \<lparr>hr_IfNoneMatch := CHR ''x'' # rc_CacheETag (sv_runConfig s)\<rparr>"
  have a: "sv_cfg (ap_server a) = sv_cfg s" "sv_cachePath (ap_server a) = sv_cachePath s"
    "ap_fs a (sv_cachePath s) = fs' (sv_cachePath s)" by (simp_all add: a_def)
  have "rateLimit sample_net cidrs t xff addr None = (True, None)" for cidrs t xff addr
    by (simp add: rateLimit_def Let_def allow_def)
  then have get: "gets_cache sample_net sample_req_env r a"
    by (simp add: gets_cache_def a_def r_def s sample_coord_def sample_request_def authorized_def MethodGet_def
        sample_req_env_def)
  have tag: "hr_IfNoneMatch r \<noteq> rc_CacheETag (sv_runConfig s)" by (simp add: r_def)
  have fault: "e_writeFault (se_load sample_start_env) = NoFault" by (simp add: sample_start_env_def sample_env_def)
  have tsv: "nano_ok (f_mtime \<lparr>f_data = chars_bytes sample_tsv, f_mtime = 5\<rparr>)"
    "parseTSV sample_lib 30000 (bytes_chars (f_data \<lparr>f_data = chars_bytes sample_tsv, f_mtime = 5\<rparr>)) = Inr p"
    "cache_faithful sample_bloom p sample_fs (f_mtime \<lparr>f_data = chars_bytes sample_tsv, f_mtime = 5\<rparr>) 30000"
    using p sample_nano sample_faithful by simp_all
  note facts = started sample_update [symmetric] m sample_bloom_lossless sample_bloom_storable sample_tsv_file tsv(1,2)
    p(2) tsv(3) fault a get tag
  obtain d b n where resp: "fst (serve sample_net unit_float sample_json sample_req_env r a) =
      \<lparr>rs_Code = StatusOK, rs_Body = CacheBody (rc_CacheETag (sv_runConfig s)) b n d\<rparr>"
    using started_serves_cache [OF facts] by blast
  obtain tag' wfs' where got: "tryDownloadCache NoFault 3 (CachePath 30000) ''''
      (cache_answer (fst (serve sample_net unit_float sample_json sample_req_env r a))) Map.empty = (Inr tag', wfs')"
    by (simp add: resp cache_answer_def tryDownloadCache_def save_cache_def Let_def status_defs)
  obtain si wact' where "LoadFromCacheFile sample_bloom False wfs' (CachePath 30000) None = (Inr si, wact')" "same_tables si p"
    using worker_loads_coordinator_index [OF facts got] by blast
  then show ?thesis using p by auto
qed

theorem slow_sync_hangs_witness:
  "fst (doJSON False (beat_answers sample_json sample_req_env
      (sample_request ''POST'' ''/api/v1/heartbeat'' ''Bearer secret'' ''w-ab'')
      (replicate 5 (pruneStale 30000000006 sample_server))) second) = Running"
proof (rule slow_sync_hangs [where F = unit_float and rnd = "[0xAB]" and t = 5 and req = sample_register
      and cfg = sample_coord and etag = "''5-30000''" and fs = Map.empty
      and s = "setRunConfig ''5-30000'' (NewServer unit_float sample_coord sample_term)" and ?s1.0 = sample_server
      and resp = "fst (register unit_float [0xAB] 5 sample_register
        (setRunConfig ''5-30000'' (NewServer unit_float sample_coord sample_term)))"])
  have "(NewServer unit_float sample_coord sample_term)\<lparr>sv_cachePath := ''''\<rparr> = NewServer unit_float sample_coord sample_term"
    by (simp add: NewServer_def)
  then show "reachable unit_float sample_coord ''5-30000'' (setRunConfig ''5-30000'' (NewServer unit_float sample_coord sample_term), Map.empty)"
    using reachable.init by metis
  have id: "rp_WorkerID (fst (register unit_float [0xAB] 5 sample_register
      (setRunConfig ''5-30000'' (NewServer unit_float sample_coord sample_term)))) = ''w-ab''" by code_simp
  show "rp_WorkerID (fst (register unit_float [0xAB] 5 sample_register
      (setRunConfig ''5-30000'' (NewServer unit_float sample_coord sample_term)))) \<noteq> ''''" by (simp add: id)
  show "aj_heartbeat sample_json (hr_Body (sample_request ''POST'' ''/api/v1/heartbeat'' ''Bearer secret'' ''w-ab'')) =
      Some \<lparr>hb_WorkerID = ''w-ab'', hb_State = ''waiting''\<rparr>"
    by (simp add: sample_json_def sample_request_def)
  show "hb_WorkerID \<lparr>hb_WorkerID = ''w-ab'', hb_State = ''waiting''\<rparr> = rp_WorkerID (fst (register unit_float [0xAB] 5
      sample_register (setRunConfig ''5-30000'' (NewServer unit_float sample_coord sample_term))))" by (simp add: id)
qed (simp_all add: sample_server_def freshWindow_def sample_request_def MethodPost_def)

section \<open>A session\<close>

definition sample_reply :: "string \<Rightarrow> RunResponse" where
  "sample_reply etag = \<lparr>rr_State = StateRunning, rr_Config = \<lparr>rc_Formats = [''segwit''], rc_MinBalanceSats = 30000,
     rc_CacheETag = etag\<rparr>\<rparr>"

definition sample_session_turn :: "string \<Rightarrow> sync_env retry_turn list \<Rightarrow> session_turn" where
  "sample_session_turn etag sync = \<lparr>tn_ended = False, tn_status = Finished (sample_reply etag), tn_beat = Finished (),
     tn_sync = sync, tn_mmapFails = False, tn_search = Finished None\<rparr>"

lemma sample_session_turn_simps [simp]:
  "\<not> tn_ended (sample_session_turn etag sync)" "tn_status (sample_session_turn etag sync) = Finished (sample_reply etag)"
  "tn_beat (sample_session_turn etag sync) = Finished ()" "tn_sync (sample_session_turn etag sync) = sync"
  "tn_mmapFails (sample_session_turn etag sync) = False" "tn_search (sample_session_turn etag sync) = Finished None"
  "rr_State (sample_reply etag) = StateRunning" "rc_Formats (rr_Config (sample_reply etag)) = [''segwit'']"
  "rc_CacheETag (rr_Config (sample_reply etag)) = etag"
  by (simp_all add: sample_session_turn_def sample_reply_def)

definition sample_answer :: RegisterResponse where
  "sample_answer = \<lparr>rp_WorkerID = ''w-ab'', rp_RunState = StateLobby, rp_Config = \<lparr>rc_Formats = [],
     rc_MinBalanceSats = 0, rc_CacheETag = ''''\<rparr>\<rparr>"

definition sample_sync :: "sync_env retry_turn list" where
  "sample_sync = [sample_turn \<lparr>sy_fault = NoFault, sy_now = 1, sy_answer = CacheAnswer StatusNotModified '''' [] False\<rparr>]"

definition new_sync :: "string \<Rightarrow> u8 list \<Rightarrow> sync_env retry_turn list" where
  "new_sync etag d = [sample_turn \<lparr>sy_fault = NoFault, sy_now = 2, sy_answer = CacheAnswer StatusOK etag d False\<rparr>]"

lemma sample_segwit: "\<exists>m. ParseFormatList [''segwit''] = Inr m"
proof -
  have "\<not> isl (ParseFormatList [''segwit''])" by code_simp
  then show ?thesis by (cases "ParseFormatList [''segwit'']") simp_all
qed

lemma sample_names [simp]: "StateRunning \<noteq> StateLobby" "StateLobby \<noteq> StateRunning"
  by (simp_all add: state_names)

text \<open>A cache of the sample index built from a funded.tsv of the time \<open>t\<close>.\<close>

lemma sample_cache:
  assumes "nano_ok t"
  obtains d where "\<And>fs now. fs path = Some \<lparr>f_data = d, f_mtime = now\<rparr> \<Longrightarrow>
      CacheETag fs path = Inr (show_int t @ ''-'' @ show_nat 30000) \<and>
      (\<forall>act. LoadFromCacheFile sample_bloom False fs path act = (Inr (cached sample_sets), Some d))"
proof -
  obtain d where d: "encode_cache sample_bloom sample_sets t = Inr d"
    using encode_cache_storable [OF sample_storable] by meson
  show thesis
  proof (rule that [of d])
    fix fs :: fs and now
    assume f: "fs path = Some \<lparr>f_data = d, f_mtime = now\<rparr>"
    have "ReadCacheHeader fs path = Inr (header_of sample_sets t)"
      using ParseCacheHeader_encode [OF assms sample_storable d] by (simp add: ReadCacheHeader_def os_ReadFile_def f)
    then show "CacheETag fs path = Inr (show_int t @ ''-'' @ show_nat 30000) \<and>
        (\<forall>act. LoadFromCacheFile sample_bloom False fs path act = (Inr (cached sample_sets), Some d))"
      using LoadFromCacheFile_written [OF assms sample_storable d, where fs = fs and path = path] f
      by (simp add: CacheETag_def header_of_def sample_min)
  qed
qed

lemma sample_session_run:
  assumes "CacheETag fs ''funded.cache'' = Inr etag"
    and "\<And>act. LoadFromCacheFile B False fs ''funded.cache'' act = (Inr sets, Some d)"
    and "\<And>fs act. fs ''funded.cache'' = Some \<lparr>f_data = d2, f_mtime = 2\<rparr> \<Longrightarrow>
      LoadFromCacheFile B False fs ''funded.cache'' act = (Inr sets2, Some d2)"
    and "ParseFormatList [''segwit''] = Inr m" "etag2 \<noteq> ''''" "etag2 \<noteq> etag"
  shows "\<exists>st1 st2. snd (runSession B (Finished sample_answer) sample_sync False
    [sample_session_turn etag [], sample_session_turn etag2 (new_sync etag2 d2)] second fs None) = [(st1, m), (st2, m)]"
proof -
  have path: "CachePath (cache_min (rp_Config sample_answer)) = ''funded.cache''" "rp_WorkerID sample_answer \<noteq> ''''"
    by (simp_all add: sample_answer_def cache_min_def CachePath_def DefaultCacheFile_def)
  have tag: "local_tag fs ''funded.cache'' = etag" using assms(1) by (simp add: local_tag_def)
  have d: "DownloadCache ''funded.cache'' etag sample_sync second fs = (Finished etag, second, [], fs)"
    by (simp add: sample_sync_def sample_turn_def tryDownloadCache_def)
  let ?st = "\<lparr>ss_tag = etag, ss_sets = sets, ss_backoff = second, ss_map = Some d, ss_fs = fs\<rparr>"
  obtain fs2 where d2: "DownloadCache ''funded.cache'' etag (new_sync etag2 d2) second fs = (Finished etag2, second, [], fs2)"
      "fs2 ''funded.cache'' = Some \<lparr>f_data = d2, f_mtime = 2\<rparr>"
    by (simp add: new_sync_def sample_turn_def tryDownloadCache_def save_cache_def Let_def status_defs tmp_path_def)
  have r: "resync B ''funded.cache'' (sample_session_turn etag2 (new_sync etag2 d2)) etag2 ?st =
      Inr \<lparr>ss_tag = etag2, ss_sets = sets2, ss_backoff = second, ss_map = Some d2, ss_fs = fs2\<rparr>"
    using assms(5,6) d2 assms(3) [where fs = fs2] by (simp add: resync_def)
  have same: "resync B ''funded.cache'' (sample_session_turn etag []) etag ?st = Inr ?st" by (simp add: resync_def)
  have s: "\<exists>st1 st2. snd (session_loop B ''funded.cache'' [sample_session_turn etag [], sample_session_turn etag2 (new_sync etag2 d2)]
      ?st) = [(st1, m), (st2, m)]"
    using assms(4) r same by simp
  show ?thesis using path assms(2) s by (simp add: runSession_def Let_def tag d del: session_loop.simps)
qed

theorem session_searches_announced_index_witness:
  "\<exists>fs etag1 etag2 d st1 st2 m. snd (runSession sample_bloom (Finished sample_answer) sample_sync False
      [sample_session_turn etag1 [], sample_session_turn etag2 (new_sync etag2 d)] second fs None) = [(st1, m), (st2, m)] \<and>
    etag1 \<noteq> etag2 \<and> ss_tag st1 = etag1 \<and> ss_tag st2 = etag2"
proof -
  let ?path = "''funded.cache''" and ?etag1 = "show_int 5 @ ''-'' @ show_nat 30000" and ?etag2 = "show_int 6 @ ''-'' @ show_nat 30000"
  have "nano_ok 6" by (simp add: nano_ok_def)
  obtain d1 where d1: "\<And>fs now. fs ?path = Some \<lparr>f_data = d1, f_mtime = now\<rparr> \<Longrightarrow> CacheETag fs ?path = Inr ?etag1 \<and>
      (\<forall>act. LoadFromCacheFile sample_bloom False fs ?path act = (Inr (cached sample_sets), Some d1))"
    using sample_cache [OF sample_nano(1), of ?path] by blast
  obtain d2 where d2: "\<And>fs now. fs ?path = Some \<lparr>f_data = d2, f_mtime = now\<rparr> \<Longrightarrow> CacheETag fs ?path = Inr ?etag2 \<and>
      (\<forall>act. LoadFromCacheFile sample_bloom False fs ?path act = (Inr (cached sample_sets), Some d2))"
    using sample_cache [OF \<open>nano_ok 6\<close>, of ?path] by blast
  define fs :: fs where "fs = [?path \<mapsto> \<lparr>f_data = d1, f_mtime = 0\<rparr>]"
  have f: "fs ?path = Some \<lparr>f_data = d1, f_mtime = 0\<rparr>" by (simp add: fs_def)
  have c1: "CacheETag fs ?path = Inr ?etag1" "\<And>act. LoadFromCacheFile sample_bloom False fs ?path act = (Inr (cached sample_sets), Some d1)"
    using d1 [of fs 0] f by blast+
  obtain m where m: "ParseFormatList [''segwit''] = Inr m" using sample_segwit by blast
  have ne: "?etag1 \<noteq> ''''" "?etag2 \<noteq> ''''" "?etag2 \<noteq> ?etag1" by (simp_all add: show_int_def show_nat.simps digit_char_def)
  let ?turns = "[sample_session_turn ?etag1 [], sample_session_turn ?etag2 (new_sync ?etag2 d2)]"
  obtain st1 st2 where run: "snd (runSession sample_bloom (Finished sample_answer) sample_sync False ?turns second fs None) =
      [(st1, m), (st2, m)]"
    using sample_session_run [OF _ _ _ m ne(2,3), of fs sample_bloom "cached sample_sets" d1 d2 "cached sample_sets"]
      c1 d2 by blast
  have "\<exists>k. list_all2 (follows sample_bloom ?path) (snd (runSession sample_bloom (Finished sample_answer) sample_sync False ?turns
      second fs None)) (take k (filter run_turn ?turns))"
  proof (rule session_searches_announced_index [OF refl _ ne(1), THEN conjunct1])
    show "?path = CachePath (cache_min (rp_Config sample_answer))"
      by (simp add: sample_answer_def cache_min_def CachePath_def DefaultCacheFile_def)
    show "\<forall>a \<in> set sample_sync. honest_answer ?path ?etag1 (local_tag fs ?path) (sy_answer (rt_result a))"
      using c1 by (simp add: sample_sync_def sample_turn_def honest_answer_def local_tag_def status_defs)
    show "\<forall>t \<in> set ?turns. honest_turn ?path t"
      using d2 [of "[?path \<mapsto> \<lparr>f_data = d2, f_mtime = now\<rparr>]" now for now]
      by (simp add: honest_turn_def sample_session_turn_def sample_reply_def new_sync_def sample_turn_def honest_answer_def
          status_defs)
  qed
  moreover have "filter run_turn ?turns = ?turns" by (simp add: run_turn_def sample_session_turn_def sample_reply_def)
  ultimately obtain k where k: "list_all2 (follows sample_bloom ?path) [(st1, m), (st2, m)] (take k ?turns)"
    unfolding run by metis
  then have "2 \<le> k" using list_all2_lengthD [OF k] by simp
  then have "ss_tag st1 = ?etag1" "ss_tag st2 = ?etag2"
    using k ne by (auto simp: follows_def sample_session_turn_def sample_reply_def take_Cons')
  then show ?thesis using run ne(3) by metis
qed

end
