(* ===== verification/Prompts.thy ===== *)
theory Prompts
  imports MainReporter Coordinator
begin

text \<open>
  The question \<open>EnsureTSV\<close> asks, on the terminals of the two programs that ask it.
\<close>

definition out_of_date :: "'bf rep_text \<Rightarrow> int \<Rightarrow> int \<Rightarrow> string" where
  "out_of_date X local remote =
     ''funded.tsv is out of date (local: '' @ rt_local X local @ '', remote: '' @ rt_utc X remote @ '')'' @ newline"

lemma quiet_coord [simp]: "ct_quiet u \<Longrightarrow> coord_Infof s u = u" "ct_quiet u \<Longrightarrow> coord_Section s u = u"
  by (simp_all add: coord_Infof_def coord_Section_def)

lemma quiet_copy: "snd (copy_reported (UIReporter verb seconds) clock k lastReport cs written dst u) = u"
  by (induction cs arbitrary: k lastReport written dst u)
    (simp_all add: UIReporter_def Let_def split: option.split read_end.split)

lemma quiet_download:
  assumes "ct_quiet u"
  shows "snd (downloadTSV_reported (UIReporter verb seconds) X clk w fault False now fs u) = u"
proof -
  have R: "rep_Infof (UIReporter verb seconds) s u = u" "rep_ClearProgress (UIReporter verb seconds) u = u" for s
    using assms by (simp_all add: UIReporter_def)
  have rm: "fst (RemoveDefaultCache False fs) = None" for fs
    by (simp add: RemoveDefaultCache_def RemoveCache_def)
  show ?thesis
    by (auto simp: downloadTSV_reported_def R rm quiet_copy Let_def case_prod_unfold split: get_result.split option.split)
qed

text \<open>C36. A quiet coordinator asks a question that nobody can see. When the server has a newer funded.tsv, \<open>EnsureTSV\<close> asks on
  the terminal and waits for a line of input, on which the download depends. The main program shows the question
  also when it is quiet; the reporter of a quiet coordinator drops it: until the answer is read its terminal has not
  changed, neither does it change for a download, and a wrong or empty line shows only the outcome.\<close>

theorem quiet_question:
  fixes X :: "'bf rep_text"
  assumes "fs DefaultTSVFile = Some info" "remoteLastModified (w_parse_time w) (w_head w) = Inr remote"
    and "f_mtime info < remote" "ct_quiet u" "ui_quiet v" "\<not> ui_verbose v" "\<not> ui_progressActive v"
  shows "EnsureTSV_reported (Some (UIReporter verb seconds)) X clk w False fault False now fs u =
      (if says_yes (w_answer w) then (downloadTSV w fault False now fs, u)
       else ((None, fs), Eventf (''Using existing funded.tsv'' @ newline) u)) \<and>
    (\<not> says_yes (w_answer w) \<longrightarrow>
      EnsureTSV_reported (Some (mainReporter T)) X clk w False fault False now fs (Some v) =
      ((None, fs), Some (v\<lparr>ui_err := ui_err v @ out_of_date X (f_mtime info) remote @ ''Download update? [y/N]: '' @
        ''Using existing funded.tsv'' @ newline\<rparr>)))"
proof -
  let ?R = "UIReporter verb seconds :: ('bf, CoordTerm) Reporter"
  have R: "rep_Infof ?R s u = u" "rep_PrintfErr ?R s u = u" "rep_ClearProgress ?R u = u" "rep_Quiet ?R u"
    "rep_ProgressIndeterminate ?R t s u = u" "rep_PrintlnErr ?R s u = Eventf (s @ newline) u" for s t
    using assms(4) by (simp_all add: UIReporter_def)
  have "downloadTSV_reported ?R X clk w fault False now fs u = (downloadTSV w fault False now fs, u)"
    using quiet_download [OF assms(4)] downloadTSV_reported_fst by (metis prod.collapse)
  then have c: "EnsureTSV_reported (Some ?R) X clk w False fault False now fs u =
      (if says_yes (w_answer w) then (downloadTSV w fault False now fs, u)
       else ((None, fs), Eventf (''Using existing funded.tsv'' @ newline) u))"
    using assms(1-3) by (simp add: EnsureTSV_reported_def some_reporter_def R Let_def)
  let ?M = "mainReporter T :: ('bf, UI option) Reporter"
  have M: "rep_ProgressIndeterminate ?M t s (Some v) = Some v" "rep_Quiet ?M (Some x) = ui_quiet x"
      "rep_Verbose ?M (Some x) = ui_verbose x" "rep_PrintfErr ?M s (Some x) = Some (PrintfErr s x)"
      "rep_PrintlnErr ?M s (Some x) = Some (PrintlnErr s x)" for s t x
    using assms(5) by (simp_all add: mainReporter_def ProgressIndeterminate_def)
  have "rep_ClearProgress ?M (Some v) = Some v"
    using assms(7) by (simp add: mainReporter_def ClearProgress_def)
  moreover have "ui_quiet (PrintfErr s x) = ui_quiet x" "ui_verbose (PrintfErr s x) = ui_verbose x" for s x
    by (simp_all add: PrintfErr_def)
  ultimately have "EnsureTSV_reported (Some ?M) X clk w False fault False now fs (Some v) =
      ((None, fs), Some (PrintlnErr ''Using existing funded.tsv'' (PrintfErr ''Download update? [y/N]: ''
        (PrintfErr (out_of_date X (f_mtime info) remote) v))))" if "\<not> says_yes (w_answer w)"
    using assms(1-3,5,6) that
    by (simp add: EnsureTSV_reported_def some_reporter_def M out_of_date_def Let_def)
  with c show ?thesis by (simp add: PrintlnErr_def PrintfErr_def)
qed

end
