(* ===== verification/MainSamples.thy ===== *)
theory MainSamples
  imports MainProgram ClusterSamples Prompts
begin

text \<open>
  A concrete run of the main program: one key, tried against the index of the sample file.
\<close>

definition sample_main :: main_env where
  "sample_main = \<lparr>mn_tty = False, mn_numCPU = 4, mn_web = quiet_web, mn_tsvStatFails = False, mn_tsvFault = NoFault,
     mn_rmFails = False, mn_tsvNow = 0, mn_load = sample_env, mn_ensureClock = sample_clock, mn_loadClock = sample_load_clock,
     mn_log = (\<lambda>ev. \<lparr>le_fault = LogOk, le_now = 7, le_stamp = ''2026-01-01T00:00:00Z''\<rparr>), mn_errText = (\<lambda>ev. ''''),
     mn_clock = id, mn_run = sample_renv, mn_end = sample_end\<rparr>"

definition sample_main_text :: "unit text_lib" where
  "sample_main_text = \<lparr>tl_int = show_int, tl_percent = (\<lambda>_. ''0''), tl_ratio = (\<lambda>_ _. ''0''),
     tl_kps = (\<lambda>_ _. ''0''), tl_seconds = (\<lambda>_ _. ''0''), tl_seconds_full = (\<lambda>_. ''0''), tl_average = (\<lambda>_. ''0'')\<rparr>"

definition sample_arrivals :: "arrival list" where
  "sample_arrivals = [\<lparr>ar_batch = [sample_wallet], ar_now = 5, ar_fault = NoFault, ar_write = 5, ar_restart = 5\<rparr>]"

definition one_key :: cliConfig where "one_key = default_cli\<lparr>numKeys := 1\<rparr>"

lemma one_key_parsed: "parseCLI (\<lambda>_. None) [show_int 1] = Inr one_key"
  using Atoi_show [of 1]
  by (simp add: parseCLI_def arg_count take_positionals_def check_config_def default_cli_def one_key_def Let_def)

lemma sample_main_update: "snd (EnsureTSV (mn_web sample_main) (mn_tsvStatFails sample_main) (mn_tsvFault sample_main)
    (mn_rmFails sample_main) (mn_tsvNow sample_main) sample_fs) = sample_fs"
  by (simp add: EnsureTSV_def sample_main_def quiet_web_def sample_fs_def DefaultTSVFile_def remoteLastModified_def)

lemma sample_main_loads:
  "\<exists>sets fs act. Load sample_lib sample_bloom (mn_load sample_main) (funded_opts (minBalance one_key)) sample_fs None = (Inr sets, fs, act)"
proof -
  obtain p :: "u8 Sets" where p: "parseTSV sample_lib 30000 (bytes_chars (chars_bytes sample_tsv)) = Inr p" "tables_fit p"
    by (rule sample_parsed_file)
  let ?opts = "\<lparr>o_MinBalance = 30000, o_TSVPath = ''''\<rparr>" and ?tsv = "\<lparr>f_data = chars_bytes sample_tsv, f_mtime = 5\<rparr>"
  have o: "load_min ?opts = 30000" "load_path ?opts = DefaultTSVFile" by (simp_all add: load_min_def load_path_def)
  have tsv: "sample_fs (load_path ?opts) = Some ?tsv" unfolding o by (rule sample_tsv_file)
  have "\<exists>sets fs act. Load sample_lib sample_bloom sample_env ?opts sample_fs None = (Inr sets, fs, act)"
    by (rule Load_refines [where opts = ?opts and tsv = ?tsv and fs = sample_fs and p = p and B = sample_bloom and
          L = sample_lib and env = sample_env and act = None])
      (use p tsv sample_nano sample_faithful sample_bloom_lossless sample_bloom_storable sample_env_ok in \<open>simp_all add: o\<close>)
  then show ?thesis
    by (simp add: funded_opts_def sample_main_def one_key_def default_cli_def DefaultMinBalanceSats_def)
qed

lemma sample_main_returns:
  "\<exists>u fs'. btcfind_main sample_lib sample_bloom sample_session (\<lambda>_ _. ()) sample_main_text sample_text (\<lambda>_. ''K'') (\<lambda>_. None) sample_main
    [show_int 1] sample_arrivals sample_fs = (MainReturns u, fs')"
proof -
  obtain sets fs act where l: "Load sample_lib sample_bloom (mn_load sample_main) (funded_opts (minBalance one_key)) sample_fs None =
      (Inr sets, fs, act)" using sample_main_loads by meson
  show ?thesis
    by (rule bounded_main_returns [OF sample_lib_laws one_key_parsed _ _ sample_main_update [symmetric] l])
      (simp_all add: one_key_def default_cli_def sample_arrivals_def)
qed

theorem main_returns_witness:
  "\<exists>u fs'. btcfind_main sample_lib sample_bloom sample_session (\<lambda>_ _. ()) sample_main_text sample_text (\<lambda>_. ''K'') (\<lambda>_. None) sample_main
    [show_int 1] sample_arrivals sample_fs = (MainReturns u, fs')"
proof -
  obtain sets fs act where l: "Load sample_lib sample_bloom (mn_load sample_main) (funded_opts (minBalance one_key)) sample_fs None =
      (Inr sets, fs, act)" using sample_main_loads by meson
  show ?thesis
    by (rule main_returns [OF sample_lib_laws one_key_parsed _ _ sample_main_update [symmetric] l])
      (simp_all add: one_key_def default_cli_def sample_arrivals_def)
qed

theorem main_logs_every_hit_witness:
  "\<exists>u fs' sets fs2 act n i. btcfind_main sample_lib sample_bloom sample_session (\<lambda>_ _. ()) sample_main_text sample_text (\<lambda>_. ''K'')
      (\<lambda>_. None) sample_main [show_int 1] sample_arrivals sample_fs = (MainReturns u, fs') \<and> n = 1 \<and>
    Load sample_lib sample_bloom sample_env (funded_opts (minBalance one_key)) sample_fs None = (Inr sets, fs2, act) \<and>
    file_data fs' walletsLogFile = concat (map (event_record sample_lib (\<lambda>_. ''K'') sample_main)
      (filter (\<lambda>ev. \<not> ev_Simulated ev) (hits_in_order sample_lib sample_bloom
        (main_search_config (main_workers sample_main one_key) one_key) sets (take n [sample_wallet]) i)))"
proof -
  obtain u fs' where m: "btcfind_main sample_lib sample_bloom sample_session (\<lambda>_ _. ()) sample_main_text sample_text (\<lambda>_. ''K'')
      (\<lambda>_. None) sample_main [show_int 1] sample_arrivals sample_fs = (MainReturns u, fs')"
    using sample_main_returns by meson
  have ok: "le_fault (mn_log sample_main ev) = LogOk" for ev by (simp add: sample_main_def)
  have rm: "\<not> re_rmFails (mn_run sample_main)" "\<not> re_rmTmpFails (mn_run sample_main)"
    by (simp_all add: sample_main_def sample_renv_def)
  have log: "file_data sample_fs walletsLogFile = []"
    by (simp add: file_data_def sample_fs_def walletsLogFile_def)
  have cfg: "injectIndexHit one_key = ''''" "\<not> forever one_key" "numKeys one_key = 1"
    "concat (map ar_batch sample_arrivals) = [sample_wallet]" "mn_load sample_main = sample_env"
    by (simp_all add: one_key_def default_cli_def sample_arrivals_def sample_main_def)
  show ?thesis
    using main_logs_every_hit [OF sample_lib_laws one_key_parsed ok rm m] m log
    by (simp only: sample_main_update cfg append_Nil simp_thms if_False nat_one_as_int) auto
qed

section \<open>The question\<close>

definition newer_web :: web where
  "newer_web = quiet_web\<lparr>w_head := HeadResponse 200 ''later'', w_parse_time := (\<lambda>_. Some 9), w_answer := ''n''\<rparr>"

theorem quiet_question_witness:
  "EnsureTSV_reported (Some (UIReporter False (\<lambda>_. ''0''))) sample_text sample_clock newer_web False NoFault False 0 sample_fs
      (NewCoordUI True True False) = ((None, sample_fs), Eventf (''Using existing funded.tsv'' @ newline)
        (NewCoordUI True True False)) \<and>
    (\<exists>v. EnsureTSV_reported (Some (mainReporter sample_main_text)) sample_text sample_clock newer_web False NoFault False 0
      sample_fs (Some (NewUI True False True False)) = ((None, sample_fs), Some v) \<and>
      ui_err v = out_of_date sample_text 5 9 @ ''Download update? [y/N]: '' @ ''Using existing funded.tsv'' @ newline)"
proof -
  have remote: "remoteLastModified (w_parse_time newer_web) (w_head newer_web) = Inr 9"
    by (simp add: newer_web_def remoteLastModified_def)
  have no: "\<not> says_yes (w_answer newer_web)" unfolding newer_web_def by code_simp
  show ?thesis
    using quiet_question [where fs = sample_fs and w = newer_web and u = "NewCoordUI True True False" and verb = False and
        v = "NewUI True False True False" and seconds = "\<lambda>_. ''0''" and X = sample_text and clk = sample_clock and
        fault = NoFault and now = 0 and T = sample_main_text, OF sample_tsv_file remote] no
    by (simp add: NewCoordUI_def NewUI_def)
qed

end
