(* ===== verification/CoordUI.thy ===== *)
theory CoordUI
  imports Output Coordinator
begin

text \<open>
  coordinator/ui.go and the dashboard of server.go: what the coordinator prints. A terminal is what has been written
  to it. \<open>%.0f\<close> of a rate is the parameter \<open>rate\<close>.
\<close>

section \<open>Text of a fixed width\<close>

lemma rune_count_append [simp]: "rune_count (s @ t) = rune_count s + rune_count t"
  by (simp add: rune_count_def)

definition plain :: "string \<Rightarrow> bool" where
  "plain s \<longleftrightarrow> (\<forall>c \<in> set s. (of_char c :: nat) < 0x80)"

lemma plain_simps [simp]: "plain (s @ t) \<longleftrightarrow> plain s \<and> plain t" "plain []" "plain (c # s) \<longleftrightarrow> (of_char c :: nat) < 0x80 \<and> plain s"
  by (auto simp: plain_def)

lemma rune_count_plain: "plain s \<Longrightarrow> rune_count s = length s"
  by (induction s) (auto simp: rune_count_def)

section \<open>The dashboard\<close>

definition state_text :: "workerState \<Rightarrow> string" where
  "state_text st = (case st of workerWaiting \<Rightarrow> ''waiting'' | workerRunning \<Rightarrow> ''running'' | workerOffline \<Rightarrow> ''offline'')"

definition thread_total :: "'f workerEntry list \<Rightarrow> int" where
  "thread_total workers = sint (fold (\<lambda>w threads. threads + word_of_int (we_Threads w)) workers (0 :: i64))"

definition worker_line :: "('f \<Rightarrow> string) \<Rightarrow> 'f workerEntry \<Rightarrow> string" where
  "worker_line rate w =
     ''  '' @ pad_right 16 (we_Hostname w) @ '' '' @ pad_left 3 (show_int (we_Threads w)) @ ''t  '' @
     pad_right 8 (state_text (we_State w)) @ ''  '' @ rate (we_KeysPerSec w) @ '' keys/s  '' @
     show_nat (unat (we_RunKeys w)) @ '' run keys'' @ newline"

definition writeDashboardBody ::
  "('f \<Rightarrow> string) \<Rightarrow> string \<Rightarrow> 'f workerEntry list \<Rightarrow> u64 \<Rightarrow> 'f \<Rightarrow> u64 \<Rightarrow> string" where
  "writeDashboardBody rate state workers keys kps hits =
     ''State: '' @ state @ '' | '' @ rate kps @ '' keys/s | '' @ show_nat (unat keys) @ '' keys | Hits: '' @
     show_nat (unat hits) @ '' | Workers: '' @ show_nat (length workers) @ '' ('' @ show_int (thread_total workers) @
     '' threads)'' @ newline @ newline @
     (if length workers = 0 then ''  (no workers connected yet)'' @ newline else '''') @
     concat (map (worker_line rate) workers) @
     (if state = StateLobby
      then newline @ ''Press Enter to start search'' @ ellipsis @ '' (Ctrl+C to stop)'' @ newline
      else newline @ ''Ctrl+C to stop'' @ newline)"

definition renderDashboard ::
  "('f \<Rightarrow> string) \<Rightarrow> string \<Rightarrow> 'f workerEntry list \<Rightarrow> u64 \<Rightarrow> 'f \<Rightarrow> u64 \<Rightarrow> CoordTerm \<Rightarrow> CoordTerm" where
  "renderDashboard rate state workers keys kps hits u =
     (let body = writeDashboardBody rate state workers keys kps hits in
      if ct_quiet u \<or> \<not> ct_tty u then Eventf body u
      else Eventf (escape @ ''[2J'' @ escape @ ''[H'' @ ''btcfind cluster coordinator'' @ newline @
        strings_Repeat rule_light 40 @ newline @ body) u)"

text \<open>One tick of the dashboard: the server as the snapshots find it, and the time of the last lobby line (\<open>None\<close> is the
  zero time).\<close>

definition lobby_line :: "'f workerEntry list \<Rightarrow> string" where
  "lobby_line workers =
     ''[lobby] '' @ show_nat (length workers) @ '' worker(s) connected, '' @ show_int (thread_total workers) @
     '' threads '' @ em_dash @ '' press Enter to start'' @ newline"

definition dashboard_tick :: "('f \<Rightarrow> string) \<Rightarrow> int \<Rightarrow> 'f Server \<times> int option \<Rightarrow> 'f Server \<times> int option" where
  "dashboard_tick rate now st =
     (case st of (s, lastPlainLobby) \<Rightarrow>
        case clusterSnapshot s of (state, keys, kps, hits, started) \<Rightarrow>
          let workers = workerSnapshot s;
              s = (if state = StateRunning \<or> state = StateLobby
                then s\<lparr>sv_ui := renderDashboard rate state workers keys kps hits (sv_ui s)\<rparr> else s)
          in if state = StateLobby \<and> \<not> ct_tty (sv_ui s) \<and>
               (case lastPlainLobby of None \<Rightarrow> True | Some t \<Rightarrow> now - t \<ge> 5 * 1000000000)
             then (s\<lparr>sv_ui := Eventf (lobby_line workers) (sv_ui s)\<rparr>, Some now)
             else (s, lastPlainLobby))"

text \<open>A tick only prints.\<close>

lemma Eventf_Eventf [simp]: "Eventf t (Eventf s u) = Eventf (s @ t) u"
  by (simp add: Eventf_def)

lemma Eventf_nil [simp]: "Eventf '''' u = u"
  by (simp add: Eventf_def)

lemma renderDashboard_prints: "\<exists>t. renderDashboard rate state workers keys kps hits u = Eventf t u"
  by (auto simp: renderDashboard_def Let_def)

lemma dashboard_prints: "\<exists>t. fst (dashboard_tick rate now (s, lpl)) = s\<lparr>sv_ui := Eventf t (sv_ui s)\<rparr>"
proof -
  obtain t where "renderDashboard rate (sv_runState s) (workerSnapshot s) (sv_clusterTotal s) (sv_clusterKPS s)
      (sv_clusterHits s) (sv_ui s) = Eventf t (sv_ui s)"
    by (rule exE [OF renderDashboard_prints])
  moreover have "s = s\<lparr>sv_ui := Eventf '''' (sv_ui s)\<rparr>" by simp
  ultimately show ?thesis
    by (cases "sv_runState s = StateRunning \<or> sv_runState s = StateLobby")
      (auto simp: dashboard_tick_def clusterSnapshot_def Let_def simp del: Eventf_nil)
qed

section \<open>The frame is aligned and too narrow\<close>

lemma rune_count_spaces: "rune_count (replicate n CHR '' '') = n"
  by (induction n) (simp_all add: rune_count_def)

lemma pad_right_width: "rune_count (pad_right w s) = max w (rune_count s)"
  by (simp add: pad_right_def rune_count_spaces)

lemma plain_digits: "\<forall>c \<in> set s. is_digit c \<Longrightarrow> plain s"
  by (auto simp: plain_def is_digit_iff)

lemma plain_show: "plain (show_nat n)" "plain (show_int i)"
proof -
  show "plain (show_nat n)" for n using show_nat_digits by (rule plain_digits)
  then show "plain (show_int i)" by (simp add: show_int_def)
qed

lemma plain_truncate: "plain s \<Longrightarrow> plain (truncate_text s m)"
  by (auto simp: truncate_text_def plain_def dest: in_set_takeD)

lemma truncate_text_length: "length (truncate_text s m) \<le> m"
  by (auto simp: truncate_text_def)

lemma cluster_row_width:
  assumes "plain label" "plain cell" "length label \<le> 10" "length cell \<le> 49"
  shows "rune_count (cluster_row label cell) = 64"
proof -
  have "rune_count bar_double = 1" by (simp add: bar_double_def utf8_def rune_count_def)
  moreover have "rune_count ''  '' = 2" "rune_count '' '' = 1" by (simp_all add: rune_count_def)
  moreover have "rune_count (pad_right 10 label) = 10" "rune_count (pad_right 49 cell) = 49"
    using assms by (simp_all add: pad_right_width rune_count_plain)
  ultimately show ?thesis unfolding cluster_row_def rune_count_append by linarith
qed

lemma key_number_length: "length (show_int (sint (k :: i64))) \<le> 49"
proof -
  have "\<bar>sint k\<bar> \<le> 2 ^ 63" using sint_ge [of k] sint_lt [of k] by simp
  then have "nat \<bar>sint k\<bar> \<le> 2 ^ 63" by (simp add: nat_le_iff)
  also have "(2 :: nat) ^ 63 < 10 ^ 19" by simp
  finally have "nat \<bar>sint k\<bar> < 10 ^ 19" .
  then have "length (show_nat (nat \<bar>sint k\<bar>)) \<le> 19" by (rule length_show_nat) simp
  then show ?thesis by (auto simp: show_int_def split: if_splits)
qed

text \<open>Every row of the frame of a cluster hit has the width of its lines, 64 characters, whatever the worker has sent,
  as long as it is ASCII.\<close>

theorem cluster_frame_aligned:
  assumes "plain address" "plain wif" "plain fid" "plain label"
  shows "\<forall>row \<in> set (cluster_rows address wif fid label balanceSats keyIndex). rune_count row = 64"
proof -
  have "rune_count (cluster_row l (truncate_text cell 49)) = 64" if "plain cell" "plain l" "length l \<le> 10" for l cell
    by (rule cluster_row_width [OF that(2) plain_truncate [OF that(1)] that(3) truncate_text_length])
  moreover have "rune_count (cluster_row ''Key #'' (show_int (sint keyIndex))) = 64"
    by (rule cluster_row_width) (simp_all add: plain_show key_number_length)
  ultimately show ?thesis using assms by (auto simp: cluster_rows_def plain_show)
qed

text \<open>The WIF of a compressed main-net key, 52 characters, is not shown whole.\<close>

theorem cluster_frame_cuts_wif:
  assumes "length wif = 52"
  shows "truncate_text wif 49 = take 46 wif @ ''...''"
  using assms by (simp add: truncate_text_def)

section \<open>The dashboard counts\<close>

text \<open>The total does not depend on the order of the workers, which the map leaves open.\<close>

lemma thread_total_sum: "thread_total ws = sint (word_of_int (sum_list (map we_Threads ws)) :: i64)"
proof -
  have "fold (\<lambda>w n. n + word_of_int (we_Threads w)) ws n = n + (word_of_int (sum_list (map we_Threads ws)) :: i64)" for n
    by (induction ws arbitrary: n) (simp_all add: add.assoc)
  then show ?thesis by (simp add: thread_total_def)
qed

end
