(* ===== verification/CoordRun.thy ===== *)
theory CoordRun
  imports CoordUI
begin

text \<open>
  coordinator/server.go, \<open>Run\<close> after its start: the main goroutine, the HTTP server, the pruner, the dashboard and the
  reader of the terminal, as events in the order in which they happen. A step that is not possible in a state has
  the result \<open>None\<close>.
\<close>

section \<open>The running coordinator\<close>

text \<open>Where the main goroutine is: the pause after the listener is spawned, \<open>waitEnterOrWorkers\<close>, the \<open>select\<close> for
  the end, the two seconds of stopping, the shutdown of the server, after the return.\<close>

datatype coord_pc = PcPause | PcLobby | PcSearching | PcStopping | PcShutdown | PcReturned

fun pc_phase :: "coord_pc \<Rightarrow> phase" where
  "pc_phase PcPause = PhWaiting"
| "pc_phase PcLobby = PhWaiting"
| "pc_phase PcSearching = PhSearching"
| "pc_phase PcStopping = PhStopping"
| "pc_phase PcShutdown = PhEnded"
| "pc_phase PcReturned = PhEnded"

text \<open>\<open>co_spawned\<close>: the listener's goroutine has begun; \<open>co_listening\<close>: it serves; \<open>co_done\<close>: the context is cancelled;
  \<open>co_signal\<close>: a signal waits in the channel; \<open>co_entered\<close>: a line has been read; \<open>co_pruner\<close>, \<open>co_board\<close>: these
  goroutines run.\<close>

record 'f coord =
  co_pc :: coord_pc
  co_api :: "'f api_state"
  co_spawned :: bool
  co_listening :: bool
  co_done :: bool
  co_signal :: bool
  co_entered :: bool
  co_pruner :: bool
  co_board :: bool
  co_lastPlainLobby :: "int option"

definition co_init :: "'f Server \<times> fs \<Rightarrow> 'f coord" where
  "co_init st = \<lparr>co_pc = PcPause, co_api = mountAPI st, co_spawned = False, co_listening = False, co_done = False,
     co_signal = False, co_entered = False, co_pruner = False, co_board = False, co_lastPlainLobby = None\<rparr>"

definition on_server :: "('f Server \<Rightarrow> 'f Server) \<Rightarrow> 'f coord \<Rightarrow> 'f coord" where
  "on_server f c = c\<lparr>co_api := (co_api c)\<lparr>ap_server := f (ap_server (co_api c))\<rparr>\<rparr>"

definition saying :: "(CoordTerm \<Rightarrow> CoordTerm) \<Rightarrow> 'f Server \<Rightarrow> 'f Server" where
  "saying t s = s\<lparr>sv_ui := t (sv_ui s)\<rparr>"

section \<open>Its events\<close>

text \<open>\<open>EvMain now\<close> is a turn of the main goroutine; the other events are those of the goroutines beside it and what
  comes from outside.\<close>

datatype coord_event =
    EvMain int
  | EvListen
  | EvServerError string
  | EvRequest req_env http_request
  | EvPrune int
  | EvPrunerEnds
  | EvDashboard int
  | EvDashboardEnds
  | EvEnter
  | EvCancel
  | EvSignal

definition announce_start :: "'f float_lib \<Rightarrow> int \<Rightarrow> 'f Server \<Rightarrow> 'f Server" where
  "announce_start F now s =
     (let workers = workerSnapshot s;
          s = (if length workers = 0
            then saying (Eventf (''Warning: starting with 0 workers connected.'' @ newline)) s else s);
          s = startRun F now s
      in saying (Eventf (''Search started ('' @ show_nat (length workers) @ '' worker(s)).'' @ newline)) s)"

definition run_ended :: "('f \<Rightarrow> string) \<Rightarrow> 'f Server \<Rightarrow> string" where
  "run_ended rate s =
     (case clusterSnapshot s of (state, keys, kps, hits, started) \<Rightarrow>
        ''Run ended '' @ em_dash @ '' '' @ show_nat (unat keys) @ '' keys tried, '' @ rate kps @ '' keys/s, '' @
        show_nat (unat hits) @ '' hits'' @ newline)"

definition stopping_text :: string where
  "stopping_text = newline @ ''Stopping cluster'' @ ellipsis @ newline"

text \<open>A turn of the main goroutine. \<open>stdinTTY\<close> says that there is somebody to press Enter.\<close>

definition main_turn :: "'f float_lib \<Rightarrow> ('f \<Rightarrow> string) \<Rightarrow> bool \<Rightarrow> int \<Rightarrow> 'f coord \<Rightarrow> 'f coord option" where
  "main_turn F rate stdinTTY now c =
     (let cfg = sv_cfg (ap_server (co_api c)) in
      case co_pc c of
        PcPause \<Rightarrow>
          let c = c\<lparr>co_pruner := True, co_board := True\<rparr> in
          if \<not> cc_AutoStart cfg \<and> stdinTTY
          then Some ((on_server (saying (Eventf (''Press Enter to start search once workers have connected.'' @ newline))) c)
            \<lparr>co_pc := PcLobby\<rparr>)
          else Some ((on_server (startRun F now) c)\<lparr>co_pc := PcSearching\<rparr>)
      | PcLobby \<Rightarrow>
          if co_entered c then Some ((on_server (announce_start F now) c)\<lparr>co_pc := PcSearching\<rparr>) else Some c
      | PcSearching \<Rightarrow>
          if co_done c \<or> co_signal c
          then Some ((on_server (\<lambda>s. saying (coord_Infof stopping_text) (stopRun s)) c)
            \<lparr>co_pc := PcStopping\<rparr>)
          else None
      | PcStopping \<Rightarrow> Some ((on_server endRun c)\<lparr>co_pc := PcShutdown\<rparr>)
      | PcShutdown \<Rightarrow>
          Some ((on_server (\<lambda>s. saying (coord_Infof (run_ended rate s)) s) c)\<lparr>co_listening := False, co_pc := PcReturned\<rparr>)
      | PcReturned \<Rightarrow> None)"

text \<open>Signals reach the channel of \<open>Run\<close> only after the lobby, when it is registered. The pruner and the dashboard
  end some time after the context.\<close>

fun coord_step ::
  "'ip net_lib \<Rightarrow> 'f float_lib \<Rightarrow> 'f api_json \<Rightarrow> ('f \<Rightarrow> string) \<Rightarrow> bool \<Rightarrow> coord_event \<Rightarrow> 'f coord \<Rightarrow> 'f coord option" where
  "coord_step N F J rate tty (EvMain now) c = main_turn F rate tty now c"
| "coord_step N F J rate tty EvListen c =
     (if co_spawned c \<or> co_pc c = PcReturned then None
      else Some ((on_server (\<lambda>s. if cc_Insecure (sv_cfg s)
        then saying (coord_Warnf (''running without TLS (--insecure)'' @ newline)) s else s) c)
        \<lparr>co_spawned := True, co_listening := True\<rparr>))"
| "coord_step N F J rate tty (EvServerError msg) c =
     (if co_listening c
      then Some ((on_server (saying (coord_Warnf (''server error: '' @ msg @ newline))) c)\<lparr>co_listening := False\<rparr>)
      else None)"
| "coord_step N F J rate tty (EvRequest env r) c =
     (if co_listening c then Some (c\<lparr>co_api := snd (serve N F J env r (co_api c))\<rparr>) else None)"
| "coord_step N F J rate tty (EvPrune now) c =
     (if co_pruner c \<and> co_pc c \<noteq> PcReturned then Some (on_server (pruneStale now) c) else None)"
| "coord_step N F J rate tty EvPrunerEnds c =
     (if co_pruner c \<and> co_done c \<and> co_pc c \<noteq> PcReturned then Some (c\<lparr>co_pruner := False\<rparr>) else None)"
| "coord_step N F J rate tty (EvDashboard now) c =
     (if co_board c \<and> co_pc c \<noteq> PcReturned then
        (case dashboard_tick rate now (ap_server (co_api c), co_lastPlainLobby c) of
           (s, lpl) \<Rightarrow> Some ((on_server (\<lambda>_. s) c)\<lparr>co_lastPlainLobby := lpl\<rparr>))
      else None)"
| "coord_step N F J rate tty EvDashboardEnds c =
     (if co_board c \<and> co_done c \<and> co_pc c \<noteq> PcReturned then Some (c\<lparr>co_board := False\<rparr>) else None)"
| "coord_step N F J rate tty EvEnter c = (if co_pc c = PcLobby then Some (c\<lparr>co_entered := True\<rparr>) else None)"
| "coord_step N F J rate tty EvCancel c = (if co_pc c = PcReturned then None else Some (c\<lparr>co_done := True\<rparr>))"
| "coord_step N F J rate tty EvSignal c = (if co_pc c = PcSearching then Some (c\<lparr>co_signal := True\<rparr>) else None)"

fun coord_run ::
  "'ip net_lib \<Rightarrow> 'f float_lib \<Rightarrow> 'f api_json \<Rightarrow> ('f \<Rightarrow> string) \<Rightarrow> bool \<Rightarrow> coord_event list \<Rightarrow> 'f coord \<Rightarrow> 'f coord option" where
  "coord_run N F J rate tty [] c = Some c"
| "coord_run N F J rate tty (ev # evs) c =
     (case coord_step N F J rate tty ev c of None \<Rightarrow> None | Some c \<Rightarrow> coord_run N F J rate tty evs c)"

text \<open>The whole of \<open>Run\<close>: the start, and the events until now; \<open>None\<close> when they cannot happen. A run that has
  returned leaves no cache mapped.\<close>

definition coordinator_Run ::
  "'ip net_lib \<Rightarrow> 'f float_lib \<Rightarrow> 'f api_json \<Rightarrow> ('f \<Rightarrow> string) \<Rightarrow> 'bf rep_text \<Rightarrow> addr_lib \<Rightarrow> 'bf bloom_lib \<Rightarrow> bool \<Rightarrow>
     start_env \<Rightarrow> CoordConfig \<Rightarrow> coord_event list \<Rightarrow> fs \<Rightarrow> mapping \<Rightarrow> (start_error + 'f coord option) \<times> mapping" where
  "coordinator_Run N F J rate X L B tty env cfg evs fs act =
     (case start_coordinator F X L B env cfg fs act of
        (Inl e, fs, act) \<Rightarrow> (Inl e, act)
      | (Inr (s, sets, tls), fs, act) \<Rightarrow>
          let c = coord_run N F J rate tty evs (co_init (s, fs)) in
          (Inr c, case c of Some c \<Rightarrow> if co_pc c = PcReturned then UnmapActive act else act | None \<Rightarrow> act))"

section \<open>A run refines the phases of the coordinator\<close>

definition co_view :: "'f coord \<Rightarrow> phase \<times> 'f Server \<times> fs" where
  "co_view c = (pc_phase (co_pc c), ap_server (co_api c), ap_fs (co_api c))"

lemma on_server_simps [simp]:
  "co_pc (on_server f c) = co_pc c" "ap_server (co_api (on_server f c)) = f (ap_server (co_api c))"
  "ap_fs (co_api (on_server f c)) = ap_fs (co_api c)" "co_done (on_server f c) = co_done c"
  "co_signal (on_server f c) = co_signal c" "co_entered (on_server f c) = co_entered c"
  "co_listening (on_server f c) = co_listening c" "co_pruner (on_server f c) = co_pruner c"
  "co_board (on_server f c) = co_board c" "co_spawned (on_server f c) = co_spawned c"
  "co_lastPlainLobby (on_server f c) = co_lastPlainLobby c"
  by (simp_all add: on_server_def)

lemma say_step: "(run_step F)\<^sup>*\<^sup>* (ph, s, fs) (ph, saying (Eventf t) s, fs)"
  using run_step.api [of "OpPrint t" F ph "(s, fs)"] by (simp add: saying_def)

lemma coord_text:
  "\<exists>t. coord_Infof text u = Eventf t u" "\<exists>t. coord_Warnf text u = Eventf t u"
  by (auto simp: coord_Infof_def coord_Warnf_def intro: exI [of _ "''''"])

lemma say_text_step:
  "(run_step F)\<^sup>*\<^sup>* (ph, s, fs) (ph, saying (coord_Infof text) s, fs)"
  "(run_step F)\<^sup>*\<^sup>* (ph, s, fs) (ph, saying (coord_Warnf text) s, fs)"
proof -
  obtain t t' where "coord_Infof text (sv_ui s) = Eventf t (sv_ui s)" "coord_Warnf text (sv_ui s) = Eventf t' (sv_ui s)"
    using coord_text by meson
  then show "(run_step F)\<^sup>*\<^sup>* (ph, s, fs) (ph, saying (coord_Infof text) s, fs)"
    "(run_step F)\<^sup>*\<^sup>* (ph, s, fs) (ph, saying (coord_Warnf text) s, fs)"
    using say_step [of F ph s fs t] say_step [of F ph s fs t'] by (simp_all add: saying_def)
qed

lemma start_step: "(run_step F)\<^sup>*\<^sup>* (PhWaiting, s, fs) (PhSearching, startRun F now s, fs)"
  using run_step.begin_search [of F "(s, fs)" now] by simp

lemma announce_step: "(run_step F)\<^sup>*\<^sup>* (PhWaiting, s, fs) (PhSearching, announce_start F now s, fs)"
proof -
  let ?s = "if workerSnapshot s = [] then saying (Eventf (''Warning: starting with 0 workers connected.'' @ newline)) s else s"
  have 1: "(run_step F)\<^sup>*\<^sup>* (PhWaiting, s, fs) (PhWaiting, ?s, fs)" by (simp add: say_step)
  have 2: "(run_step F)\<^sup>*\<^sup>* (PhSearching, startRun F now ?s, fs) (PhSearching, announce_start F now s, fs)"
    unfolding announce_start_def Let_def length_0_conv by (rule say_step)
  show ?thesis by (rule rtranclp_trans [OF 1 rtranclp_trans [OF start_step 2]])
qed

lemma serve_step:
  "(run_step F)\<^sup>*\<^sup>* (ph, ap_server a, ap_fs a)
    (ph, ap_server (snd (serve N F J env r a)), ap_fs (snd (serve N F J env r a)))"
  using serve_acts [of F a N J env r] run_step.api [OF request_is_api, of _ F ph "(ap_server a, ap_fs a)"]
  by (auto simp: acts_def)

lemma main_turn_refines:
  assumes "main_turn F rate tty now c = Some c'"
  shows "(run_step F)\<^sup>*\<^sup>* (co_view c) (co_view c')"
proof -
  let ?s = "ap_server (co_api c)" and ?fs = "ap_fs (co_api c)"
  let ?stopping = "coord_Infof stopping_text"
  have "run_step F (PhSearching, ?s, ?fs) (PhStopping, stopRun ?s, ?fs)"
    using run_step.stop_search [of F "(?s, ?fs)"] by simp
  then have stop: "(run_step F)\<^sup>*\<^sup>* (PhSearching, ?s, ?fs) (PhStopping, saying ?stopping (stopRun ?s), ?fs)"
    by (rule converse_rtranclp_into_rtranclp [OF _ say_text_step(1)])
  have ended: "(run_step F)\<^sup>*\<^sup>* (PhStopping, ?s, ?fs) (PhEnded, endRun ?s, ?fs)"
    using run_step.end_search [of F "(?s, ?fs)"] by simp
  show ?thesis
    using assms
    by (cases "co_pc c")
      (auto simp: main_turn_def co_view_def Let_def say_step start_step announce_step say_text_step(1) stop ended
        split: if_splits)
qed

lemma coord_step_refines:
  assumes "coord_step N F J rate tty ev c = Some c'"
  shows "(run_step F)\<^sup>*\<^sup>* (co_view c) (co_view c')"
proof (cases ev)
  case (EvMain now)
  then show ?thesis using assms main_turn_refines by simp
next
  case (EvRequest env r)
  then show ?thesis using assms by (auto simp: co_view_def serve_step split: if_splits)
next
  case (EvPrune now)
  then show ?thesis
    using assms run_step.api [of "OpPrune now" F "pc_phase (co_pc c)" "(ap_server (co_api c), ap_fs (co_api c))"]
    by (auto simp: co_view_def split: if_splits)
next
  case (EvDashboard now)
  obtain t where "fst (dashboard_tick rate now (ap_server (co_api c), co_lastPlainLobby c)) =
      saying (Eventf t) (ap_server (co_api c))"
    unfolding saying_def by (rule exE [OF dashboard_prints])
  then show ?thesis
    using EvDashboard assms by (auto simp: co_view_def case_prod_unfold say_step split: if_splits)
next
  case EvListen
  then show ?thesis using assms by (auto simp: co_view_def say_text_step(2) split: if_splits)
next
  case (EvServerError msg)
  then show ?thesis using assms by (auto simp: co_view_def say_text_step(2) split: if_splits)
qed (use assms in \<open>auto simp: co_view_def split: if_splits\<close>)

lemma coord_run_refines:
  "coord_run N F J rate tty evs c = Some c' \<Longrightarrow> (run_step F)\<^sup>*\<^sup>* (co_view c) (co_view c')"
proof (induction evs arbitrary: c)
  case (Cons ev evs)
  then obtain c1 where "coord_step N F J rate tty ev c = Some c1" "coord_run N F J rate tty evs c1 = Some c'"
    by (auto split: option.splits)
  then show ?case by (blast intro: rtranclp_trans coord_step_refines Cons.IH)
qed simp

lemma coord_run_append:
  "coord_run N F J rate tty (evs @ evs') c =
    Option.bind (coord_run N F J rate tty evs c) (coord_run N F J rate tty evs')"
  by (induction evs arbitrary: c) (auto split: option.split)

lemma coord_run_then:
  "coord_run N F J rate tty evs c = Some c1 \<Longrightarrow> coord_run N F J rate tty evs' c1 = Some c2 \<Longrightarrow>
    coord_run N F J rate tty (evs @ evs') c = Some c2"
  by (simp add: coord_run_append)

section \<open>Its states are reachable\<close>

lemma run_step_reachable: "run_step F x y \<Longrightarrow> reachable F cfg etag (snd x) \<Longrightarrow> reachable F cfg etag (snd y)"
  by (induction rule: run_step.induct) (auto intro: reachable.step)

lemma run_steps_reachable: "(run_step F)\<^sup>*\<^sup>* x y \<Longrightarrow> reachable F cfg etag (snd x) \<Longrightarrow> reachable F cfg etag (snd y)"
  by (induction rule: rtranclp_induct) (auto intro: run_step_reachable)

lemma started_reachable:
  assumes "start_coordinator F X L B env cfg fs act = (Inr (s, sets, tls), fs1, act1)"
    and "coord_run N F J rate tty evs (co_init (s, fs1)) = Some c"
  obtains etag where "reachable F (with_defaults (se_token env) cfg) etag (ap_server (co_api c), ap_fs (co_api c))"
    "rc_CacheETag (sv_runConfig s) = etag"
proof -
  obtain etag ui where s: "s = setRunConfig etag ((NewServer F (with_defaults (se_token env) cfg) ui)\<lparr>sv_cachePath :=
      CachePath (cc_MinBalance (with_defaults (se_token env) cfg))\<rparr>)"
    using start_coordinator_Inr [OF assms(1)] by metis
  then have "reachable F (with_defaults (se_token env) cfg) etag (snd (co_view (co_init (s, fs1))))"
    by (simp add: co_view_def co_init_def mountAPI_def reachable.init)
  from run_steps_reachable [OF coord_run_refines [OF assms(2)] this]
  have "reachable F (with_defaults (se_token env) cfg) etag (ap_server (co_api c), ap_fs (co_api c))"
    by (simp add: co_view_def)
  then show thesis by (rule that) (simp add: s setRunConfig_def)
qed

lemma co_init_view: "co_view (co_init (s, fs)) = (PhWaiting, s, fs)"
  by (simp add: co_view_def co_init_def mountAPI_def)

text \<open>What is served at \<open>/run\<close> is the phase of the main goroutine.\<close>

lemma started_state:
  assumes "start_coordinator F X L B env cfg fs act = (Inr (s, sets, tls), fs1, act1)"
    and "coord_run N F J rate tty evs (co_init (s, fs1)) = Some c"
  shows "sv_runState (ap_server (co_api c)) = phase_name (pc_phase (co_pc c))"
proof -
  have "sv_runState s = StateLobby"
    using start_coordinator_Inr [OF assms(1)] by (metis (no_types, lifting) NewServer_def Server.select_convs(4)
      Server.surjective Server.update_convs(5,6) setRunConfig_def)
  then have "sv_runState (fst (snd (co_view (co_init (s, fs1))))) = phase_name (fst (co_view (co_init (s, fs1))))"
    by (simp add: co_init_view)
  from phase_state_steps [OF coord_run_refines [OF assms(2)] this] show ?thesis by (simp add: co_view_def)
qed

text \<open>C15. However the requests, the pruner, the dashboard, the terminal and the signals interleave with the main
  goroutine of a coordinator that has started, the state it serves at \<open>/run\<close> is the phase its main goroutine is in,
  the phase only moves forward, and the invariant of the coordinator holds, with the configuration and the cache
  tag of the start.\<close>

theorem coordinator_run_phases:
  assumes "start_coordinator F X L B env cfg fs act = (Inr (s, sets, tls), fs1, act1)"
    and "coord_run N F J rate tty evs (co_init (s, fs1)) = Some c" "coord_run N F J rate tty evs' c = Some c'"
  shows "rr_State (runStatus (ap_server (co_api c))) = phase_name (pc_phase (co_pc c)) \<and>
    rr_State (runStatus (ap_server (co_api c'))) = phase_name (pc_phase (co_pc c')) \<and>
    phase_rank (pc_phase (co_pc c)) \<le> phase_rank (pc_phase (co_pc c')) \<and>
    server_ok (with_defaults (se_token env) cfg) (rc_CacheETag (sv_runConfig s)) (ap_server (co_api c'))"
proof -
  have run: "coord_run N F J rate tty (evs @ evs') (co_init (s, fs1)) = Some c'"
    using assms(2,3) by (simp add: coord_run_append)
  obtain etag where "reachable F (with_defaults (se_token env) cfg) etag (ap_server (co_api c'), ap_fs (co_api c'))"
      "rc_CacheETag (sv_runConfig s) = etag"
    using started_reachable [OF assms(1) run] by metis
  moreover have "sv_runState (fst (snd (co_view c))) = phase_name (fst (co_view c))"
    using started_state [OF assms(1,2)] by (simp add: co_view_def)
  ultimately show ?thesis
    using phase_state_steps [OF coord_run_refines [OF assms(3)]] started_state [OF assms(1,2)]
      started_state [OF assms(1) run] reachable_ok
    by (fastforce simp: co_view_def runStatus_def)
qed

section \<open>When it ends\<close>

fun pc_rank :: "coord_pc \<Rightarrow> nat" where
  "pc_rank PcPause = 0"
| "pc_rank PcLobby = 1"
| "pc_rank PcSearching = 2"
| "pc_rank PcStopping = 3"
| "pc_rank PcShutdown = 4"
| "pc_rank PcReturned = 5"

fun is_main :: "coord_event \<Rightarrow> bool" where
  "is_main (EvMain now) = True"
| "is_main ev = False"

lemma ending_step:
  assumes "coord_step N F J rate tty ev c = Some c'" "co_done c" "2 \<le> pc_rank (co_pc c)"
  shows "co_done c' \<and> pc_rank (co_pc c') = pc_rank (co_pc c) + (if is_main ev then 1 else 0)"
  using assms
  by (cases ev; cases "co_pc c") (auto simp: main_turn_def Let_def split: if_splits prod.splits)

lemma ending_run:
  "coord_run N F J rate tty evs c = Some c' \<Longrightarrow> co_done c \<Longrightarrow> 2 \<le> pc_rank (co_pc c) \<Longrightarrow>
    co_done c' \<and> pc_rank (co_pc c') = pc_rank (co_pc c) + length (filter is_main evs)"
proof (induction evs arbitrary: c)
  case (Cons ev evs)
  then obtain c1 where "coord_step N F J rate tty ev c = Some c1" "coord_run N F J rate tty evs c1 = Some c'"
    by (auto split: option.splits)
  then show ?case using ending_step Cons by fastforce
qed simp

text \<open>A coordinator that has returned serves nobody.\<close>

lemma returned_silent:
  "coord_run N F J rate tty evs c = Some c' \<Longrightarrow> (co_pc c = PcReturned \<longrightarrow> \<not> co_listening c) \<Longrightarrow>
    co_pc c' = PcReturned \<longrightarrow> \<not> co_listening c'"
proof (induction evs arbitrary: c)
  case (Cons ev evs)
  then obtain c1 where c1: "coord_step N F J rate tty ev c = Some c1" "coord_run N F J rate tty evs c1 = Some c'"
    by (auto split: option.splits)
  have "co_pc c1 = PcReturned \<longrightarrow> \<not> co_listening c1"
    using c1(1) Cons.prems(2) by (cases ev) (auto simp: main_turn_def Let_def split: if_splits prod.splits coord_pc.splits)
  then show ?case using Cons.IH [OF c1(2)] by blast
qed simp

text \<open>C27. A search of the cluster ends. When the search of a coordinator that has started has begun (it is out of the lobby) and
  the context is cancelled, the next three turns of the main goroutine make it serve \<open>stopping\<close>, then \<open>ended\<close>, and
  return, whatever requests and ticks come in between; until then a turn can always be taken; after the return the
  listener is closed and nothing happens any more. In the lobby this is not so (\<open>lobby_ignores_interrupt\<close>).\<close>

theorem coordinator_ends:
  assumes "start_coordinator F X L B env cfg fs act = (Inr (s, sets, tls), fs1, act1)"
    and "coord_run N F J rate tty evs0 (co_init (s, fs1)) = Some c" "coord_run N F J rate tty evs c = Some c'"
    and "co_done c" "2 \<le> pc_rank (co_pc c)" "k = pc_rank (co_pc c) + length (filter is_main evs)"
  shows "pc_rank (co_pc c') = k \<and> (co_pc c' = PcReturned \<longleftrightarrow> k = 5) \<and>
    sv_runState (ap_server (co_api c')) = (if k = 2 then StateRunning else if k = 3 then StateStopping else StateEnded) \<and>
    (k < 5 \<longrightarrow> (\<forall>now. coord_step N F J rate tty (EvMain now) c' \<noteq> None)) \<and>
    (k = 5 \<longrightarrow> \<not> co_listening c' \<and> (\<forall>ev. coord_step N F J rate tty ev c' = None))"
proof -
  have r: "co_done c'" "pc_rank (co_pc c') = k" "2 \<le> k" using ending_run [OF assms(3-5)] assms(5,6) by simp_all
  have run: "coord_run N F J rate tty (evs0 @ evs) (co_init (s, fs1)) = Some c'" by (rule coord_run_then [OF assms(2,3)])
  have "co_pc c' = PcReturned \<longrightarrow> \<not> co_listening c'"
    by (rule returned_silent [OF run]) (simp add: co_init_def)
  moreover have "coord_step N F J rate tty ev c' = None" if "co_pc c' = PcReturned" "\<not> co_listening c'" for ev
    using that by (cases ev) (simp_all add: main_turn_def Let_def)
  ultimately show ?thesis
    using r started_state [OF assms(1) run] by (cases "co_pc c'") (auto simp: main_turn_def Let_def)
qed

text \<open>A coordinator on a terminal cannot be stopped in the lobby: without a line of input it stays there, although the
  dashboard offers Ctrl+C and the context may be cancelled.\<close>

theorem lobby_ignores_interrupt:
  assumes "coord_run N F J rate tty evs c = Some c'" "co_pc c = PcLobby" "\<not> co_entered c" "EvEnter \<notin> set evs"
  shows "co_pc c' = PcLobby \<and> (EvCancel \<in> set evs \<longrightarrow> co_done c')"
proof -
  have step: "co_pc d' = PcLobby \<and> \<not> co_entered d' \<and> (co_done d' \<longleftrightarrow> co_done d \<or> ev = EvCancel)"
    if "coord_step N F J rate tty ev d = Some d'" "co_pc d = PcLobby" "\<not> co_entered d" "ev \<noteq> EvEnter" for ev d d'
    using that by (cases ev) (auto simp: main_turn_def split: if_splits prod.splits)
  have "co_pc c' = PcLobby \<and> (co_done c' \<longleftrightarrow> co_done c \<or> EvCancel \<in> set evs)"
    using assms
  proof (induction evs arbitrary: c)
    case (Cons ev evs)
    then obtain c1 where c1: "coord_step N F J rate tty ev c = Some c1" "coord_run N F J rate tty evs c1 = Some c'"
      by (auto split: option.splits)
    show ?case using step [OF c1(1)] Cons.IH [OF c1(2)] Cons.prems(2-4) by auto
  qed simp
  then show ?thesis by simp
qed

text \<open>A listener that cannot listen, or fails later, is only a warning: the coordinator goes on, and no request reaches
  it any more.\<close>

theorem lost_listener:
  assumes "coord_run N F J rate tty evs c = Some c'" "co_spawned c" "\<not> co_listening c"
  shows "\<not> co_listening c' \<and> (\<forall>env r. EvRequest env r \<notin> set evs)"
proof -
  have step: "co_spawned d' \<and> \<not> co_listening d' \<and> (\<forall>env r. ev \<noteq> EvRequest env r)"
    if "coord_step N F J rate tty ev d = Some d'" "co_spawned d" "\<not> co_listening d" for ev d d'
    using that by (cases ev) (auto simp: main_turn_def Let_def split: if_splits prod.splits coord_pc.splits)
  show ?thesis
    using assms
  proof (induction evs arbitrary: c)
    case (Cons ev evs)
    then obtain c1 where c1: "coord_step N F J rate tty ev c = Some c1" "coord_run N F J rate tty evs c1 = Some c'"
      by (auto split: option.splits)
    show ?case using step [OF c1(1)] Cons.IH [OF c1(2)] Cons.prems(2-3) by auto
  qed simp
qed

end
