(* ===== verification/CoordLog.thy ===== *)
theory CoordLog
  imports CoordRun
begin

text \<open>
  What a run of the coordinator counts and keeps: the keys and hits of its last line, and the hits in wallets.txt.
\<close>

section \<open>What one request counts\<close>

text \<open>The keys a request reports, when its worker is known, and whether it reports a new hit that is logged.\<close>

definition request_keys ::
  "'ip net_lib \<Rightarrow> 'f float_lib \<Rightarrow> 'f api_json \<Rightarrow> req_env \<Rightarrow> http_request \<Rightarrow> 'f api_state \<Rightarrow> u64" where
  "request_keys N F J env r a =
     (if hr_Path r = ''/api/v1/stats'' \<and> rs_Code (fst (serve N F J env r a)) = StatusNoContent then
        (case aj_stats J (hr_Body r) of
           Some req \<Rightarrow> if map_of (sv_workers (ap_server a)) (sq_WorkerID req) = None then 0 else sq_KeysTriedDelta req
         | None \<Rightarrow> 0)
      else 0)"

definition request_hits ::
  "'ip net_lib \<Rightarrow> 'f float_lib \<Rightarrow> 'f api_json \<Rightarrow> req_env \<Rightarrow> http_request \<Rightarrow> 'f api_state \<Rightarrow> u64" where
  "request_hits N F J env r a =
     (if hr_Path r = ''/api/v1/hit'' \<and> rs_Code (fst (serve N F J env r a)) = StatusNoContent then
        (case aj_hit J (hr_Body r) of
           Some req \<Rightarrow> if hq_Address req \<noteq> '''' \<and> hq_Address req \<in> set (sv_hitAddresses (ap_server a)) then 0 else 1
         | None \<Rightarrow> 0)
      else 0)"

text \<open>The routes by the whole path.\<close>

lemma api_path: "HasPrefix p ''/api/v1/'' \<Longrightarrow> TrimPrefix p ''/api/v1'' = q \<longleftrightarrow> p = ''/api/v1'' @ q"
proof -
  assume "HasPrefix p ''/api/v1/''"
  then obtain t where p: "p = ''/api/v1'' @ t" by (auto simp: HasPrefix_iff)
  have "TrimPrefix p ''/api/v1'' = t" unfolding p by (rule TrimPrefix_append)
  then show ?thesis using p by auto
qed

text \<open>A served request, by cases: it leaves the server as it is, or its handler has run.\<close>

lemma serve_cases:
  obtains (same) "ap_server (snd (serve N F J env r a)) = ap_server a" "ap_fs (snd (serve N F J env r a)) = ap_fs a"
      "hr_Path r \<in> set [''/api/v1/stats'', ''/api/v1/hit''] \<Longrightarrow> rs_Code (fst (serve N F J env r a)) \<noteq> StatusNoContent"
  | (register) "hr_Path r = ''/api/v1/register''" "ap_fs (snd (serve N F J env r a)) = ap_fs a"
      "ap_server (snd (serve N F J env r a)) = snd (handleRegister F J env r (ap_server a))"
  | (heartbeat) "hr_Path r = ''/api/v1/heartbeat''" "ap_fs (snd (serve N F J env r a)) = ap_fs a"
      "ap_server (snd (serve N F J env r a)) = snd (handleHeartbeat J env r (ap_server a))"
  | (stats) "hr_Path r = ''/api/v1/stats''" "ap_fs (snd (serve N F J env r a)) = ap_fs a"
      "fst (serve N F J env r a) = fst (handleStats F J env r (ap_server a))"
      "ap_server (snd (serve N F J env r a)) = snd (handleStats F J env r (ap_server a))"
  | (hit) "hr_Path r = ''/api/v1/hit''"
      "fst (serve N F J env r a) = fst (handleHitHTTP J env r (ap_server a, ap_fs a))"
      "(ap_server (snd (serve N F J env r a)), ap_fs (snd (serve N F J env r a))) =
        snd (handleHitHTTP J env r (ap_server a, ap_fs a))"
proof (cases "authorized (cc_AuthToken (sv_cfg (ap_server a))) r \<and> HasPrefix (hr_Path r) ''/api/v1/''")
  case False
  have "hr_Path r \<in> set [''/api/v1/stats'', ''/api/v1/hit''] \<Longrightarrow> HasPrefix (hr_Path r) ''/api/v1/''"
    by (auto simp: HasPrefix_def)
  with False have "ap_server (snd (serve N F J env r a)) = ap_server a" "ap_fs (snd (serve N F J env r a)) = ap_fs a"
      "hr_Path r \<in> set [''/api/v1/stats'', ''/api/v1/hit''] \<Longrightarrow> rs_Code (fst (serve N F J env r a)) \<noteq> StatusNoContent"
    using serve_refused [of a r N F J env] refusal_code [of r "cc_AuthToken (sv_cfg (ap_server a))"]
    by (auto simp: serve_def StatusNoContent_def)
  then show thesis by (rule same)
next
  case True
  let ?p = "TrimPrefix (hr_Path r) ''/api/v1''"
  have health: "hr_Path r \<noteq> ''/health''" using True by (auto simp: HasPrefix_iff)
  have serve: "serve N F J env r a = api_routes N F J env r ?p a"
    using True health by (simp add: serve_def bearerAuth_cases authorized_def)
  note path = api_path [OF conjunct2 [OF True]]
  let ?limit = "rateLimit N (cc_AllowCIDR (sv_cfg (ap_server a))) (qe_now env) (hr_ForwardedFor r) (hr_RemoteAddr r)"
  obtain reg rl1 cache rl2 api rl3 where limits: "?limit (ap_reg a) = (reg, rl1)" "?limit (ap_cache a) = (cache, rl2)"
      "?limit (ap_api a) = (api, rl3)"
    by (metis prod.collapse)
  note defs = Let_def serve api_routes_def limits case_prod_unfold too_many_def http_Error_def status_defs
  consider "?p = ''/register''" | "?p = ''/cache''" | "?p = ''/heartbeat''" | "?p = ''/run''" | "?p = ''/stats''"
    | "?p = ''/hit''" | "?p \<notin> set [''/register'', ''/cache'', ''/heartbeat'', ''/run'', ''/stats'', ''/hit'']" by auto
  then show thesis
  proof cases
    case 1
    then have "hr_Path r = ''/api/v1/register''" using path by simp
    with 1 show thesis by (cases reg) (rule register, simp_all add: defs, rule same, simp_all add: defs)
  next
    case 2
    then have "hr_Path r = ''/api/v1/cache''" using path by simp
    with 2 show thesis by (cases cache; intro same) (simp_all add: defs)
  next
    case 3
    then have "hr_Path r = ''/api/v1/heartbeat''" using path by simp
    with 3 show thesis by (cases api) (rule heartbeat, simp_all add: defs, rule same, simp_all add: defs)
  next
    case 4
    then have "hr_Path r = ''/api/v1/run''" using path by simp
    with 4 show thesis by (cases api; intro same) (simp_all add: defs)
  next
    case 5
    then have p: "hr_Path r = ''/api/v1/stats''" using path by simp
    with 5 show thesis by (cases api) (rule stats, simp_all add: defs, rule same, simp_all add: defs)
  next
    case 6
    then have p: "hr_Path r = ''/api/v1/hit''" using path by simp
    with 6 show thesis by (cases api) (rule hit, simp_all add: defs, rule same, simp_all add: defs)
  next
    case 7
    then have "hr_Path r \<notin> set [''/api/v1/stats'', ''/api/v1/hit'']" using path by auto
    with 7 show thesis by (intro same) (simp_all add: defs)
  qed
qed

lemma handleHit_counts:
  "handleHit fault now stamp req (s, fs) = (e, s', fs') \<Longrightarrow> sv_clusterTotal s' = sv_clusterTotal s \<and>
    sv_clusterHits s' = sv_clusterHits s +
      (if e = None \<and> \<not> (hq_Address req \<noteq> '''' \<and> hq_Address req \<in> set (sv_hitAddresses s)) then 1 else 0)"
  by (auto simp: handleHit_def Let_def split: prod.splits bool.splits if_splits)

lemma serve_counts:
  "sv_clusterTotal (ap_server (snd (serve N F J env r a))) = sv_clusterTotal (ap_server a) + request_keys N F J env r a"
  "sv_clusterHits (ap_server (snd (serve N F J env r a))) = sv_clusterHits (ap_server a) + request_hits N F J env r a"
proof -
  let ?a' = "snd (serve N F J env r a)"
  have "sv_clusterTotal (ap_server ?a') = sv_clusterTotal (ap_server a) + request_keys N F J env r a \<and>
    sv_clusterHits (ap_server ?a') = sv_clusterHits (ap_server a) + request_hits N F J env r a"
  proof (rule serve_cases [of N F J env r a])
    assume "ap_server ?a' = ap_server a" and "hr_Path r \<in> set [''/api/v1/stats'', ''/api/v1/hit''] \<Longrightarrow>
        rs_Code (fst (serve N F J env r a)) \<noteq> StatusNoContent"
    then show ?thesis by (auto simp: request_keys_def request_hits_def)
  next
    assume "hr_Path r = ''/api/v1/register''" "ap_server ?a' = snd (handleRegister F J env r (ap_server a))"
    then show ?thesis
      by (auto simp: request_keys_def request_hits_def handleRegister_def register_def Let_def split: option.split)
  next
    assume "hr_Path r = ''/api/v1/heartbeat''" "ap_server ?a' = snd (handleHeartbeat J env r (ap_server a))"
    then show ?thesis
      by (auto simp: request_keys_def request_hits_def handleHeartbeat_def heartbeat_def Let_def split: option.split)
  next
    assume "hr_Path r = ''/api/v1/stats''" "fst (serve N F J env r a) = fst (handleStats F J env r (ap_server a))"
      "ap_server ?a' = snd (handleStats F J env r (ap_server a))"
    then show ?thesis
      by (auto simp: request_keys_def request_hits_def handleStats_def recordStats_def Let_def method_not_allowed_def
          bad_request_def http_Error_def writeHeader_def status_defs split: option.split)
  next
    assume p: "hr_Path r = ''/api/v1/hit''" "fst (serve N F J env r a) = fst (handleHitHTTP J env r (ap_server a, ap_fs a))"
      "(ap_server ?a', ap_fs ?a') = snd (handleHitHTTP J env r (ap_server a, ap_fs a))"
    then have "ap_server ?a' = fst (snd (handleHitHTTP J env r (ap_server a, ap_fs a)))" by (metis fst_conv)
    with p(1,2) show ?thesis
      by (cases "aj_hit J (hr_Body r)")
        (auto simp: request_keys_def request_hits_def handleHitHTTP_def method_not_allowed_def bad_request_def
          http_Error_def writeHeader_def status_defs dest!: handleHit_counts split: prod.split option.split)
  qed
  then show "sv_clusterTotal (ap_server ?a') = sv_clusterTotal (ap_server a) + request_keys N F J env r a"
    "sv_clusterHits (ap_server ?a') = sv_clusterHits (ap_server a) + request_hits N F J env r a" by simp_all
qed

section \<open>What a run counts\<close>

definition event_keys ::
  "'ip net_lib \<Rightarrow> 'f float_lib \<Rightarrow> 'f api_json \<Rightarrow> coord_event \<Rightarrow> 'f coord \<Rightarrow> u64" where
  "event_keys N F J ev c = (case ev of EvRequest env r \<Rightarrow> request_keys N F J env r (co_api c) | _ \<Rightarrow> 0)"

definition event_hits ::
  "'ip net_lib \<Rightarrow> 'f float_lib \<Rightarrow> 'f api_json \<Rightarrow> coord_event \<Rightarrow> 'f coord \<Rightarrow> u64" where
  "event_hits N F J ev c = (case ev of EvRequest env r \<Rightarrow> request_hits N F J env r (co_api c) | _ \<Rightarrow> 0)"

text \<open>The sum of \<open>f\<close> over the events of a run, each in the state it meets.\<close>

fun run_sum ::
  "(coord_event \<Rightarrow> 'f coord \<Rightarrow> u64) \<Rightarrow> (coord_event \<Rightarrow> 'f coord \<Rightarrow> 'f coord option) \<Rightarrow> coord_event list \<Rightarrow>
     'f coord \<Rightarrow> u64" where
  "run_sum f step [] c = 0"
| "run_sum f step (ev # evs) c =
     f ev c + (case step ev c of None \<Rightarrow> 0 | Some c' \<Rightarrow> run_sum f step evs c')"

lemma saying_counts [simp]: "sv_clusterTotal (saying t s) = sv_clusterTotal s" "sv_clusterHits (saying t s) = sv_clusterHits s"
  by (simp_all add: saying_def)

lemma dashboard_counts:
  "dashboard_tick rate now (s, l) = (s', l') \<Longrightarrow> sv_clusterTotal s' = sv_clusterTotal s \<and> sv_clusterHits s' = sv_clusterHits s"
  using dashboard_prints [of rate now s l] by auto

lemma step_counts:
  assumes "coord_step N F J rate tty ev c = Some c'" "2 \<le> pc_rank (co_pc c)"
  shows "2 \<le> pc_rank (co_pc c') \<and>
    sv_clusterTotal (ap_server (co_api c')) = sv_clusterTotal (ap_server (co_api c)) + event_keys N F J ev c \<and>
    sv_clusterHits (ap_server (co_api c')) = sv_clusterHits (ap_server (co_api c)) + event_hits N F J ev c"
proof (cases ev)
  case (EvMain now)
  then show ?thesis
    using assms
    by (cases "co_pc c")
      (auto simp: main_turn_def Let_def event_keys_def event_hits_def stopRun_def endRun_def split: if_splits)
next
  case (EvDashboard now)
  then show ?thesis
    using assms
    by (auto simp: event_keys_def event_hits_def dest: dashboard_counts split: if_splits prod.splits)
qed (use assms serve_counts in \<open>auto simp: event_keys_def event_hits_def pruneStale_def Let_def split: if_splits\<close>)

lemma run_counts:
  assumes "coord_run N F J rate tty evs c = Some c'" "2 \<le> pc_rank (co_pc c)"
  shows "sv_clusterTotal (ap_server (co_api c')) = sv_clusterTotal (ap_server (co_api c)) +
      run_sum (event_keys N F J) (coord_step N F J rate tty) evs c \<and>
    sv_clusterHits (ap_server (co_api c')) = sv_clusterHits (ap_server (co_api c)) +
      run_sum (event_hits N F J) (coord_step N F J rate tty) evs c"
  using assms
proof (induction evs arbitrary: c)
  case (Cons ev evs)
  then obtain c1 where c1: "coord_step N F J rate tty ev c = Some c1" "coord_run N F J rate tty evs c1 = Some c'"
    by (auto split: option.splits)
  show ?case using step_counts [OF c1(1) Cons.prems(2)] Cons.IH [OF c1(2)] c1(1) by simp
qed simp

lemma start_counts:
  assumes "coord_step N F J rate tty (EvMain now) c = Some c'" "pc_rank (co_pc c) < 2" "co_pc c' = PcSearching"
  shows "sv_clusterTotal (ap_server (co_api c')) = 0 \<and> sv_clusterHits (ap_server (co_api c')) = 0"
  using assms
  by (cases "co_pc c") (auto simp: main_turn_def Let_def announce_start_def startRun_def split: if_splits)

text \<open>C18. The line that ends a run of the cluster counts what the workers reported, no more and no less: from the turn of
  the main goroutine that starts the run, in whatever order requests, ticks and signals come, its keys are the sum of
  the deltas of the accepted statistics of known workers, and its hits the number of accepted hits with a new
  address, both modulo \<open>2^64\<close>.\<close>

theorem summary_counts:
  assumes "coord_step N F J rate tty (EvMain t1) c0 = Some c1" "pc_rank (co_pc c0) < 2" "co_pc c1 = PcSearching"
    and "coord_run N F J rate tty evs c1 = Some c2" "co_pc c2 = PcShutdown"
    and "coord_step N F J rate tty (EvMain t2) c2 = Some c3"
  shows "co_pc c3 = PcReturned \<and> sv_ui (ap_server (co_api c3)) =
    coord_Infof (''Run ended '' @ em_dash @ '' '' @
      show_nat (unat (run_sum (event_keys N F J) (coord_step N F J rate tty) evs c1)) @ '' keys tried, '' @
      rate (sv_clusterKPS (ap_server (co_api c2))) @ '' keys/s, '' @
      show_nat (unat (run_sum (event_hits N F J) (coord_step N F J rate tty) evs c1)) @ '' hits'' @ newline)
    (sv_ui (ap_server (co_api c2)))"
proof -
  have "2 \<le> pc_rank (co_pc c1)" using assms(3) by simp
  then have "sv_clusterTotal (ap_server (co_api c2)) = run_sum (event_keys N F J) (coord_step N F J rate tty) evs c1"
    "sv_clusterHits (ap_server (co_api c2)) = run_sum (event_hits N F J) (coord_step N F J rate tty) evs c1"
    using run_counts [OF assms(4)] start_counts [OF assms(1-3)] by simp_all
  then show ?thesis
    using assms(5,6) by (auto simp: main_turn_def Let_def saying_def run_ended_def clusterSnapshot_def)
qed

section \<open>What a run keeps in wallets.txt\<close>

definition log_holds :: "u8 list \<Rightarrow> fs \<Rightarrow> bool" where
  "log_holds d fs \<longleftrightarrow> (\<exists>a b. file_data fs walletsLogFile = a @ d @ b)"

text \<open>The file has only been appended to.\<close>

definition log_grows :: "fs \<Rightarrow> fs \<Rightarrow> bool" where
  "log_grows fs fs' \<longleftrightarrow> (\<exists>d. file_data fs' walletsLogFile = file_data fs walletsLogFile @ d)"

lemma log_grows_refl [simp]: "log_grows fs fs"
  by (simp add: log_grows_def)

lemma log_grows_trans: "log_grows a b \<Longrightarrow> log_grows b c \<Longrightarrow> log_grows a c"
  by (auto simp: log_grows_def)

lemma log_holds_grows: "log_holds d fs \<Longrightarrow> log_grows fs fs' \<Longrightarrow> log_holds d fs'"
  by (metis append_assoc log_holds_def log_grows_def)

text \<open>Every address the coordinator takes for known was posted in the run, and the post has its block in the file, or its write
  failed. \<open>P\<close> is what is known of the posts: the time stamp, the request, and whether its write failed.\<close>

type_synonym post_facts = "string \<Rightarrow> HitRequest \<Rightarrow> bool \<Rightarrow> bool"

definition known_logged :: "post_facts \<Rightarrow> string \<Rightarrow> fs \<Rightarrow> bool" where
  "known_logged P a fs \<longleftrightarrow> (\<exists>stamp req failed. P stamp req failed \<and> hq_Address req = a \<and>
     (failed \<or> log_holds (request_record stamp req) fs))"

definition log_inv :: "post_facts \<Rightarrow> 'f Server \<Rightarrow> fs \<Rightarrow> bool" where
  "log_inv P s fs \<longleftrightarrow> (\<forall>a \<in> set (sv_hitAddresses s). known_logged P a fs)"

lemma known_logged_grows: "known_logged P a fs \<Longrightarrow> log_grows fs fs' \<Longrightarrow> known_logged P a fs'"
  using log_holds_grows by (fastforce simp: known_logged_def)

lemma log_inv_grows: "log_inv P s fs \<Longrightarrow> log_grows fs fs' \<Longrightarrow> log_inv P s fs'"
  using known_logged_grows by (auto simp: log_inv_def)

text \<open>What a hit does when it is not a known one: it is appended, whole or in part.\<close>

lemma append_grows: "log_grows fs (append_to now walletsLogFile d fs)"
  by (auto simp: log_grows_def)

lemma append_holds: "log_holds d (append_to now walletsLogFile d fs)"
  unfolding log_holds_def by (rule exI [of _ "file_data fs walletsLogFile"], rule exI [of _ "[]"]) simp

lemma handleHit_new:
  assumes "handleHit fault now stamp req (s, fs) = (e, s', fs')" "map_of (sv_workers s) (hq_WorkerID req) \<noteq> None"
    and "\<not> (hq_Address req \<noteq> '''' \<and> hq_Address req \<in> set (sv_hitAddresses s))"
  shows "log_grows fs fs' \<and> set (sv_hitAddresses s') \<subseteq> insert (hq_Address req) (set (sv_hitAddresses s)) \<and>
    (if e = None then log_holds (request_record stamp req) fs' else fault \<noteq> LogOk)"
proof -
  obtain fid label where k: "kindFromFormatID (hq_Format req) = (fid, label)" by (rule prod.exhaust)
  let ?d = "chars_bytes (wallet_record stamp (hq_KeyIndex req) fid label (hq_Address req) (hq_WIF req) (hq_BalanceSats req))"
  have d: "request_record stamp req = ?d" by (simp add: request_record_def k)
  obtain ok fs1 where a: "appendWalletHit fault now stamp walletsLogFile (hq_KeyIndex req) fid label (hq_Address req) (hq_WIF req)
      (hq_BalanceSats req) fs = (ok, fs1)" by (rule prod.exhaust)
  have "log_grows fs fs1 \<and> (if ok then log_holds ?d fs1 else fault \<noteq> LogOk)"
    using a append_grows append_holds
    by (auto simp: appendWalletHit_def Let_def split: if_splits log_fault.splits)
  moreover have "fs' = fs1 \<and> set (sv_hitAddresses s') \<subseteq> insert (hq_Address req) (set (sv_hitAddresses s)) \<and> (e = None \<longleftrightarrow> ok)"
    using assms(1,2) unfolding handleHit_def prod.case k if_not_P [OF assms(3)] a Let_def
    by (cases ok) (auto split: if_splits)
  ultimately show ?thesis unfolding d by auto
qed

lemma handleHit_keeps:
  assumes "handleHit fault now stamp req (s, fs) = (e, s', fs')" "P stamp req (e \<noteq> None \<and> fault \<noteq> LogOk)" "log_inv P s fs"
  shows "log_grows fs fs' \<and> log_inv P s' fs' \<and>
    (e = None \<longrightarrow> log_holds (request_record stamp req) fs' \<or>
      hq_Address req \<noteq> '''' \<and> hq_Address req \<in> set (sv_hitAddresses s))"
proof (cases "map_of (sv_workers s) (hq_WorkerID req) = None")
  case True
  then show ?thesis using assms by (auto simp: handleHit_def)
next
  case known: False
  show ?thesis
  proof (cases "hq_Address req \<noteq> '''' \<and> hq_Address req \<in> set (sv_hitAddresses s)")
    case True
    then show ?thesis
      using assms handleHit_seen [OF known, of fault now stamp fs] by (auto simp: log_inv_def)
  next
    case False
    note new = handleHit_new [OF assms(1) known False]
    then have "known_logged P (hq_Address req) fs'"
      using assms(2) unfolding known_logged_def by (auto split: if_splits)
    then show ?thesis using new log_inv_grows [OF assms(3)] by (auto simp: log_inv_def split: if_splits)
  qed
qed

text \<open>What is known of the post that a request is, if it is one.\<close>

definition post_known ::
  "'ip net_lib \<Rightarrow> 'f float_lib \<Rightarrow> 'f api_json \<Rightarrow> post_facts \<Rightarrow> req_env \<Rightarrow> http_request \<Rightarrow> 'f api_state \<Rightarrow> bool" where
  "post_known N F J P env r a \<longleftrightarrow>
     (\<forall>req. hr_Path r = ''/api/v1/hit'' \<and> aj_hit J (hr_Body r) = Some req \<longrightarrow>
        P (qe_stamp env) req (qe_logFault env \<noteq> LogOk \<and> rs_Code (fst (serve N F J env r a)) = StatusBadRequest))"

lemma serve_keeps:
  assumes "post_known N F J P env r a" "log_inv P (ap_server a) (ap_fs a)"
  shows "log_grows (ap_fs a) (ap_fs (snd (serve N F J env r a))) \<and>
    log_inv P (ap_server (snd (serve N F J env r a))) (ap_fs (snd (serve N F J env r a))) \<and>
    (hr_Path r = ''/api/v1/hit'' \<and> rs_Code (fst (serve N F J env r a)) = StatusNoContent \<longrightarrow>
      (\<exists>req. aj_hit J (hr_Body r) = Some req \<and>
        (log_holds (request_record (qe_stamp env) req) (ap_fs (snd (serve N F J env r a))) \<or>
         hq_Address req \<noteq> '''' \<and> hq_Address req \<in> set (sv_hitAddresses (ap_server a)))))"
proof -
  let ?a' = "snd (serve N F J env r a)"
  show ?thesis
  proof (rule serve_cases [of N F J env r a])
    assume "ap_server ?a' = ap_server a" "ap_fs ?a' = ap_fs a" and "hr_Path r \<in> set [''/api/v1/stats'', ''/api/v1/hit''] \<Longrightarrow>
        rs_Code (fst (serve N F J env r a)) \<noteq> StatusNoContent"
    then show ?thesis using assms(2) by auto
  next
    assume "hr_Path r = ''/api/v1/register''" "ap_fs ?a' = ap_fs a"
      "ap_server ?a' = snd (handleRegister F J env r (ap_server a))"
    moreover have "sv_hitAddresses (snd (handleRegister F J env r (ap_server a))) = sv_hitAddresses (ap_server a)"
      by (auto simp: handleRegister_def register_def Let_def split: option.split)
    ultimately show ?thesis using assms(2) by (simp add: log_inv_def)
  next
    assume "hr_Path r = ''/api/v1/heartbeat''" "ap_fs ?a' = ap_fs a"
      "ap_server ?a' = snd (handleHeartbeat J env r (ap_server a))"
    moreover have "sv_hitAddresses (snd (handleHeartbeat J env r (ap_server a))) = sv_hitAddresses (ap_server a)"
      by (auto simp: handleHeartbeat_def heartbeat_def Let_def split: option.split)
    ultimately show ?thesis using assms(2) by (simp add: log_inv_def)
  next
    assume "hr_Path r = ''/api/v1/stats''" "ap_fs ?a' = ap_fs a"
      "ap_server ?a' = snd (handleStats F J env r (ap_server a))"
    moreover have "sv_hitAddresses (snd (handleStats F J env r (ap_server a))) = sv_hitAddresses (ap_server a)"
      by (auto simp: handleStats_def recordStats_def Let_def split: option.split)
    ultimately show ?thesis using assms(2) by (simp add: log_inv_def)
  next
    assume p: "hr_Path r = ''/api/v1/hit''" "fst (serve N F J env r a) = fst (handleHitHTTP J env r (ap_server a, ap_fs a))"
      "(ap_server ?a', ap_fs ?a') = snd (handleHitHTTP J env r (ap_server a, ap_fs a))"
    show ?thesis
    proof (cases "hr_Method r = MethodPost \<and> aj_hit J (hr_Body r) \<noteq> None")
      case False
      then show ?thesis
        using p assms(2)
        by (auto simp: handleHitHTTP_def method_not_allowed_def bad_request_def http_Error_def status_defs split: if_splits)
    next
      case True
      then obtain req where req: "aj_hit J (hr_Body r) = Some req" by auto
      obtain e s' fs' where h: "handleHit (qe_logFault env) (qe_now env) (qe_stamp env) req (ap_server a, ap_fs a) = (e, s', fs')"
        by (rule prod_cases3)
      have r: "ap_server ?a' = s'" "ap_fs ?a' = fs'"
        "rs_Code (fst (serve N F J env r a)) = (if e = None then StatusNoContent else StatusBadRequest)"
        using p True by (auto simp: handleHitHTTP_def req h http_Error_def writeHeader_def split: option.splits)
      then have "P (qe_stamp env) req (e \<noteq> None \<and> qe_logFault env \<noteq> LogOk)"
        using assms(1) p(1) req by (cases "e = None") (auto simp: post_known_def status_defs conj_commute)
      from handleHit_keeps [OF h this assms(2)] show ?thesis using r req by (auto simp: status_defs)
    qed
  qed
qed

lemma saying_addresses [simp]: "sv_hitAddresses (saying t s) = sv_hitAddresses s"
  by (simp add: saying_def)

lemma other_step_fs:
  assumes "coord_step N F J rate tty ev c = Some c'" "\<And>env r. ev \<noteq> EvRequest env r"
  shows "ap_fs (co_api c') = ap_fs (co_api c) \<and> (sv_hitAddresses (ap_server (co_api c')) = sv_hitAddresses (ap_server (co_api c)) \<or>
    sv_hitAddresses (ap_server (co_api c')) = [])"
proof (cases ev)
  case (EvMain now)
  then show ?thesis
    using assms
    by (cases "co_pc c")
      (auto simp: main_turn_def Let_def announce_start_def startRun_def stopRun_def endRun_def split: if_splits)
next
  case (EvDashboard now)
  have "dashboard_tick rate now (s, l) = (s', l') \<Longrightarrow> sv_hitAddresses s' = sv_hitAddresses s" for s l s' l'
    using dashboard_prints [of rate now s l] by auto
  then show ?thesis using EvDashboard assms(1) by (auto split: if_splits prod.splits)
qed (use assms in \<open>auto simp: pruneStale_def Let_def split: if_splits\<close>)

definition step_known ::
  "'ip net_lib \<Rightarrow> 'f float_lib \<Rightarrow> 'f api_json \<Rightarrow> post_facts \<Rightarrow> coord_event \<Rightarrow> 'f coord \<Rightarrow> bool" where
  "step_known N F J P ev c \<longleftrightarrow> (case ev of EvRequest env r \<Rightarrow> post_known N F J P env r (co_api c) | _ \<Rightarrow> True)"

lemma step_keeps:
  assumes "coord_step N F J rate tty ev c = Some c'" "step_known N F J P ev c"
    and "log_inv P (ap_server (co_api c)) (ap_fs (co_api c))"
  shows "log_grows (ap_fs (co_api c)) (ap_fs (co_api c')) \<and> log_inv P (ap_server (co_api c')) (ap_fs (co_api c'))"
proof (cases "\<exists>env r. ev = EvRequest env r")
  case True
  then obtain env r where ev: "ev = EvRequest env r" by blast
  have "co_api c' = snd (serve N F J env r (co_api c))" using assms(1) by (auto simp: ev split: if_splits)
  moreover have "post_known N F J P env r (co_api c)" using assms(2) by (simp add: step_known_def ev)
  ultimately show ?thesis using serve_keeps assms(3) by metis
next
  case False
  then show ?thesis using other_step_fs [OF assms(1)] assms(3) by (auto simp: log_inv_def)
qed

text \<open>The same of all posts of a run, each in the state it meets.\<close>

definition run_known ::
  "'ip net_lib \<Rightarrow> 'f float_lib \<Rightarrow> 'f api_json \<Rightarrow> ('f \<Rightarrow> string) \<Rightarrow> bool \<Rightarrow> post_facts \<Rightarrow> coord_event list \<Rightarrow> 'f coord \<Rightarrow> bool" where
  "run_known N F J rate tty P evs c \<longleftrightarrow>
     (\<forall>evs1 ev evs2 c1. evs = evs1 @ ev # evs2 \<and> coord_run N F J rate tty evs1 c = Some c1 \<longrightarrow> step_known N F J P ev c1)"

lemma run_known_Cons:
  assumes "run_known N F J rate tty P (ev # evs) c" "coord_step N F J rate tty ev c = Some c1"
  shows "step_known N F J P ev c \<and> run_known N F J rate tty P evs c1"
proof
  show "step_known N F J P ev c" using assms(1) unfolding run_known_def by (metis append_Nil coord_run.simps(1))
  show "run_known N F J rate tty P evs c1"
    unfolding run_known_def
  proof (intro allI impI)
    fix evs1 e evs2 d
    assume "evs = evs1 @ e # evs2 \<and> coord_run N F J rate tty evs1 c1 = Some d"
    then have "ev # evs = (ev # evs1) @ e # evs2 \<and> coord_run N F J rate tty (ev # evs1) c = Some d" using assms(2) by simp
    then show "step_known N F J P e d" using assms(1) unfolding run_known_def by blast
  qed
qed

lemma run_keeps:
  assumes "coord_run N F J rate tty evs c = Some c'" "run_known N F J rate tty P evs c"
    and "log_inv P (ap_server (co_api c)) (ap_fs (co_api c))"
  shows "log_grows (ap_fs (co_api c)) (ap_fs (co_api c')) \<and> log_inv P (ap_server (co_api c')) (ap_fs (co_api c'))"
  using assms
proof (induction evs arbitrary: c)
  case (Cons ev evs)
  then obtain c1 where c1: "coord_step N F J rate tty ev c = Some c1" "coord_run N F J rate tty evs c1 = Some c'"
    by (auto split: option.splits)
  note known = run_known_Cons [OF Cons.prems(2) c1(1)]
  have "log_grows (ap_fs (co_api c)) (ap_fs (co_api c1)) \<and> log_inv P (ap_server (co_api c1)) (ap_fs (co_api c1))"
    using step_keeps [OF c1(1) _ Cons.prems(3)] known by blast
  then show ?case using Cons.IH [OF c1(2)] known log_grows_trans by blast
qed simp

text \<open>A run never shortens the file.\<close>

lemma run_grows:
  assumes "coord_run N F J rate tty evs c = Some c'"
  shows "log_grows (ap_fs (co_api c)) (ap_fs (co_api c'))"
proof -
  have "known_logged (\<lambda>stamp req failed. True) a (ap_fs (co_api c))" for a
    unfolding known_logged_def by (intro exI [of _ True] exI [of _ "undefined\<lparr>hq_Address := a\<rparr>"] exI) simp
  then have "log_inv (\<lambda>stamp req failed. True) (ap_server (co_api c)) (ap_fs (co_api c))" by (simp add: log_inv_def)
  moreover have "run_known N F J rate tty (\<lambda>stamp req failed. True) evs c"
    by (simp add: run_known_def step_known_def post_known_def split: coord_event.split)
  ultimately show ?thesis using run_keeps [OF assms] by blast
qed

text \<open>A post of a hit in a run: when it came, its time stamp, whether its write failed, and the status it was answered
  with.\<close>

definition post_at ::
  "'ip net_lib \<Rightarrow> 'f float_lib \<Rightarrow> 'f api_json \<Rightarrow> ('f \<Rightarrow> string) \<Rightarrow> bool \<Rightarrow> coord_event list \<Rightarrow> 'f coord \<Rightarrow>
     coord_event list \<Rightarrow> req_env \<Rightarrow> HitRequest \<Rightarrow> nat \<Rightarrow> bool" where
  "post_at N F J rate tty evs c evs1 env req code \<longleftrightarrow>
     (\<exists>r evs2 c1. evs = evs1 @ EvRequest env r # evs2 \<and> coord_run N F J rate tty evs1 c = Some c1 \<and>
        hr_Path r = ''/api/v1/hit'' \<and> aj_hit J (hr_Body r) = Some req \<and>
        code = rs_Code (fst (serve N F J env r (co_api c1))))"

lemma post_at_member:
  "post_at N F J rate tty evs c evs1 env req code \<Longrightarrow> (\<exists>r. EvRequest env r \<in> set evs) \<and> set evs1 \<subseteq> set evs"
  by (auto simp: post_at_def)

text \<open>A hit that a run has answered with success.\<close>

definition answered ::
  "'ip net_lib \<Rightarrow> 'f float_lib \<Rightarrow> 'f api_json \<Rightarrow> ('f \<Rightarrow> string) \<Rightarrow> bool \<Rightarrow> coord_event list \<Rightarrow> 'f coord \<Rightarrow> HitRequest \<Rightarrow> bool" where
  "answered N F J rate tty evs c req \<longleftrightarrow> (\<exists>evs1 env. post_at N F J rate tty evs c evs1 env req StatusNoContent)"

text \<open>The posts of a run, as facts.\<close>

definition posted_before ::
  "'ip net_lib \<Rightarrow> 'f float_lib \<Rightarrow> 'f api_json \<Rightarrow> ('f \<Rightarrow> string) \<Rightarrow> bool \<Rightarrow> coord_event list \<Rightarrow> 'f coord \<Rightarrow> post_facts" where
  "posted_before N F J rate tty evs c stamp req failed \<longleftrightarrow>
     (\<exists>evs1 env code. post_at N F J rate tty evs c evs1 env req code \<and> stamp = qe_stamp env \<and>
        failed = (qe_logFault env \<noteq> LogOk \<and> code = StatusBadRequest))"

lemma posted_before_known: "run_known N F J rate tty (posted_before N F J rate tty evs c) evs c"
  unfolding run_known_def
proof (intro allI impI)
  fix a ev b d
  assume e: "evs = a @ ev # b \<and> coord_run N F J rate tty a c = Some d"
  show "step_known N F J (posted_before N F J rate tty evs c) ev d"
  proof (cases ev)
    case (EvRequest env r)
    show ?thesis
      unfolding EvRequest step_known_def post_known_def coord_event.case
    proof (intro allI impI)
      fix q
      assume q: "hr_Path r = ''/api/v1/hit'' \<and> aj_hit J (hr_Body r) = Some q"
      have "post_at N F J rate tty evs c a env q (rs_Code (fst (serve N F J env r (co_api d))))"
        using e q unfolding EvRequest post_at_def by blast
      then show "posted_before N F J rate tty evs c (qe_stamp env) q
          (qe_logFault env \<noteq> LogOk \<and> rs_Code (fst (serve N F J env r (co_api d))) = StatusBadRequest)"
        unfolding posted_before_def by (intro exI conjI) (assumption, rule refl, rule refl)
    qed
  qed (simp_all add: step_known_def)
qed

lemma answered_logged:
  assumes "coord_run N F J rate tty evs c = Some c'" "sv_hitAddresses (ap_server (co_api c)) = []"
    and "post_at N F J rate tty evs c evs1 env req StatusNoContent"
  shows "log_holds (request_record (qe_stamp env) req) (ap_fs (co_api c')) \<or>
    hq_Address req \<noteq> '''' \<and>
      (\<exists>evs0 env0 req0 code. post_at N F J rate tty evs1 c evs0 env0 req0 code \<and> hq_Address req0 = hq_Address req \<and>
        (log_holds (request_record (qe_stamp env0) req0) (ap_fs (co_api c')) \<or>
         qe_logFault env0 \<noteq> LogOk \<and> code = StatusBadRequest))"
proof -
  obtain r evs2 c1 where e: "evs = evs1 @ EvRequest env r # evs2" "coord_run N F J rate tty evs1 c = Some c1"
      "hr_Path r = ''/api/v1/hit''" "aj_hit J (hr_Body r) = Some req"
      "rs_Code (fst (serve N F J env r (co_api c1))) = StatusNoContent"
    using assms(3) by (auto simp: post_at_def)
  obtain c2 where c2: "coord_step N F J rate tty (EvRequest env r) c1 = Some c2" "coord_run N F J rate tty evs2 c2 = Some c'"
    using assms(1) e(1,2) by (auto simp: coord_run_append split: option.splits)
  have api: "co_api c2 = snd (serve N F J env r (co_api c1))" using c2(1) by (auto split: if_splits)
  let ?before = "posted_before N F J rate tty evs1 c"
  let ?P = "\<lambda>stamp q failed. ?before stamp q failed \<or> stamp = qe_stamp env \<and> q = req"
  have "log_inv ?before (ap_server (co_api c)) (ap_fs (co_api c))" using assms(2) by (simp add: log_inv_def)
  then have known: "log_inv ?before (ap_server (co_api c1)) (ap_fs (co_api c1))"
    using run_keeps [OF e(2) posted_before_known] by blast
  then have "log_inv ?P (ap_server (co_api c1)) (ap_fs (co_api c1))"
    unfolding log_inv_def known_logged_def by blast
  moreover have "post_known N F J ?P env r (co_api c1)" by (auto simp: post_known_def e(4))
  ultimately have now: "log_holds (request_record (qe_stamp env) req) (ap_fs (co_api c2)) \<or>
      hq_Address req \<noteq> '''' \<and> hq_Address req \<in> set (sv_hitAddresses (ap_server (co_api c1)))"
    using serve_keeps [of N F J ?P env r "co_api c1"] e(3-5) unfolding api by auto
  have grows: "log_grows (ap_fs (co_api c1)) (ap_fs (co_api c'))" "log_grows (ap_fs (co_api c2)) (ap_fs (co_api c'))"
    using run_grows [OF c2(2)] run_grows [of N F J rate tty "EvRequest env r # evs2" c1 c'] c2 by simp_all
  show ?thesis
  proof (cases "log_holds (request_record (qe_stamp env) req) (ap_fs (co_api c2))")
    case True
    then show ?thesis using log_holds_grows grows(2) by blast
  next
    case False
    then have "known_logged ?before (hq_Address req) (ap_fs (co_api c'))" "hq_Address req \<noteq> ''''"
      using now known known_logged_grows [OF _ grows(1)] by (auto simp: log_inv_def)
    then show ?thesis unfolding known_logged_def posted_before_def by blast
  qed
qed

lemma started_fresh:
  assumes "start_coordinator F X L B env cfg fs act = (Inr (s, sets, tls), fs1, act1)"
  shows "sv_hitAddresses (ap_server (co_api (co_init (s, fs1)))) = []"
proof -
  obtain etag ui where "s = setRunConfig etag ((NewServer F (with_defaults (se_token env) cfg) ui)\<lparr>sv_cachePath :=
      CachePath (cc_MinBalance (with_defaults (se_token env) cfg))\<rparr>)"
    using start_coordinator_Inr [OF assms(1)] by metis
  then show ?thesis by (simp add: co_init_def mountAPI_def setRunConfig_def NewServer_def)
qed

text \<open>C17. A hit that the coordinator has answered with success is kept, whatever is served, printed, pruned, started and
  stopped before and after: wallets.txt at the end holds, in one piece, the block of this very post; or the coordinator knew
  the address, from an earlier post with the same address, and then the file holds that post's block, or that post is one
  whose write to wallets.txt failed and that was answered with an error (\<open>failed_write_loses_hit\<close>: such a hit is lost).\<close>

theorem answered_hits_are_kept:
  assumes "start_coordinator F X L B env cfg fs act = (Inr (s, sets, tls), fs1, act1)"
    and "coord_run N F J rate tty evs (co_init (s, fs1)) = Some c"
    and "post_at N F J rate tty evs (co_init (s, fs1)) evs1 renv req StatusNoContent"
  shows "(\<exists>a b. file_data (ap_fs (co_api c)) walletsLogFile = a @ request_record (qe_stamp renv) req @ b) \<or>
    hq_Address req \<noteq> '''' \<and>
      (\<exists>evs0 renv0 req0 code. post_at N F J rate tty evs1 (co_init (s, fs1)) evs0 renv0 req0 code \<and>
        hq_Address req0 = hq_Address req \<and>
        ((\<exists>a b. file_data (ap_fs (co_api c)) walletsLogFile = a @ request_record (qe_stamp renv0) req0 @ b) \<or>
         qe_logFault renv0 \<noteq> LogOk \<and> code = StatusBadRequest))"
  using answered_logged [OF assms(2) started_fresh [OF assms(1)] assms(3)] unfolding log_holds_def .

text \<open>When no write fails, the file holds the block of some post with the address.\<close>

lemma answered_kept:
  assumes "coord_run N F J rate tty evs c = Some c'" "sv_hitAddresses (ap_server (co_api c)) = []"
    and "\<And>env r. EvRequest env r \<in> set evs \<Longrightarrow> qe_logFault env = LogOk" "answered N F J rate tty evs c req"
  shows "\<exists>env q evs1 code. post_at N F J rate tty evs c evs1 env q code \<and> hq_Address q = hq_Address req \<and>
    log_holds (request_record (qe_stamp env) q) (ap_fs (co_api c'))"
proof -
  obtain evs1 env where p: "post_at N F J rate tty evs c evs1 env req StatusNoContent"
    using assms(4) by (auto simp: answered_def)
  then obtain r evs2 where e: "evs = evs1 @ EvRequest env r # evs2" by (auto simp: post_at_def)
  have longer: "post_at N F J rate tty evs c evs0 env0 q code" if "post_at N F J rate tty evs1 c evs0 env0 q code"
    for evs0 env0 q code
    using that unfolding post_at_def e by (metis append.assoc append_Cons)
  have ok: "qe_logFault env0 = LogOk" if "post_at N F J rate tty evs1 c evs0 env0 q code" for evs0 env0 q code
    using post_at_member [OF that] post_at_member [OF p] assms(3) by blast
  show ?thesis using answered_logged [OF assms(1,2) p] p longer ok by blast
qed

end
