(* ===== verification/WorkerHits.thy ===== *)
theory WorkerHits
  imports Worker HookViews
begin

text \<open>
  The hits of a worker's search: \<open>worker_hooks\<close> seen through the requests it has posted.
\<close>

section \<open>What a worker posts\<close>

text \<open>Hooks that post a request for every hit, until one is not taken.\<close>

definition poster :: "(HitEvent \<Rightarrow> 'r) \<Rightarrow> ('r \<Rightarrow> bool) \<Rightarrow> ('f, 'r list) Hooks" where
  "poster f posted = hit_hooks (\<lambda>ev posts. if posted (f ev) then (None, posts @ [f ev]) else (Some ContextDone, posts))"

lemma Process_poster:
  assumes "cfg_InjectIndexHit cfg = ''''"
  shows "\<exists>hit. ProcessWallet L B cfg s w i (poster f posted) ps =
    ((hit, if list_all posted (map f (expected_hits L B cfg s w i)) then None else Some ContextDone),
      ps @ takeWhile posted (map f (expected_hits L B cfg s w i)))"
  using assms
  by (auto simp: poster_def ProcessWallet_def injected_keys_def effective_keys_def expected_hits_def simulateDisplayKind_def
      Let_def split: prod.split bool.split)

lemma takeWhile_some: "\<not> list_all P xs \<Longrightarrow> takeWhile P (xs @ ys) = takeWhile P xs"
  by (induction xs) auto

lemma takeWhile_every: "list_all P xs \<Longrightarrow> takeWhile P (xs @ ys) = xs @ takeWhile P ys"
  by (induction xs) auto

lemma process_seq_poster:
  fixes f :: "HitEvent \<Rightarrow> 'r"
  assumes "cfg_InjectIndexHit cfg = ''''"
  shows "\<exists>n k. process_seq L B cfg s (poster f posted :: ('f, 'r list) Hooks) ws i ps =
    (n, k, if list_all posted (map f (hits_in_order L B cfg s ws i)) then None else Some ContextDone,
      ps @ takeWhile posted (map f (hits_in_order L B cfg s ws i)))"
proof (induction ws arbitrary: i ps)
  case (Cons w ws)
  let ?hits = "map f (expected_hits L B cfg s w i)"
  obtain hit where p: "ProcessWallet L B cfg s w i (poster f posted :: ('f, 'r list) Hooks) ps =
      ((hit, if list_all posted ?hits then None else Some ContextDone), ps @ takeWhile posted ?hits)"
    using Process_poster [OF assms, of L B s w i f posted ps] by blast
  show ?case
  proof (cases "list_all posted ?hits")
    case True
    obtain n k where "process_seq L B cfg s (poster f posted :: ('f, 'r list) Hooks) ws (i + 1) (ps @ ?hits) =
        (n, k, if list_all posted (map f (hits_in_order L B cfg s ws (i + 1))) then None else Some ContextDone,
          (ps @ ?hits) @ takeWhile posted (map f (hits_in_order L B cfg s ws (i + 1))))"
      using Cons.IH by blast
    moreover have "takeWhile posted ?hits = ?hits" using takeWhile_every [OF True, of "[]"] by simp
    then have "ProcessWallet L B cfg s w i (poster f posted :: ('f, 'r list) Hooks) ps = ((hit, None), ps @ ?hits)"
      using p True by simp
    ultimately show ?thesis using takeWhile_every [OF True] True by simp
  next
    case False
    then show ?thesis using p by (simp add: takeWhile_some)
  qed
qed simp

interpretation worker: hook_view "worker_hooks L encodeWIF workerID posted :: ('f, worker_stats \<times> HitRequest list) Hooks"
    snd "\<lambda>ev posts. let req = hit_request L encodeWIF workerID ev in
      if posted req then (None, posts @ [req]) else (Some ContextDone, posts)"
    for L encodeWIF workerID posted
  by unfold_locales (auto simp: worker_hooks_def call_hit_def Let_def split: prod.split)

lemma worker_run_posts:
  fixes J :: "'f session_lib"
  shows
  "map_option (\<lambda>(a, e, h, fs). (a, e, snd h, fs))
      (runForever L B J env fe cfg s (worker_hooks L encodeWIF w posted) turns (ws, ps) fs) =
    runForever L B J env fe cfg s (poster (hit_request L encodeWIF w) posted :: ('f, HitRequest list) Hooks) turns ps fs"
  using worker.view_runForever [where J = J and B = B and L = L and La = L and encodeWIF = encodeWIF and workerID = w and posted = posted and h = "(ws, ps)"]
  by (simp add: poster_def Let_def)

lemma init_keeps: "\<exists>s0. initForeverSession J now r r' False fs = (Some s0, fs)"
  by (simp add: initForeverSession_def Let_def)

lemma worker_config [simp]:
  "cfg_Forever (worker_search_config cfg n formats)" "cfg_InjectIndexHit (worker_search_config cfg n formats) = ''''"
  "\<not> cfg_ResetSession (worker_search_config cfg n formats)" "cfg_MaxKeys (worker_search_config cfg n formats) = 0"
  by (simp_all add: worker_search_config_def)

text \<open>The hits a worker's search has to post: those of the wallets offered before its context ends, with indices that go
  on after the session \<open>s0\<close>.\<close>

definition due_hits ::
  "addr_lib \<Rightarrow> 'bf bloom_lib \<Rightarrow> (u8 list \<Rightarrow> string) \<Rightarrow> WorkerConfig \<Rightarrow> string \<Rightarrow> int \<Rightarrow> 'bf Sets \<Rightarrow> FormatMask \<Rightarrow>
     fturn list \<Rightarrow> 'f sessionState \<Rightarrow> HitRequest list" where
  "due_hits L B encodeWIF cfg w threads sets formats turns s0 =
     map (hit_request L encodeWIF w) (hits_in_order L B (worker_search_config cfg threads formats) sets
       (fst (offered turns)) (TotalKeysTried s0 + 1))"

lemma worker_posts:
  fixes J :: "'f session_lib"
  assumes "searchUntilStop L B J encodeWIF posted env fe cfg w threads sets formats turns elapsed fs =
      Some (report, posts, err, fs')"
  shows "\<exists>s0. initForeverSession J (re_init env) False False False fs = (Some s0, fs) \<and>
    posts = takeWhile posted (due_hits L B encodeWIF cfg w threads sets formats turns s0) \<and> err = None \<and>
    (list_all posted (due_hits L B encodeWIF cfg w threads sets formats turns s0) \<longrightarrow> snd (offered turns))"
proof -
  let ?cfg = "worker_search_config cfg threads formats"
  let ?hooks = "poster (hit_request L encodeWIF w) posted :: ('f, HitRequest list) Hooks"
  obtain s0 where s0: "initForeverSession J (re_init env) (re_rmFails env) (re_rmTmpFails env) (cfg_ResetSession ?cfg) fs =
      (Some s0, fs)" "initForeverSession J (re_init env) False False False fs = (Some s0, fs)"
    by (simp add: initForeverSession_def Let_def)
  obtain stats e ws where run: "runForever L B J env fe ?cfg sets (worker_hooks L encodeWIF w posted) turns
      (zero_worker_stats, []) fs = Some (stats, e, (ws, posts), fs')" and err: "err = (if e = Some ContextDone then None else e)"
    using assms by (auto simp: searchUntilStop_def Run_def split: option.splits)
  have rec: "runForever L B J env fe ?cfg sets ?hooks turns [] fs = Some (stats, e, posts, fs')"
    using worker_run_posts [of L B J env fe ?cfg sets encodeWIF w posted turns zero_worker_stats "[]" fs] run by simp
  let ?due = "due_hits L B encodeWIF cfg w threads sets formats turns s0"
  obtain n k where p: "process_seq L B ?cfg sets ?hooks (fst (offered turns)) (TotalKeysTried s0 + 1) [] =
      (n, k, if list_all posted ?due then None else Some ContextDone, takeWhile posted ?due)"
    using process_seq_poster [of ?cfg L B sets "hit_request L encodeWIF w" posted "fst (offered turns)"
        "TotalKeysTried s0 + 1" "[]"] by (auto simp: due_hits_def)
  have quiet: "tell_forever ?hooks s0 n k t h = h" for n k t h by (simp add: tell_forever_def poster_def)
  have seq: "event_seq L B ?cfg sets ?hooks (tell_forever ?hooks s0) (TotalKeysTried s0 + 1) evs 0 0 [] =
      (n, k, if list_all posted ?due then None else Some ContextDone, takeWhile posted ?due)"
    if "keys_of evs = fst (offered turns)" for evs
    unfolding event_seq_quiet [of "tell_forever ?hooks s0", OF quiet] using p that by simp
  have "posts = takeWhile posted ?due \<and> (if list_all posted ?due then e = Some ContextDone \<and> snd (offered turns)
      else e = Some ContextDone)"
    using runForever_outcome [OF s0(1), of L B sets ?hooks "[]" fe turns] rec seq
    by (auto simp: run_outcome_def limited_def split: if_splits)
  then show ?thesis using s0(2) err by (auto split: if_splits)
qed

text \<open>A search that its context ends returns, whatever the posts do.\<close>

lemma search_returns:
  assumes "snd (offered turns)"
  shows "\<exists>report posts err fs'. searchUntilStop L B J encodeWIF posted env fe cfg w threads sets formats turns elapsed fs =
    Some (report, posts, err, fs')"
proof -
  let ?cfg = "worker_search_config cfg threads formats" and ?hooks = "worker_hooks L encodeWIF w posted"
  obtain s0 where i: "initForeverSession J (re_init env) (re_rmFails env) (re_rmTmpFails env) (cfg_ResetSession ?cfg) fs =
      (Some s0, fs)"
    using init_keeps by (metis worker_config(3))
  have "runForever L B J env fe ?cfg sets ?hooks turns (zero_worker_stats, []) fs \<noteq> None"
    using runForever_outcome [OF i, of L B sets ?hooks "(zero_worker_stats, [])" fe turns] assms
    by (auto simp: run_outcome_def split: option.splits)
  then show ?thesis by (auto simp: searchUntilStop_def Run_def split: prod.split)
qed

text \<open>C8. A worker posts every hit of its search and nothing else. The requests posted by a search that has ended are, in
  order, those of all wallets offered before its context ended, tried with indices that go on after the session file: one
  for every wallet whose keys match the index under the formats (or that is simulated), with its address, WIF, format,
  balance and index. Only a post that the end of the context cut off (\<open>posted\<close> is false of it) ends the sequence early;
  when there is none, the context has ended the search. The search has not failed.\<close>

theorem worker_posts_every_hit:
  fixes J :: "'f session_lib"
  assumes "searchUntilStop L B J encodeWIF posted env fe cfg w threads sets formats turns elapsed fs =
      Some (report, posts, err, fs')"
  shows "\<exists>s0. initForeverSession J (re_init env) False False False fs = (Some s0, fs) \<and>
    posts = takeWhile posted (map (hit_request L encodeWIF w) (hits_in_order L B (worker_search_config cfg threads formats)
      sets (fst (offered turns)) (TotalKeysTried s0 + 1))) \<and> err = None \<and>
    (list_all posted posts \<and> length posts = length (hits_in_order L B (worker_search_config cfg threads formats)
      sets (fst (offered turns)) (TotalKeysTried s0 + 1)) \<longrightarrow> snd (offered turns))"
proof -
  have "length (takeWhile posted xs) = length xs \<Longrightarrow> list_all posted xs" for xs
    by (induction xs) (auto split: if_splits)
  then show ?thesis
    using worker_posts [OF assms] unfolding due_hits_def by (metis length_map)
qed


section \<open>Witnesses\<close>

definition sample_worker :: WorkerConfig where
  "sample_worker = \<lparr>wc_CoordinatorURL = ''https://10.0.0.1:8443'', wc_AuthToken = ''secret'', wc_Threads = 1,
     wc_TLSSkipVerify = False, wc_TLSCA = '''', wc_TLSCert = '''', wc_TLSKey = '''', wc_ProxyURL = '''',
     wc_DialTimeout = 30 * second, wc_StatsInterval = 2 * second, wc_SimulateHit = True, wc_SimulateHitAt = 1,
     wc_Quiet = False, wc_Verbose = False\<rparr>"

definition stopped_turns :: "fturn list" where
  "stopped_turns = sample_turns @ [\<lparr>ft_done = True, ft_recv = FDone, ft_now = 4, ft_fault = NoFault, ft_write = 4,
     ft_restart = 4\<rparr>]"

theorem worker_posts_every_hit_witness:
  "\<exists>report posts fs'. searchUntilStop sample_lib sample_bloom sample_session (\<lambda>_. ''K'') (\<lambda>_. True) sample_renv
      sample_end sample_worker ''w-ab'' 1 sample_sets AllFormats stopped_turns 9 Map.empty =
      Some (report, posts, None, fs') \<and> posts \<noteq> []"
proof -
  let ?cfg = "worker_search_config sample_worker 1 AllFormats"
  have o: "offered stopped_turns = ([sample_wallet, sample_wallet], True)" by (simp add: stopped_turns_def sample_turns_def)
  obtain report posts err fs' where s: "searchUntilStop sample_lib sample_bloom sample_session (\<lambda>_. ''K'') (\<lambda>_. True)
      sample_renv sample_end sample_worker ''w-ab'' 1 sample_sets AllFormats stopped_turns 9 Map.empty =
      Some (report, posts, err, fs')"
    using search_returns [of stopped_turns] o by (metis snd_conv)
  have t: "takeWhile (\<lambda>_. True) xs = xs" for xs :: "HitRequest list" by (induction xs) simp_all
  have "expected_hits sample_lib sample_bloom ?cfg sample_sets sample_wallet 1 \<noteq> []"
    by (auto simp: expected_hits_def effective_keys_def worker_search_config_def sample_worker_def split: prod.split bool.split)
  moreover have "initForeverSession sample_session (re_init sample_renv) False False False Map.empty =
      (Some (fresh_session sample_session 1), Map.empty)"
    by (simp add: initForeverSession_def sample_renv_def loadSession_def fresh_session_def)
  ultimately show ?thesis
    using worker_posts_every_hit [OF s] s by (auto simp: t o fresh_session_def)
qed

end
