(* ===== verification/Programs.thy ===== *)
theory Programs
  imports CoordUI WorkerHits
begin

text \<open>
  The two programs of the cluster: cmd/btcfind-coordinator, cmd/btcfind-worker and the outer loop of worker/run.go,
  with the calls of the worker's client as requests to the coordinator. The flags as \<open>flag.Parse\<close> leaves them are
  arguments.
\<close>

section \<open>The coordinator's program\<close>

record coord_flags =
  cf_listen :: string
  cf_tlsCert :: string
  cf_tlsKey :: string
  cf_authToken :: string
  cf_insecure :: bool
  cf_formats :: string
  cf_minBal :: u64
  cf_autoStart :: bool
  cf_quiet :: bool
  cf_noColor :: bool
  cf_mtlsCA :: string
  cf_mtlsReq :: bool
  cf_maxWorkers :: int
  cf_allowCIDR :: string
  cf_rateReg :: int
  cf_rateCache :: int
  cf_rateAPI :: int

definition default_coord_flags :: coord_flags where
  "default_coord_flags = \<lparr>cf_listen = '':8443'', cf_tlsCert = '''', cf_tlsKey = '''', cf_authToken = '''',
     cf_insecure = False, cf_formats = ''all'', cf_minBal = DefaultMinBalanceSats, cf_autoStart = False,
     cf_quiet = False, cf_noColor = False, cf_mtlsCA = '''', cf_mtlsReq = False, cf_maxWorkers = 0,
     cf_allowCIDR = '''', cf_rateReg = 0, cf_rateCache = 0, cf_rateAPI = 0\<rparr>"

definition coordinator_config :: "coord_flags \<Rightarrow> format_error + CoordConfig" where
  "coordinator_config fl =
     bindR (ParseFormatMask (cf_formats fl)) (\<lambda>fm.
       let cidrs = (if cf_allowCIDR fl \<noteq> '''' then Split (CHR '','') (cf_allowCIDR fl) else [])
       in Inr \<lparr>cc_Listen = cf_listen fl, cc_TLSCert = cf_tlsCert fl, cc_TLSKey = cf_tlsKey fl,
            cc_AuthToken = cf_authToken fl, cc_Insecure = cf_insecure fl, cc_Formats = fm,
            cc_MinBalance = cf_minBal fl, cc_AutoStart = cf_autoStart fl, cc_Quiet = cf_quiet fl,
            cc_NoColor = cf_noColor fl, cc_Verbose = False, cc_MTLSCA = cf_mtlsCA fl,
            cc_MTLSRequireClientCert = cf_mtlsReq fl, cc_MaxWorkers = cf_maxWorkers fl, cc_AllowCIDR = cidrs,
            cc_RateRegister = cf_rateReg fl, cc_RateCache = cf_rateCache fl, cc_RateAPI = cf_rateAPI fl\<rparr>)"

text \<open>The program up to the serving coordinator; an error is exit code 1.\<close>

datatype coord_exit = ExitFormats format_error | ExitStart start_error

definition coordinator_main ::
  "'f float_lib \<Rightarrow> 'bf rep_text \<Rightarrow> addr_lib \<Rightarrow> 'bf bloom_lib \<Rightarrow> start_env \<Rightarrow> coord_flags \<Rightarrow> fs \<Rightarrow>
     (coord_exit + 'f Server \<times> 'bf Sets \<times> tls_conf) \<times> fs \<times> mapping" where
  "coordinator_main F X L B env fl fs =
     (case coordinator_config fl of
        Inl e \<Rightarrow> (Inl (ExitFormats e), fs, None)
      | Inr cfg \<Rightarrow>
          (case start_coordinator F X L B env cfg fs None of
             (Inl e, fs, act) \<Rightarrow> (Inl (ExitStart e), fs, act)
           | (Inr r, fs, act) \<Rightarrow> (Inr r, fs, act)))"

section \<open>The worker's program\<close>

record worker_flags =
  wf_coordURL :: string
  wf_authToken :: string
  wf_threads :: int
  wf_tlsSkip :: bool
  wf_tlsCA :: string
  wf_tlsCert :: string
  wf_tlsKey :: string
  wf_proxyURL :: string
  wf_dialTO :: int
  wf_statsInt :: int
  wf_simHit :: bool
  wf_simHitAt :: int
  wf_quiet :: bool
  wf_verbose :: bool

datatype worker_exit = NoCoordinator | NoToken

definition worker_config :: "string \<Rightarrow> worker_flags \<Rightarrow> worker_exit + WorkerConfig" where
  "worker_config envToken fl =
     (if wf_coordURL fl = '''' then Inl NoCoordinator
      else
        (let token = (if wf_authToken fl = '''' then envToken else wf_authToken fl) in
         if token = '''' then Inl NoToken
         else Inr \<lparr>wc_CoordinatorURL = wf_coordURL fl, wc_AuthToken = token, wc_Threads = wf_threads fl,
                wc_TLSSkipVerify = wf_tlsSkip fl, wc_TLSCA = wf_tlsCA fl, wc_TLSCert = wf_tlsCert fl,
                wc_TLSKey = wf_tlsKey fl, wc_ProxyURL = wf_proxyURL fl, wc_DialTimeout = wf_dialTO fl,
                wc_StatsInterval = wf_statsInt fl, wc_SimulateHit = wf_simHit fl,
                wc_SimulateHitAt = wf_simHitAt fl, wc_Quiet = wf_quiet fl, wc_Verbose = wf_verbose fl\<rparr>))"

text \<open>\<open>Run\<close>: the defaults, the client, then session after session. A session is what it meets: whether the context has
  ended before it and after it, the answers of its coordinator, and the wait, the files and the mapping at its start. How it
  ends is what \<open>runSession\<close> makes of that.\<close>

record session_run =
  sr_endedBefore :: bool
  sr_register :: "RegisterResponse retried"
  sr_sync :: "sync_env retry_turn list"
  sr_mmapFails :: bool
  sr_turns :: "session_turn list"
  sr_backoff :: int
  sr_fs :: fs
  sr_map :: mapping
  sr_endedAfter :: bool

definition session_result :: "'bf bloom_lib \<Rightarrow> session_run \<Rightarrow> session_end" where
  "session_result B r = fst (runSession B (sr_register r) (sr_sync r) (sr_mmapFails r) (sr_turns r) (sr_backoff r) (sr_fs r)
     (sr_map r))"

datatype worker_end = WorkerNoToken | WorkerClientError client_error | WorkerContext | WorkerOver | WorkerStill

fun worker_sessions :: "'bf bloom_lib \<Rightarrow> session_run list \<Rightarrow> worker_end" where
  "worker_sessions B [] = WorkerStill"
| "worker_sessions B (r # rs) =
     (if sr_endedBefore r then WorkerContext
      else
        (case session_result B r of
           StillRunning \<Rightarrow> WorkerStill
         | SessionOver \<Rightarrow> WorkerOver
         | SessionError e \<Rightarrow> if sr_endedAfter r then WorkerContext else worker_sessions B rs))"

definition worker_defaults :: "string \<Rightarrow> WorkerConfig \<Rightarrow> WorkerConfig" where
  "worker_defaults envToken cfg =
     (let cfg = (if wc_AuthToken cfg = '''' then cfg\<lparr>wc_AuthToken := envToken\<rparr> else cfg)
      in if wc_StatsInterval cfg = 0 then cfg\<lparr>wc_StatsInterval := 2 * second\<rparr> else cfg)"

text \<open>What the sessions work with: the client, the host name and the number of threads.\<close>

definition worker_setup ::
  "client_lib \<Rightarrow> string \<Rightarrow> int \<Rightarrow> string \<Rightarrow> fs \<Rightarrow> WorkerConfig \<Rightarrow> worker_end + Client \<times> string \<times> int" where
  "worker_setup K envToken numCPU osHostname fs cfg =
     (let cfg = worker_defaults envToken cfg in
      if wc_AuthToken cfg = '''' then Inl WorkerNoToken
      else
        (case NewClient K envToken fs cfg of
           Inl e \<Rightarrow> Inl (WorkerClientError e)
         | Inr client \<Rightarrow>
             Inr (client, if osHostname = '''' then ''worker'' else osHostname,
               if wc_Threads cfg < 1 then numCPU else wc_Threads cfg)))"

definition worker_Run ::
  "'bf bloom_lib \<Rightarrow> client_lib \<Rightarrow> string \<Rightarrow> int \<Rightarrow> string \<Rightarrow> fs \<Rightarrow> WorkerConfig \<Rightarrow> session_run list \<Rightarrow> worker_end" where
  "worker_Run B K envToken numCPU osHostname fs cfg sessions =
     (case worker_setup K envToken numCPU osHostname fs cfg of Inl e \<Rightarrow> e | Inr w \<Rightarrow> worker_sessions B sessions)"

text \<open>The states the heartbeat goroutine sends, one for every tick until the context ends.\<close>

fun heartbeatLoop :: "bool list \<Rightarrow> string list" where
  "heartbeatLoop [] = []"
| "heartbeatLoop (ended # ticks) = (if ended then [] else ''waiting'' # heartbeatLoop ticks)"

text \<open>The watcher beside a search: at every tick it asks for the run state, and cancels the search unless it is running.
  The answer is \<open>None\<close> when the request has failed, which only an ended context makes it do.\<close>

fun watch_run :: "RunResponse option list \<Rightarrow> bool" where
  "watch_run [] = False"
| "watch_run (status # ticks) =
     (case status of None \<Rightarrow> True
      | Some st \<Rightarrow> if rr_State st \<noteq> StateRunning then True else watch_run ticks)"

section \<open>The worker's calls\<close>

datatype call = CallRegister | CallHeartbeat | CallRunStatus | CallPostStats | CallPostHit | CallCache string

definition call_method :: "call \<Rightarrow> string" where
  "call_method c = (case c of CallRunStatus \<Rightarrow> MethodGet | CallCache etag \<Rightarrow> MethodGet | _ \<Rightarrow> MethodPost)"

definition call_path :: "call \<Rightarrow> string" where
  "call_path c =
     (case c of
        CallRegister \<Rightarrow> ''/api/v1/register''
      | CallHeartbeat \<Rightarrow> ''/api/v1/heartbeat''
      | CallRunStatus \<Rightarrow> ''/api/v1/run''
      | CallPostStats \<Rightarrow> ''/api/v1/stats''
      | CallPostHit \<Rightarrow> ''/api/v1/hit''
      | CallCache etag \<Rightarrow> ''/api/v1/cache'')"

text \<open>The request as it reaches a coordinator whose URL has no path; \<open>addr\<close> is where it comes from.\<close>

definition call_request :: "Client \<Rightarrow> call \<Rightarrow> string \<Rightarrow> string \<Rightarrow> http_request" where
  "call_request client c body addr =
     \<lparr>hr_Method = call_method c, hr_Path = call_path c, hr_Authorization = auth_header (cl_token client),
      hr_ForwardedFor = '''', hr_IfNoneMatch = (case c of CallCache etag \<Rightarrow> etag | _ \<Rightarrow> ''''), hr_RemoteAddr = addr,
      hr_Body = body\<rparr>"


section \<open>Worker and coordinator speak the same API\<close>

text \<open>The limiter and the handler the coordinator has for a call.\<close>

definition call_limiter :: "call \<Rightarrow> 'f api_state \<Rightarrow> rateLimiter option" where
  "call_limiter c a = (case c of CallRegister \<Rightarrow> ap_reg a | CallCache etag \<Rightarrow> ap_cache a | _ \<Rightarrow> ap_api a)"

definition call_handler ::
  "'f float_lib \<Rightarrow> 'f api_json \<Rightarrow> req_env \<Rightarrow> call \<Rightarrow> http_request \<Rightarrow> 'f Server \<times> fs \<Rightarrow> http_response \<times> 'f Server \<times> fs" where
  "call_handler F J env c r st =
     (case st of (s, fs) \<Rightarrow>
        (case c of
           CallRegister \<Rightarrow> (case handleRegister F J env r s of (resp, s) \<Rightarrow> (resp, s, fs))
         | CallHeartbeat \<Rightarrow> (case handleHeartbeat J env r s of (resp, s) \<Rightarrow> (resp, s, fs))
         | CallRunStatus \<Rightarrow> (handleRun r s, s, fs)
         | CallPostStats \<Rightarrow> (case handleStats F J env r s of (resp, s) \<Rightarrow> (resp, s, fs))
         | CallPostHit \<Rightarrow> handleHitHTTP J env r (s, fs)
         | CallCache etag \<Rightarrow> (handleCache env r s fs, s, fs)))"

lemma call_route: "HasPrefix (call_path c) ''/api/v1/''" "call_path c \<noteq> ''/health''"
  "TrimPrefix (call_path c) ''/api/v1'' = (case c of CallRegister \<Rightarrow> ''/register'' | CallHeartbeat \<Rightarrow> ''/heartbeat''
    | CallRunStatus \<Rightarrow> ''/run'' | CallPostStats \<Rightarrow> ''/stats'' | CallPostHit \<Rightarrow> ''/hit'' | CallCache etag \<Rightarrow> ''/cache'')"
  by (cases c; simp add: call_path_def HasPrefix_def TrimPrefix_def)+

text \<open>A handler takes the method of its call.\<close>

lemma handler_accepts:
  assumes "hr_Method r = call_method c"
  shows "rs_Code (fst (call_handler F J env c r st)) \<notin> {StatusUnauthorized, StatusMethodNotAllowed, StatusTooManyRequests}"
  using assms
  by (cases c; cases st)
    (auto simp: call_handler_def call_method_def handleRegister_def handleHeartbeat_def handleRun_def handleStats_def
      handleHitHTTP_def handleCache_def bad_request_def http_Error_def writeHeader_def writeJSON_def status_defs Let_def
      MethodGet_def MethodPost_def split: option.splits prod.splits sum.splits bool.splits if_splits)

text \<open>C20. Every call of a worker reaches the handler that is meant for it: with the coordinator's token, and within the
  rate limit, the request of each call is answered by its handler, which accepts its method: the answer is not that the
  method is not allowed, nor that the request is unauthorized or one too many.\<close>

theorem calls_reach_handlers:
  fixes a :: "'f api_state"
  assumes "cl_token client = cc_AuthToken (sv_cfg (ap_server a))" "cl_token client \<noteq> ''''"
    and "r = call_request client c body addr" "serve N F J env r a = (resp, a')"
    and "fst (rateLimit N (cc_AllowCIDR (sv_cfg (ap_server a))) (qe_now env) (hr_ForwardedFor r) (hr_RemoteAddr r)
      (call_limiter c a))"
  shows "(resp, ap_server a', ap_fs a') = call_handler F J env c r (ap_server a, ap_fs a) \<and>
    rs_Code resp \<notin> {StatusUnauthorized, StatusMethodNotAllowed, StatusTooManyRequests}"
proof -
  obtain rl where rl: "rateLimit N (cc_AllowCIDR (sv_cfg (ap_server a))) (qe_now env) (hr_ForwardedFor r) (hr_RemoteAddr r)
      (call_limiter c a) = (True, rl)"
    using assms(5) by (metis prod.collapse)
  have m: "hr_Method r = call_method c" "hr_Path r = call_path c"
    "hr_Authorization r = ''Bearer '' @ cc_AuthToken (sv_cfg (ap_server a))"
    using assms(1-3) by (simp_all add: call_request_def auth_header_def)
  have "serve N F J env r a = api_routes N F J env r (TrimPrefix (call_path c) ''/api/v1'') a"
    using call_route assms(1,2) by (simp add: serve_def m bearerAuth_cases)
  then have "api_routes N F J env r (TrimPrefix (call_path c) ''/api/v1'') a = (resp, a')" using assms(4) by simp
  then have "(resp, ap_server a', ap_fs a') = call_handler F J env c r (ap_server a, ap_fs a)"
    using rl unfolding call_route
    by (cases c; clarsimp simp: api_routes_def call_handler_def call_limiter_def Let_def case_prod_unfold)
  then show ?thesis using handler_accepts [OF m(1)] by (metis fst_conv)
qed

section \<open>From the command line of the coordinator to its workers\<close>

text \<open>What the coordinator's flags say is what its workers are told: a coordinator that its program has started
  offers formats that a worker parses to the mask of the \<open>--formats\<close> flag, at least one of them, and the minimum
  balance of the flag (the default for zero).\<close>

theorem workers_get_flags:
  assumes "coordinator_main F X L B env fl fs = (Inr (s, sets, tls), fs', act)"
  shows "\<exists>fm. ParseFormatMask (cf_formats fl) = Inr fm \<and> Any fm \<and>
    ParseFormatList (rc_Formats (rr_Config (runStatus s))) = Inr fm \<and>
    rc_MinBalanceSats (rr_Config (runStatus s)) = (if cf_minBal fl = 0 then DefaultMinBalanceSats else cf_minBal fl)"
proof -
  obtain fm cfg where cfg: "ParseFormatMask (cf_formats fl) = Inr fm" "coordinator_config fl = Inr cfg"
      "cc_Formats cfg = fm" "cc_MinBalance cfg = cf_minBal fl"
    using assms by (auto simp: coordinator_main_def coordinator_config_def Let_def bindR_def split: sum.splits)
  have "start_coordinator F X L B env cfg fs None = (Inr (s, sets, tls), fs', act)"
    using assms cfg(2) by (auto simp: coordinator_main_def split: sum.splits prod.splits)
  then obtain etag ui where s: "s = setRunConfig etag ((NewServer F (with_defaults (se_token env) cfg) ui)\<lparr>sv_cachePath :=
      CachePath (cc_MinBalance (with_defaults (se_token env) cfg))\<rparr>)"
    by (rule start_coordinator_Inr)
  have "cc_Formats (with_defaults t cfg) = fm"
    "cc_MinBalance (with_defaults t cfg) = (if cf_minBal fl = 0 then DefaultMinBalanceSats else cf_minBal fl)" for t
    using cfg(3,4) by (auto simp: with_defaults_def Let_def)
  moreover have "Any fm" using ParseFormatMask_Any [OF cfg(1)] .
  ultimately show ?thesis using cfg(1) format_masks_parse by (simp add: s runStatus_def)
qed

section \<open>A worker does not give up\<close>

text \<open>C33. A worker goes on until its coordinator's run is over: however many sessions fail, as long as the context has not
  ended the next one is begun, and the program returns exactly when a session ends because the run is over; a
  session that is still running keeps it running.\<close>

theorem worker_reconnects:
  assumes "\<And>r. r \<in> set failed \<Longrightarrow> (\<exists>e. session_result B r = SessionError e) \<and> \<not> sr_endedBefore r \<and> \<not> sr_endedAfter r"
    and "worker_setup K envToken numCPU osHostname fs cfg = Inr w" "\<not> sr_endedBefore r"
  shows "worker_Run B K envToken numCPU osHostname fs cfg (failed @ r # rs) =
    (case session_result B r of
       SessionOver \<Rightarrow> WorkerOver
     | StillRunning \<Rightarrow> WorkerStill
     | SessionError e \<Rightarrow> if sr_endedAfter r then WorkerContext else worker_Run B K envToken numCPU osHostname fs cfg rs)"
proof -
  have "worker_sessions B (failed @ r # rs) = worker_sessions B (r # rs)"
    using assms(1) by (induction failed) force+
  then show ?thesis using assms(2,3) by (simp add: worker_Run_def split: session_end.split)
qed

text \<open>The client the sessions use always has a token.\<close>

lemma NewClient_token:
  "NewClient K envToken fs cfg = Inr c \<Longrightarrow> cl_token c = (if wc_AuthToken cfg = '''' then envToken else wc_AuthToken cfg)"
  unfolding NewClient_def Let_def bindR_Inr_iff by fastforce

lemma worker_setup_token:
  assumes "worker_setup K envToken numCPU osHostname fs cfg = Inr (client, h, n)"
  shows "cl_token client \<noteq> '''' \<and> h \<noteq> ''''"
proof -
  have "wc_AuthToken (worker_defaults envToken cfg) \<noteq> ''''"
    and "NewClient K envToken fs (worker_defaults envToken cfg) = Inr client"
    and "h = (if osHostname = '''' then ''worker'' else osHostname)"
    using assms by (auto simp: worker_setup_def Let_def split: if_splits sum.splits)
  then show ?thesis using NewClient_token [of K envToken fs "worker_defaults envToken cfg" client] by simp
qed

section \<open>The rate the heartbeat hides\<close>

text \<open>The rate of a worker is left out of the cluster's after its periodic heartbeat, which always says \<open>waiting\<close>, although
  the worker is searching: the next statistics of another worker are all that is summed.\<close>

theorem heartbeat_hides_rate:
  assumes "sv_workers s = [(w1, e1), (w2, e2)]" "w1 \<noteq> w2" "sq_WorkerID req1 = w1" "sq_WorkerID req2 = w2"
    and "heartbeatLoop [False] = [state]"
  shows "sv_clusterKPS (recordStats F now req2 (snd (heartbeat t2 w1 state (recordStats F t1 req1 s)))) =
    f_add F (f_zero F) (sq_KeysPerSecond req2)"
  using assms by (auto simp: recordStats_def heartbeat_def Let_def freshWindow_def)

end
