(* ===== verification/ClusterEnd.thy ===== *)
theory ClusterEnd
  imports CoordLog Programs
begin

text \<open>
  The cluster from end to end: what a worker finds is in the coordinator's wallets.txt.
\<close>

section \<open>A post that returned was answered\<close>

text \<open>The handler of hits has one answer below 400, and so has its route.\<close>

lemma served_hit_success:
  assumes "hr_Path r = ''/api/v1/hit''" "rs_Code (fst (serve N F J env r a)) < 400"
  shows "rs_Code (fst (serve N F J env r a)) = StatusNoContent"
proof (cases "authorized (cc_AuthToken (sv_cfg (ap_server a))) r")
  case False
  then show ?thesis
    using assms serve_refused [OF False, of N F J env] refusal_code [of r "cc_AuthToken (sv_cfg (ap_server a))"]
    by (auto simp: HasPrefix_def)
next
  case True
  have p: "HasPrefix (hr_Path r) ''/api/v1/''" "TrimPrefix (hr_Path r) ''/api/v1'' = ''/hit''" "hr_Path r \<noteq> ''/health''"
    using assms(1) by (simp_all add: HasPrefix_def TrimPrefix_def)
  obtain ok rl where l: "rateLimit N (cc_AllowCIDR (sv_cfg (ap_server a))) (qe_now env) (hr_ForwardedFor r)
      (hr_RemoteAddr r) (ap_api a) = (ok, rl)" by (rule prod.exhaust)
  have "serve N F J env r a = api_routes N F J env r ''/hit'' a"
    using True p by (simp add: serve_def bearerAuth_cases authorized_def)
  then have "fst (serve N F J env r a) = (if ok then fst (handleHitHTTP J env r (ap_server a, ap_fs a)) else too_many)"
    by (simp add: api_routes_def l Let_def case_prod_unfold)
  moreover have "rs_Code (fst (handleHitHTTP J env r st)) < 400 \<Longrightarrow>
      rs_Code (fst (handleHitHTTP J env r st)) = StatusNoContent" for st
    by (auto simp: handleHitHTTP_def method_not_allowed_def bad_request_def http_Error_def writeHeader_def status_defs
        split: option.splits prod.splits if_splits)
  ultimately show ?thesis using assms(2) by (auto simp: too_many_def http_Error_def status_defs split: if_splits)
qed

text \<open>What an attempt of a call meets in a run of the coordinator: nothing comes back, or the answer to a request of the
  worker's client with a body of the kind \<open>ok\<close>.\<close>

definition call_in ::
  "'ip net_lib \<Rightarrow> 'f float_lib \<Rightarrow> 'f api_json \<Rightarrow> ('f \<Rightarrow> string) \<Rightarrow> bool \<Rightarrow> coord_event list \<Rightarrow> 'f coord \<Rightarrow> Client \<Rightarrow>
     call \<Rightarrow> (string \<Rightarrow> bool) \<Rightarrow> unit http_result \<Rightarrow> bool" where
  "call_in N F J rate tty evs c client call ok res \<longleftrightarrow> res = NoAnswer \<or>
     (\<exists>evs1 env body addr evs2 c1. evs = evs1 @ EvRequest env (call_request client call body addr) # evs2 \<and>
        coord_run N F J rate tty evs1 c = Some c1 \<and> co_listening c1 \<and> ok body \<and>
        res = Answer (rs_Code (fst (serve N F J env (call_request client call body addr) (co_api c1)))) None)"

text \<open>\<open>PostHit\<close> has returned without an error.\<close>

definition hit_posted ::
  "'ip net_lib \<Rightarrow> 'f float_lib \<Rightarrow> 'f api_json \<Rightarrow> ('f \<Rightarrow> string) \<Rightarrow> bool \<Rightarrow> coord_event list \<Rightarrow> 'f coord \<Rightarrow> Client \<Rightarrow>
     HitRequest \<Rightarrow> bool" where
  "hit_posted N F J rate tty evs c client req \<longleftrightarrow>
     (\<exists>ts backoff v. list_all (\<lambda>t. call_in N F J rate tty evs c client CallPostHit (\<lambda>body. aj_hit J body = Some req)
          (rt_result t)) ts \<and>
        fst (doJSON False ts backoff) = Finished v)"

lemma doJSON_finished:
  "fst (doJSON w ts b) = Finished v \<Longrightarrow> \<exists>t \<in> set ts. tryJSON w (rt_result t) = Inr v"
proof (induction ts arbitrary: b)
  case (Cons t ts)
  then show ?case by (auto split: sum.splits if_splits prod.splits) (metis fst_conv)
qed simp

lemma hit_posted_answered:
  assumes "hit_posted N F J rate tty evs c client req"
  shows "answered N F J rate tty evs c req"
proof -
  let ?in = "call_in N F J rate tty evs c client CallPostHit (\<lambda>body. aj_hit J body = Some req)"
  obtain ts b v where ts: "list_all (\<lambda>t. ?in (rt_result t)) ts"
      "fst (doJSON False ts b) = Finished v"
    using assms by (auto simp: hit_posted_def)
  obtain t where t: "t \<in> set ts" "tryJSON False (rt_result t) = Inr v" using doJSON_finished [OF ts(2)] by blast
  then have "?in (rt_result t)" using ts(1) by (simp add: list_all_iff)
  then obtain evs1 env body addr evs2 c1 where e:
      "evs = evs1 @ EvRequest env (call_request client CallPostHit body addr) # evs2"
      "coord_run N F J rate tty evs1 c = Some c1" "aj_hit J body = Some req"
      "rt_result t = Answer (rs_Code (fst (serve N F J env (call_request client CallPostHit body addr) (co_api c1)))) None"
    using t(2) by (auto simp: call_in_def tryJSON_def)
  have r: "hr_Path (call_request client CallPostHit body addr) = ''/api/v1/hit''"
    "hr_Body (call_request client CallPostHit body addr) = body"
    by (simp_all add: call_request_def call_path_def)
  have "rs_Code (fst (serve N F J env (call_request client CallPostHit body addr) (co_api c1))) < 400"
    using t(2) by (auto simp: e(4) tryJSON_def split: if_splits)
  then have code: "rs_Code (fst (serve N F J env (call_request client CallPostHit body addr) (co_api c1))) = StatusNoContent"
    by (rule served_hit_success [OF r(1)])
  show ?thesis
    unfolding answered_def post_at_def
    by (rule exI [of _ evs1], rule exI [of _ env], rule exI [of _ "call_request client CallPostHit body addr"],
        rule exI [of _ evs2], rule exI [of _ c1]) (simp add: e(1-3) r code)
qed

section \<open>Every find is kept\<close>

text \<open>C4. What a worker finds is kept by its coordinator. Let a worker's search end, each of its posts having returned, in
  whatever order its requests, those of other workers and the events of the coordinator came, however often an
  attempt was lost or repeated. As long as no write to wallets.txt failed, then for every hit of every wallet that was
  offered to the worker's search before its context ended, tried with indices that go on after its session, the
  coordinator's wallets.txt holds, in one piece, the block of a hit with the address of that wallet, posted in this run.\<close>

theorem cluster_keeps_every_find:
  fixes Js :: "'g session_lib" and J :: "'f api_json"
  assumes "start_coordinator F X L B env cfg fs act = (Inr (s, csets, tls), fs1, act1)"
    and "coord_run N F J rate tty evs (co_init (s, fs1)) = Some c"
    and "\<And>env r. EvRequest env r \<in> set evs \<Longrightarrow> qe_logFault env = LogOk"
    and "searchUntilStop L B Js encodeWIF (\<lambda>_. True) wenv fe wcfg w threads sets formats turns elapsed wfs =
      Some (report, posts, err, wfs')"
    and "\<And>req. req \<in> set posts \<Longrightarrow> hit_posted N F J rate tty evs (co_init (s, fs1)) client req"
  shows "\<exists>s0. initForeverSession Js (re_init wenv) False False False wfs = (Some s0, wfs) \<and>
    (\<forall>ev \<in> set (hits_in_order L B (worker_search_config wcfg threads formats) sets (fst (offered turns))
        (TotalKeysTried s0 + 1)).
      \<exists>renv q evs1 code a b. post_at N F J rate tty evs (co_init (s, fs1)) evs1 renv q code \<and>
        hq_Address q = EncodeMatchAddress L (ev_Kind ev) (Keys (ev_Wallet ev)) \<and>
        file_data (ap_fs (co_api c)) walletsLogFile = a @ request_record (qe_stamp renv) q @ b)"
proof -
  obtain s0 where s0: "initForeverSession Js (re_init wenv) False False False wfs = (Some s0, wfs)"
      and "posts = takeWhile (\<lambda>_. True) (due_hits L B encodeWIF wcfg w threads sets formats turns s0)"
    using worker_posts [OF assms(4)] by blast
  then have posts: "posts = due_hits L B encodeWIF wcfg w threads sets formats turns s0"
    by (simp add: takeWhile_eq_all_conv)
  have start: "sv_hitAddresses (ap_server (co_api (co_init (s, fs1)))) = []" by (rule started_fresh [OF assms(1)])
  have "\<exists>renv q evs1 code a b. post_at N F J rate tty evs (co_init (s, fs1)) evs1 renv q code \<and>
        hq_Address q = EncodeMatchAddress L (ev_Kind ev) (Keys (ev_Wallet ev)) \<and>
        file_data (ap_fs (co_api c)) walletsLogFile = a @ request_record (qe_stamp renv) q @ b"
    if ev: "ev \<in> set (hits_in_order L B (worker_search_config wcfg threads formats) sets (fst (offered turns))
        (TotalKeysTried s0 + 1))" for ev
  proof -
    have "hit_request L encodeWIF w ev \<in> set posts" using ev unfolding posts due_hits_def by simp
    from answered_kept [OF assms(2) start assms(3) hit_posted_answered [OF assms(5) [OF this]]]
    show ?thesis unfolding log_holds_def by (auto simp: hit_request_def)
  qed
  with s0 show ?thesis by blast
qed

end
