(* ===== verification/Outage.thy ===== *)
theory Outage
  imports ClusterEnd
begin

text \<open>
  A worker that the coordinator has not heard from for thirty seconds, for whatever reason, is dropped, and the two
  never recover.
\<close>

section \<open>A dropped worker stays unknown\<close>

definition known :: "string \<Rightarrow> 'f Server \<Rightarrow> bool" where
  "known w s \<longleftrightarrow> map_of (sv_workers s) w \<noteq> None"

lemma register_known: "known w (snd (register F rnd now req s)) \<Longrightarrow> newWorkerID rnd = w \<or> known w s"
  by (auto simp: register_def known_def Let_def update_conv split: if_splits)

lemma handleRegister_known:
  assumes "known w (snd (handleRegister F J env r s))"
  shows "newWorkerID (qe_rnd env) = w \<or> known w s"
proof -
  have "snd (handleRegister F J env r s) = s \<or>
      (\<exists>req. snd (handleRegister F J env r s) = snd (register F (qe_rnd env) (qe_now env) req s))"
    by (auto simp: handleRegister_def Let_def case_prod_unfold split: option.split)
  then show ?thesis using assms register_known by metis
qed

lemma heartbeat_known: "known w (snd (heartbeat now i state s)) = known w s"
  by (auto simp: heartbeat_def Let_def known_def update_conv split: option.split)

lemma handleHeartbeat_known: "known w (snd (handleHeartbeat J env r s)) = known w s"
proof (cases "aj_heartbeat J (hr_Body r)")
  case (Some b)
  obtain ok s' where h: "heartbeat (qe_now env) (hb_WorkerID b) (hb_State b) s = (ok, s')" by (rule prod.exhaust)
  then have "known w s' = known w s" using heartbeat_known by (metis snd_conv)
  then show ?thesis by (simp add: handleHeartbeat_def Some h split: bool.split)
qed (simp add: handleHeartbeat_def)

lemma recordStats_known: "known w (recordStats F now req s) = known w s"
  by (auto simp: recordStats_def Let_def known_def update_conv split: option.split)

lemma serve_known:
  assumes "known w (ap_server (snd (serve N F J env r a)))" "newWorkerID (qe_rnd env) \<noteq> w"
  shows "known w (ap_server a)"
proof -
  let ?a' = "snd (serve N F J env r a)"
  show ?thesis
  proof (rule serve_cases [of N F J env r a])
    assume "ap_server ?a' = snd (handleRegister F J env r (ap_server a))"
    then show ?thesis
      using assms handleRegister_known by metis
  next
    assume "ap_server ?a' = snd (handleHeartbeat J env r (ap_server a))"
    then show ?thesis
      using assms(1) by (simp add: handleHeartbeat_known)
  next
    assume "ap_server ?a' = snd (handleStats F J env r (ap_server a))"
    then show ?thesis
      using assms(1)
      by (auto simp: handleStats_def recordStats_known split: if_splits option.splits)
  next
    assume "(ap_server ?a', ap_fs ?a') = snd (handleHitHTTP J env r (ap_server a, ap_fs a))"
    then have "ap_server ?a' = fst (snd (handleHitHTTP J env r (ap_server a, ap_fs a)))" by (metis fst_conv)
    moreover have "sv_workers (fst (snd (handleHitHTTP J env r (ap_server a, ap_fs a)))) = sv_workers (ap_server a)"
    proof (cases "aj_hit J (hr_Body r)")
      case (Some req)
      obtain e s' fs' where h: "handleHit (qe_logFault env) (qe_now env) (qe_stamp env) req (ap_server a, ap_fs a) =
          (e, s', fs')" by (rule prod_cases3)
      then have "sv_workers s' = sv_workers (ap_server a)" by (metis fst_conv snd_conv handleHit_workers)
      then show ?thesis by (simp add: handleHitHTTP_def Some h split: option.split)
    qed (simp add: handleHitHTTP_def)
    ultimately show ?thesis using assms(1) by (simp add: known_def)
  qed (use assms(1) in simp)
qed

lemma saying_known [simp]: "known w (saying t s) = known w s"
  by (simp add: known_def saying_def)

lemma phase_known [simp]: "known w (startRun F now s) = known w s" "known w (stopRun s) = known w s"
  "known w (endRun s) = known w s"
  by (simp_all add: known_def startRun_def stopRun_def endRun_def map_of_map_value)

lemma step_known:
  assumes "coord_step N F J rate tty ev c = Some c'" "known w (ap_server (co_api c'))"
    and "\<And>env r. ev = EvRequest env r \<Longrightarrow> newWorkerID (qe_rnd env) \<noteq> w"
  shows "known w (ap_server (co_api c))"
proof (cases ev)
  case (EvMain now)
  then show ?thesis
    using assms(1,2)
    by (cases "co_pc c") (auto simp: main_turn_def Let_def announce_start_def split: if_splits)
next
  case (EvRequest env r)
  then have "co_api c' = snd (serve N F J env r (co_api c))" using assms(1) by (auto split: if_splits)
  then show ?thesis using serve_known assms(2,3) EvRequest by metis
next
  case (EvDashboard now)
  have "dashboard_tick rate now (s, l) = (s', l') \<Longrightarrow> known w s' = known w s" for s l s' l'
    using dashboard_prints [of rate now s l] by (auto simp: known_def)
  then show ?thesis using EvDashboard assms(1,2) by (auto split: if_splits prod.splits)
next
  case (EvPrune now)
  then show ?thesis
    using assms(1,2)
    by (auto simp: pruneStale_def Let_def known_def map_of_eq_None_iff split: if_splits)
qed (use assms in \<open>auto split: if_splits\<close>)

lemma run_unknown:
  assumes "coord_run N F J rate tty evs c = Some c'" "\<not> known w (ap_server (co_api c))"
    and "\<And>env r. EvRequest env r \<in> set evs \<Longrightarrow> newWorkerID (qe_rnd env) \<noteq> w"
  shows "\<not> known w (ap_server (co_api c'))"
  using assms
proof (induction evs arbitrary: c)
  case (Cons ev evs)
  then obtain c1 where c1: "coord_step N F J rate tty ev c = Some c1" "coord_run N F J rate tty evs c1 = Some c'"
    by (auto split: option.splits)
  have "\<not> known w (ap_server (co_api c1))" using step_known [OF c1(1)] Cons.prems(2,3) by auto
  then show ?case using Cons.IH [OF c1(2)] Cons.prems(3) by auto
qed simp

lemma pruned_unknown:
  assumes "distinct (map fst (sv_workers s))" "map_of (sv_workers s) w = Some e" "we_LastSeen e < now - freshWindow"
  shows "\<not> known w (pruneStale now s)"
  using assms by (simp add: known_def pruneStale_def Let_def map_of_filter_key)

section \<open>Its calls are refused for ever\<close>

text \<open>The bodies of a call by which the worker \<open>w\<close> names itself.\<close>

definition names_worker :: "'f api_json \<Rightarrow> string \<Rightarrow> call \<Rightarrow> string \<Rightarrow> bool" where
  "names_worker J w call body =
     (case call of
        CallHeartbeat \<Rightarrow> (case aj_heartbeat J body of Some b \<Rightarrow> hb_WorkerID b = w | None \<Rightarrow> False)
      | CallPostHit \<Rightarrow> (case aj_hit J body of Some q \<Rightarrow> hq_WorkerID q = w | None \<Rightarrow> False)
      | _ \<Rightarrow> False)"

lemma unknown_refused:
  assumes "\<not> known w (ap_server a)" "names_worker J w call body"
  shows "rs_Code (fst (serve N F J env (call_request client call body addr) a)) \<ge> 400"
proof -
  let ?r = "call_request client call body addr"
  have call: "call = CallHeartbeat \<or> call = CallPostHit" using assms(2) by (cases call) (simp_all add: names_worker_def)
  have r: "hr_Body ?r = body" "hr_Method ?r = MethodPost" "hr_Path ?r = call_path call"
    using call by (auto simp: call_request_def call_method_def)
  show ?thesis
  proof (cases "authorized (cc_AuthToken (sv_cfg (ap_server a))) ?r")
    case False
    then show ?thesis
      using serve_refused [OF False, of N F J env] refusal_code [of ?r "cc_AuthToken (sv_cfg (ap_server a))"]
        call_route(1) [of call] r(3) by auto
  next
    case True
    obtain ok rl where l: "rateLimit N (cc_AllowCIDR (sv_cfg (ap_server a))) (qe_now env) (hr_ForwardedFor ?r)
        (hr_RemoteAddr ?r) (ap_api a) = (ok, rl)" by (rule prod.exhaust)
    have "serve N F J env ?r a = api_routes N F J env ?r (TrimPrefix (call_path call) ''/api/v1'') a"
      using True call_route [of call] r(3) by (simp add: serve_def bearerAuth_cases authorized_def)
    then have "fst (serve N F J env ?r a) = (if ok then (if call = CallHeartbeat
        then fst (handleHeartbeat J env ?r (ap_server a)) else fst (handleHitHTTP J env ?r (ap_server a, ap_fs a)))
      else too_many)"
      using call l by (elim disjE; cases ok) (simp_all add: call_route(3) api_routes_def Let_def case_prod_unfold)
    moreover have "rs_Code (fst (handleHeartbeat J env ?r (ap_server a))) \<ge> 400" if "call = CallHeartbeat"
    proof -
      obtain b where "aj_heartbeat J body = Some b" "hb_WorkerID b = w"
        using assms(2) \<open>call = CallHeartbeat\<close> by (auto simp: names_worker_def split: option.splits)
      then show ?thesis
        using assms(1) by (simp add: handleHeartbeat_def heartbeat_def known_def r http_Error_def status_defs)
    qed
    moreover have "rs_Code (fst (handleHitHTTP J env ?r (ap_server a, ap_fs a))) \<ge> 400" if "call = CallPostHit"
    proof -
      obtain q where "aj_hit J body = Some q" "hq_WorkerID q = w"
        using assms(2) \<open>call = CallPostHit\<close> by (auto simp: names_worker_def split: option.splits)
      then show ?thesis
        using assms(1) by (simp add: handleHitHTTP_def handleHit_def known_def r http_Error_def status_defs)
    qed
    ultimately show ?thesis using call by (auto simp: too_many_def http_Error_def status_defs)
  qed
qed

text \<open>C29. A worker and its coordinator do not recover from an outage. Once the coordinator has pruned a worker that it had not
  heard from for thirty seconds, the worker's heartbeats and the hits it posts are refused whatever happens
  afterwards, unless a new worker is given the very same id; and since the client repeats a refused request for as
  long as its context lives, the call never returns: the worker neither registers again nor goes on, and the key it
  has found is not logged.\<close>

theorem pruned_worker_hangs:
  assumes "start_coordinator F X L B env cfg fs act = (Inr (s, sets, tls), fs1, act1)"
    and "coord_run N F J rate tty evs0 (co_init (s, fs1)) = Some c0"
    and "map_of (sv_workers (ap_server (co_api c0))) w = Some e" "we_LastSeen e < now - freshWindow"
    and "coord_step N F J rate tty (EvPrune now) c0 = Some c"
    and "\<And>env r. EvRequest env r \<in> set evs \<Longrightarrow> newWorkerID (qe_rnd env) \<noteq> w"
    and "list_all (\<lambda>t. call_in N F J rate tty evs c client call (names_worker J w call) (rt_result t) \<and>
      \<not> rt_ended t \<and> \<not> rt_endedWaiting t) ts"
  shows "fst (doJSON False ts backoff) = Running"
proof (rule doJSON_stuck)
  obtain etag where "reachable F (with_defaults (se_token env) cfg) etag (ap_server (co_api c0), ap_fs (co_api c0))"
    using started_reachable [OF assms(1,2)] by metis
  then have "distinct (map fst (sv_workers (ap_server (co_api c0))))"
    using reachable_ok by (fastforce simp: server_ok_def)
  then have c: "\<not> known w (ap_server (co_api c))"
    using pruned_unknown [OF _ assms(3,4)] assms(5) by (auto split: if_splits)
  have "isl (tryJSON False res)"
    if "call_in N F J rate tty evs c client call (names_worker J w call) res" for res
  proof (cases "res = NoAnswer")
    case False
    then obtain evs1 env body addr evs2 c1 where r: "evs = evs1 @ EvRequest env (call_request client call body addr) # evs2"
        "coord_run N F J rate tty evs1 c = Some c1" "names_worker J w call body"
        "res = Answer (rs_Code (fst (serve N F J env (call_request client call body addr) (co_api c1)))) None"
      using \<open>call_in N F J rate tty evs c client call (names_worker J w call) res\<close> unfolding call_in_def by blast
    have "\<not> known w (ap_server (co_api c1))"
      by (rule run_unknown [OF r(2) c]) (rule assms(6), auto simp: r(1))
    then have "rs_Code (fst (serve N F J env (call_request client call body addr) (co_api c1))) \<ge> 400"
      using unknown_refused r(3) by metis
    then show ?thesis by (simp add: r(4) tryJSON_def)
  qed (simp add: tryJSON_def)
  then show "list_all (fails_on (\<lambda>r. isl (tryJSON False r))) ts"
    using assms(7) by (simp add: list_all_iff fails_on_def)
qed

section \<open>The last report of a search\<close>

lemma background_fails:
  "list_all (\<lambda>r. isl (tryJSON False r)) rs \<Longrightarrow> list_all (fails_on (\<lambda>r. isl (tryJSON False r))) (background rs)"
  by (simp add: background_def list_all_iff fails_on_def)

text \<open>A coordinator that has returned answers nothing.\<close>

lemma returned_answers_nothing:
  assumes "coord_step N F J rate tty (EvMain now) c0 = Some c" "co_pc c = PcReturned"
    and "call_in N F J rate tty evs c client call ok res"
  shows "res = NoAnswer"
proof (rule ccontr)
  assume "res \<noteq> NoAnswer"
  then obtain evs1 c1 where r: "coord_run N F J rate tty evs1 c = Some c1" "co_listening c1"
    using assms(3) by (auto simp: call_in_def)
  have "\<not> co_listening c"
    using assms(1,2) by (cases "co_pc c0") (auto simp: main_turn_def Let_def split: if_splits)
  moreover from this have "coord_step N F J rate tty ev c = None" for ev
    using assms(2) by (cases ev) (simp_all add: main_turn_def Let_def)
  then have "c1 = c" using r(1) by (cases evs1) (auto split: option.splits)
  ultimately show False using r(2) by simp
qed

text \<open>A worker whose search ends after its coordinator has returned, by its own interrupt too, does not end: its last report
  is repeated for ever, and so is its heartbeat when the report got through.\<close>

theorem late_report_hangs:
  assumes "coord_step N F J rate tty (EvMain now) c0 = Some c" "co_pc c = PcReturned"
    and "list_all (call_in N F J rate tty evs c client CallPostStats (\<lambda>_. True)) reports"
  shows "finish_search reports beats backoff = Running"
proof -
  have "isl (tryJSON False r)" if "r \<in> set reports" for r
    using returned_answers_nothing [OF assms(1,2)] assms(3) that by (fastforce simp: list_all_iff tryJSON_def)
  then have "fst (doJSON False (background reports) backoff) = Running"
    by (intro doJSON_stuck background_fails) (simp add: list_all_iff)
  then show ?thesis by (auto simp: finish_search_def split: prod.split retried.split)
qed

end
