(* ===== verification/ProgramSamples.thy ===== *)
theory ProgramSamples
  imports Programs ClusterSamples
begin

text \<open>
  Concrete programs of the cluster: the theorems of \<open>Programs\<close> applied to them.
\<close>

definition sample_client :: Client where
  "sample_client = \<lparr>cl_base = ''https://10.0.0.1:8443'', cl_token = ''secret'', cl_timeout = 90 * second,
     cl_cacheTimeout = 45 * 60 * second, cl_skipVerify = False, cl_rootCAs = None, cl_certificate = False,
     cl_proxy = None, cl_backoff = second, cl_verbose = False\<rparr>"

theorem calls_reach_handlers_witness:
  "\<exists>resp a'. serve sample_net unit_float sample_json sample_req_env
      (call_request sample_client CallHeartbeat ''w-ab'' ''203.0.113.9:4000'') (sample_api\<lparr>ap_api := None\<rparr>) = (resp, a') \<and>
    (resp, ap_server a', ap_fs a') = call_handler unit_float sample_json sample_req_env CallHeartbeat
      (call_request sample_client CallHeartbeat ''w-ab'' ''203.0.113.9:4000'') (sample_server, Map.empty)"
proof -
  let ?r = "call_request sample_client CallHeartbeat ''w-ab'' ''203.0.113.9:4000''" and ?a = "sample_api\<lparr>ap_api := None\<rparr>"
  obtain resp a' where s: "serve sample_net unit_float sample_json sample_req_env ?r ?a = (resp, a')"
    by (rule prod.exhaust)
  have a: "ap_server ?a = sample_server" "ap_fs ?a = Map.empty" "ap_api ?a = None"
    by (simp_all add: sample_api_def mountAPI_def)
  have "fst (rateLimit sample_net (cc_AllowCIDR (sv_cfg (ap_server ?a))) (qe_now sample_req_env) (hr_ForwardedFor ?r)
      (hr_RemoteAddr ?r) (call_limiter CallHeartbeat ?a))"
    by (simp add: call_limiter_def a rateLimit_def Let_def allow_def)
  from calls_reach_handlers [OF _ _ refl s this] s show ?thesis
    by (simp add: a sample_client_def sample_server_cfg sample_coord_def)
qed

definition sample_flags :: coord_flags where
  "sample_flags = default_coord_flags\<lparr>cf_authToken := ''secret'', cf_insecure := True\<rparr>"

lemma sample_flags_config:
  "coordinator_config sample_flags = Inr (sample_coord\<lparr>cc_MaxWorkers := 0\<rparr>)"
proof -
  have "ParseFormatMask ''all'' = Inr AllFormats"
    using format_masks_parse [of AllFormats] by (simp add: FormatMask_String_def AllFormats_def Any_def)
  then show ?thesis
    by (simp add: coordinator_config_def sample_flags_def default_coord_flags_def sample_coord_def DefaultMinBalanceSats_def)
qed

theorem workers_get_flags_witness:
  "\<exists>(s :: unit Server) sets tls fs' act. coordinator_main unit_float sample_text sample_lib sample_bloom sample_start_env sample_flags
      sample_fs = (Inr (s, sets, tls), fs', act) \<and> ParseFormatList (rc_Formats (rr_Config (runStatus s))) = Inr AllFormats"
proof -
  obtain p :: "u8 Sets" where p: "parseTSV sample_lib 30000 (bytes_chars (chars_bytes sample_tsv)) = Inr p" "tables_fit p"
    by (rule sample_parsed_file)
  have d: "with_defaults (se_token sample_start_env) (sample_coord\<lparr>cc_MaxWorkers := 0\<rparr>) = sample_coord\<lparr>cc_MaxWorkers := 0\<rparr>"
    by (simp add: with_defaults_def sample_coord_def sample_start_env_def)
  have "\<exists>(s :: unit Server) sets tls fs' act'. start_coordinator unit_float sample_text sample_lib sample_bloom sample_start_env
      (sample_coord\<lparr>cc_MaxWorkers := 0\<rparr>) sample_fs None = (Inr (s, sets, tls), fs', act')"
    by (rule start_coordinator_works [where ?fs1.0 = sample_fs and m = 30000 and p = p
          and tsv = "\<lparr>f_data = chars_bytes sample_tsv, f_mtime = 5\<rparr>"])
      (use p in \<open>simp_all add: sample_update d sample_tsv_file sample_faithful sample_bloom_lossless
        sample_bloom_storable sample_nano\<close>, simp_all add: sample_coord_def sample_start_env_def sample_env_def)
  then obtain s :: "unit Server" and sets tls fs' act where m: "coordinator_main unit_float sample_text sample_lib sample_bloom
      sample_start_env sample_flags sample_fs = (Inr (s, sets, tls), fs', act)"
    by (auto simp: coordinator_main_def sample_flags_config)
  have "ParseFormatMask (cf_formats sample_flags) = Inr AllFormats"
    using format_masks_parse [of AllFormats]
    by (simp add: sample_flags_def default_coord_flags_def FormatMask_String_def AllFormats_def Any_def)
  then show ?thesis using workers_get_flags [OF m] m by auto
qed

definition sample_tools :: client_lib where
  "sample_tools = \<lparr>k_pemOk = (\<lambda>_. True), k_keyPairOk = (\<lambda>_ _. True), k_urlOk = (\<lambda>_. True)\<rparr>"

text \<open>A session that the coordinator rejects, and one that ends because the run is over.\<close>

definition dropped_session :: session_run where
  "dropped_session = \<lparr>sr_endedBefore = False, sr_register = Finished empty_RegisterResponse, sr_sync = [], sr_mmapFails = False,
     sr_turns = [], sr_backoff = second, sr_fs = Map.empty, sr_map = None, sr_endedAfter = False\<rparr>"

definition last_session :: "fs \<Rightarrow> session_run" where
  "last_session fs = dropped_session\<lparr>sr_register := Finished sample_answer, sr_sync := sample_sync, sr_fs := fs,
     sr_turns := [(sample_session_turn '''' [])\<lparr>tn_status := Finished \<lparr>rr_State = StateEnded, rr_Config = empty_RunConfig\<rparr>\<rparr>]\<rparr>"

lemma dropped_result: "session_result B dropped_session = SessionError SessionRejected"
  by (simp add: session_result_def dropped_session_def runSession_def empty_RegisterResponse_def)

lemma last_result:
  obtains fs where "session_result sample_bloom (last_session fs) = SessionOver"
proof -
  let ?path = "''funded.cache''"
  obtain d where d: "\<And>fs now. fs ?path = Some \<lparr>f_data = d, f_mtime = now\<rparr> \<Longrightarrow>
      CacheETag fs ?path = Inr (show_int 5 @ ''-'' @ show_nat 30000) \<and>
      (\<forall>act. LoadFromCacheFile sample_bloom False fs ?path act = (Inr (cached sample_sets), Some d))"
    using sample_cache [OF sample_nano(1), of ?path] by blast
  define fs :: fs where "fs = [?path \<mapsto> \<lparr>f_data = d, f_mtime = 0\<rparr>]"
  have path: "CachePath (cache_min (rp_Config sample_answer)) = ?path" "rp_WorkerID sample_answer \<noteq> ''''"
    by (simp_all add: sample_answer_def cache_min_def CachePath_def DefaultCacheFile_def)
  have l: "LoadFromCacheFile sample_bloom False fs ?path act = (Inr (cached sample_sets), Some d)" for act
    using d [of fs 0] by (simp add: fs_def)
  have s: "DownloadCache ?path tag sample_sync second fs = (Finished tag, second, [], fs)" for tag
    by (simp add: sample_sync_def sample_turn_def tryDownloadCache_def)
  have "session_result sample_bloom (last_session fs) = SessionOver"
    by (simp add: session_result_def last_session_def dropped_session_def runSession_def path l s Let_def state_names)
  then show thesis by (rule that)
qed

theorem worker_reconnects_witness:
  "\<exists>fs. worker_Run sample_bloom sample_tools '''' 4 ''h'' Map.empty sample_worker
      (replicate 3 dropped_session @ [last_session fs]) = WorkerOver"
proof -
  have "\<exists>w. worker_setup sample_tools '''' 4 ''h'' Map.empty sample_worker = Inr w"
    by (simp add: worker_setup_def worker_defaults_def NewClient_def sample_worker_def second_def Let_def)
  then obtain w where w: "worker_setup sample_tools '''' 4 ''h'' Map.empty sample_worker = Inr w" ..
  obtain fs where r: "session_result sample_bloom (last_session fs) = SessionOver" by (rule last_result)
  have "worker_Run sample_bloom sample_tools '''' 4 ''h'' Map.empty sample_worker
      (replicate 3 dropped_session @ [last_session fs]) = WorkerOver"
    by (subst worker_reconnects [OF _ w])
      (auto simp: dropped_result r, auto simp: dropped_session_def last_session_def)
  then show ?thesis by blast
qed

theorem heartbeat_hides_rate_witness:
  "\<exists>s :: unit Server. map fst (sv_workers s) = [''w-a'', ''w-b''] \<and>
    sv_clusterKPS (recordStats unit_float 9 \<lparr>sq_WorkerID = ''w-b'', sq_KeysTriedDelta = 1, sq_KeysPerSecond = (),
        sq_RunKeysTried = 1\<rparr> (snd (heartbeat 8 ''w-a'' ''waiting'' (recordStats unit_float 7 \<lparr>sq_WorkerID = ''w-a'',
        sq_KeysTriedDelta = 1, sq_KeysPerSecond = (), sq_RunKeysTried = 1\<rparr> s)))) = f_add unit_float () ()"
proof -
  let ?e = "\<lparr>we_ID = '''', we_Hostname = ''h'', we_Threads = 1, we_Version = ''1'', we_State = workerRunning,
    we_LastSeen = 1, we_RunKeys = 0, we_KeysPerSec = ()\<rparr>"
  have "sv_workers (sample_server\<lparr>sv_workers := [(''w-a'', ?e), (''w-b'', ?e)]\<rparr>) = [(''w-a'', ?e), (''w-b'', ?e)]" by simp
  note heartbeat_hides_rate [OF this, of
      "\<lparr>sq_WorkerID = ''w-a'', sq_KeysTriedDelta = 1, sq_KeysPerSecond = (), sq_RunKeysTried = 1\<rparr>"
      "\<lparr>sq_WorkerID = ''w-b'', sq_KeysTriedDelta = 1, sq_KeysPerSecond = (), sq_RunKeysTried = 1\<rparr>" "''waiting''" unit_float 9 8 7]
  then show ?thesis
    by (intro exI [of _ "sample_server\<lparr>sv_workers := [(''w-a'', ?e), (''w-b'', ?e)]\<rparr>"]) simp
qed

end
