(* ===== verification/RunSamples.thy ===== *)
theory RunSamples
  imports Outage ProgramSamples
begin

text \<open>
  A concrete run of a coordinator with a worker: the theorems of \<open>CoordRun\<close>, \<open>CoordLog\<close>, \<open>ClusterEnd\<close> and \<open>Outage\<close>
  applied to it.
\<close>

section \<open>A coordinator without limits\<close>

definition run_coord :: CoordConfig where
  "run_coord = sample_coord\<lparr>cc_RateRegister := -1, cc_RateCache := -1, cc_RateAPI := -1\<rparr>"

lemma run_started:
  obtains s :: "unit Server" and sets tls fs' act' etag ui where
    "start_coordinator unit_float sample_text sample_lib sample_bloom sample_start_env run_coord sample_fs None =
      (Inr (s, sets, tls), fs', act')"
    "s = setRunConfig etag ((NewServer unit_float run_coord ui)\<lparr>sv_cachePath := CachePath 30000\<rparr>)"
proof -
  obtain p :: "u8 Sets" where p: "parseTSV sample_lib 30000 (bytes_chars (chars_bytes sample_tsv)) = Inr p" "tables_fit p"
    by (rule sample_parsed_file)
  have d: "with_defaults (se_token sample_start_env) run_coord = run_coord"
    by (simp add: with_defaults_def run_coord_def sample_coord_def sample_start_env_def)
  have "\<exists>(s :: unit Server) sets tls fs' act'. start_coordinator unit_float sample_text sample_lib sample_bloom sample_start_env
      run_coord sample_fs None = (Inr (s, sets, tls), fs', act')"
    by (rule start_coordinator_works [where ?fs1.0 = sample_fs and m = 30000 and p = p
          and tsv = "\<lparr>f_data = chars_bytes sample_tsv, f_mtime = 5\<rparr>"])
      (use p in \<open>simp_all add: sample_update d sample_tsv_file sample_faithful sample_bloom_lossless
        sample_bloom_storable sample_nano\<close>, simp_all add: run_coord_def sample_coord_def sample_start_env_def sample_env_def)
  then obtain s :: "unit Server" and sets tls fs' act' where
    st: "start_coordinator unit_float sample_text sample_lib sample_bloom sample_start_env run_coord sample_fs None =
      (Inr (s, sets, tls), fs', act')" by blast
  obtain etag ui where "s = setRunConfig etag ((NewServer unit_float run_coord ui)\<lparr>sv_cachePath :=
      CachePath (cc_MinBalance run_coord)\<rparr>)"
    using start_coordinator_Inr [OF st] d by metis
  then show thesis using that st by (simp add: run_coord_def sample_coord_def)
qed

section \<open>A worker registers\<close>

definition run_json :: "HitRequest \<Rightarrow> unit api_json" where
  "run_json q = \<lparr>aj_register = (\<lambda>b. Some sample_register),
     aj_heartbeat = (\<lambda>b. Some \<lparr>hb_WorkerID = b, hb_State = ''waiting''\<rparr>),
     aj_stats = (\<lambda>b. Some \<lparr>sq_WorkerID = ''w-cd'', sq_KeysTriedDelta = 7, sq_KeysPerSecond = (), sq_RunKeysTried = 7\<rparr>),
     aj_hit = (\<lambda>b. Some q)\<rparr>"

definition post :: "call \<Rightarrow> http_request" where
  "post c = call_request sample_client c '''' ''203.0.113.9:4000''"

definition first_events :: "coord_event list" where
  "first_events = [EvMain 1, EvListen, EvRequest sample_req_env (post CallRegister)]"

abbreviation run_of :: "HitRequest \<Rightarrow> coord_event list \<Rightarrow> unit coord \<Rightarrow> unit coord option" where
  "run_of q \<equiv> coord_run sample_net unit_float (run_json q) (\<lambda>_. ''0'') False"

lemma sample_id: "newWorkerID [0xCD] = ''w-cd''"
  by code_simp

lemma no_limit: "default_limiter (-1) n w = None" "rateLimit N cidrs now xff addr None = (True, None)"
  by (simp_all add: default_limiter_def newRateLimiter_def rateLimit_def allow_def Let_def)

text \<open>The worker is registered and the run is on.\<close>

definition searching :: "unit coord \<Rightarrow> bool" where
  "searching c \<longleftrightarrow> co_pc c = PcSearching \<and> co_listening c \<and> co_pruner c \<and> ap_api (co_api c) = None \<and>
     cc_AuthToken (sv_cfg (ap_server (co_api c))) = ''secret'' \<and> sv_hitAddresses (ap_server (co_api c)) = [] \<and>
     (\<exists>e. map_of (sv_workers (ap_server (co_api c))) ''w-cd'' = Some e \<and> we_LastSeen e = 50)"

lemma first_events_run:
  assumes "s = setRunConfig etag ((NewServer unit_float run_coord ui)\<lparr>sv_cachePath := CachePath 30000\<rparr>)"
  shows "\<exists>c. run_of q first_events (co_init (s, fs)) = Some c \<and> searching c"
proof -
  have r: "hr_Path (post CallRegister) = ''/api/v1/register''" "hr_Method (post CallRegister) = MethodPost"
    "hr_Authorization (post CallRegister) = ''Bearer secret''"
    by (simp_all add: post_def call_request_def call_path_def call_method_def auth_header_def sample_client_def)
  have p: "HasPrefix ''/api/v1/register'' ''/api/v1/''" "TrimPrefix ''/api/v1/register'' ''/api/v1'' = ''/register''"
    by (simp_all add: HasPrefix_def TrimPrefix_def)
  have s: "sv_cfg s = run_coord" "sv_workers s = []" "sv_hitAddresses s = []"
    by (simp_all add: assms setRunConfig_def NewServer_def)
  have cfg: "cc_AutoStart run_coord = False" "cc_Insecure run_coord" "cc_AuthToken run_coord = ''secret''"
    "cc_MaxWorkers run_coord = 1" "cc_RateRegister run_coord = -1" "cc_RateAPI run_coord = -1" "cc_RateCache run_coord = -1"
    by (simp_all add: run_coord_def sample_coord_def)
  show ?thesis
    by (simp add: first_events_def main_turn_def co_init_def mountAPI_def s cfg no_limit on_server_def saying_def startRun_def
        serve_def bearerAuth_cases r p api_routes_def handleRegister_def run_json_def sample_register_def register_def
        sample_req_env_def sample_id searching_def Let_def)
qed

text \<open>The answer to a hit of the registered worker.\<close>

lemma post_requests:
  "hr_Path (post c) = call_path c" "hr_Method (post c) = call_method c" "hr_Body (post c) = ''''"
  "hr_Authorization (post c) = ''Bearer secret''"
  by (simp_all add: post_def call_request_def auth_header_def sample_client_def)

lemma hit_accepted:
  assumes "searching c" "hq_WorkerID q = ''w-cd''"
  shows "rs_Code (fst (serve sample_net unit_float (run_json q) sample_req_env (post CallPostHit) (co_api c))) = StatusNoContent"
proof -
  have p: "HasPrefix ''/api/v1/hit'' ''/api/v1/''" "TrimPrefix ''/api/v1/hit'' ''/api/v1'' = ''/hit''"
    by (simp_all add: HasPrefix_def TrimPrefix_def)
  obtain e where e: "map_of (sv_workers (ap_server (co_api c))) ''w-cd'' = Some e" "ap_api (co_api c) = None"
      "cc_AuthToken (sv_cfg (ap_server (co_api c))) = ''secret''" "sv_hitAddresses (ap_server (co_api c)) = []"
    using assms(1) by (auto simp: searching_def)
  let ?s = "ap_server (co_api c)" and ?fs = "ap_fs (co_api c)"
  have known: "map_of (sv_workers ?s) (hq_WorkerID q) \<noteq> None" using e(1) assms(2) by simp
  obtain s' fs' where h: "handleHit LogOk 50 ''t'' q (?s, ?fs) = (None, s', fs')"
    using handleHit_fresh [OF known, of 50 "''t''" ?fs] e(4) by simp
  have "fst (serve sample_net unit_float (run_json q) sample_req_env (post CallPostHit) (co_api c)) =
      fst (handleHitHTTP (run_json q) sample_req_env (post CallPostHit) (?s, ?fs))"
    by (simp add: serve_def post_requests call_path_def p bearerAuth_cases e api_routes_def no_limit Let_def case_prod_unfold)
  also have "rs_Code \<dots> = StatusNoContent"
    by (simp add: handleHitHTTP_def post_requests call_method_def run_json_def sample_req_env_def writeHeader_def h)
  finally show ?thesis .
qed

section \<open>The phases\<close>

definition no_hit :: HitRequest where
  "no_hit = \<lparr>hq_WorkerID = ''w-cd'', hq_Address = ''1abc'', hq_WIF = ''K'', hq_Format = ''p2sh'', hq_BalanceSats = 7,
     hq_KeyIndex = 3\<rparr>"

lemma ending_events:
  assumes "searching c"
  shows "\<exists>c1 c2. run_of q [EvCancel] c = Some c1 \<and> co_done c1 \<and> co_pc c1 = PcSearching \<and>
    run_of q [EvMain 2, EvPrune 5, EvMain 3] c1 = Some c2 \<and> co_pc c2 = PcShutdown"
  using assms by (simp add: searching_def main_turn_def Let_def)

theorem coordinator_run_phases_witness:
  "\<exists>(s :: unit Server) sets tls fs' act' c c'. start_coordinator unit_float sample_text sample_lib sample_bloom sample_start_env
      run_coord sample_fs None = (Inr (s, sets, tls), fs', act') \<and>
    run_of no_hit first_events (co_init (s, fs')) = Some c \<and>
    run_of no_hit [EvCancel, EvMain 2, EvPrune 5, EvMain 3] c = Some c' \<and>
    rr_State (runStatus (ap_server (co_api c))) = StateRunning \<and> rr_State (runStatus (ap_server (co_api c'))) = StateEnded"
proof (rule run_started)
  fix s :: "unit Server" and sets tls fs' act' etag ui
  assume st: "start_coordinator unit_float sample_text sample_lib sample_bloom sample_start_env run_coord sample_fs None =
      (Inr (s, sets, tls), fs', act')"
    and s: "s = setRunConfig etag ((NewServer unit_float run_coord ui)\<lparr>sv_cachePath := CachePath 30000\<rparr>)"
  obtain c where c: "run_of no_hit first_events (co_init (s, fs')) = Some c" "searching c"
    using first_events_run [OF s] by blast
  obtain c1 c2 where r: "run_of no_hit [EvCancel] c = Some c1" "run_of no_hit [EvMain 2, EvPrune 5, EvMain 3] c1 = Some c2"
      and pc: "co_pc c2 = PcShutdown"
    using ending_events [OF c(2)] by blast
  from r have c2: "run_of no_hit [EvCancel, EvMain 2, EvPrune 5, EvMain 3] c = Some c2"
    by (rule coord_run_then [where evs = "[EvCancel]", unfolded append_Cons append_Nil])
  show ?thesis
    using coordinator_run_phases [OF st c(1) c2] st c c2 pc by (fastforce simp: searching_def)
qed

theorem coordinator_ends_witness:
  "\<exists>c c'. co_done c \<and> co_pc c = PcSearching \<and> run_of no_hit [EvMain 2, EvPrune 5, EvMain 3, EvMain 4] c = Some c' \<and>
    co_pc c' = PcReturned \<and> sv_runState (ap_server (co_api c')) = StateEnded"
proof (rule run_started)
  fix s :: "unit Server" and sets tls fs' act' etag ui
  assume st: "start_coordinator unit_float sample_text sample_lib sample_bloom sample_start_env run_coord sample_fs None =
      (Inr (s, sets, tls), fs', act')"
    and s: "s = setRunConfig etag ((NewServer unit_float run_coord ui)\<lparr>sv_cachePath := CachePath 30000\<rparr>)"
  obtain c where c: "run_of no_hit first_events (co_init (s, fs')) = Some c" "searching c"
    using first_events_run [OF s] by blast
  obtain c1 c2 where c1: "run_of no_hit [EvCancel] c = Some c1" "co_done c1" "co_pc c1 = PcSearching"
      "run_of no_hit [EvMain 2, EvPrune 5, EvMain 3] c1 = Some c2" "co_pc c2 = PcShutdown"
    using ending_events [OF c(2)] by blast
  obtain c3 where "run_of no_hit [EvMain 4] c2 = Some c3" using c1(5) by (auto simp: main_turn_def Let_def)
  with c1(4) have c3: "run_of no_hit [EvMain 2, EvPrune 5, EvMain 3, EvMain 4] c1 = Some c3"
    by (rule coord_run_then [where evs = "[EvMain 2, EvPrune 5, EvMain 3]", unfolded append_Cons append_Nil])
  have "2 \<le> pc_rank (co_pc c1)" by (simp add: c1(3))
  from coordinator_ends [OF st coord_run_then [OF c(1) c1(1)] c3 c1(2) this refl]
  have "co_pc c3 = PcReturned \<and> sv_runState (ap_server (co_api c3)) = StateEnded" by (simp add: c1(3))
  then show ?thesis using c1(2,3) c3 by blast
qed

section \<open>What it counts\<close>

definition counted :: "coord_event list" where
  "counted = [EvListen, EvRequest sample_req_env (post CallRegister), EvRequest sample_req_env (post CallPostStats),
     EvCancel, EvMain 2, EvMain 3]"

lemma counted_run:
  assumes "s = setRunConfig etag ((NewServer unit_float run_coord ui)\<lparr>sv_cachePath := CachePath 30000\<rparr>)"
  shows "\<exists>c1 c2 c3. coord_step sample_net unit_float (run_json no_hit) (\<lambda>_. ''0'') False (EvMain 1) (co_init (s, fs)) = Some c1 \<and>
    co_pc c1 = PcSearching \<and> run_of no_hit counted c1 = Some c2 \<and> co_pc c2 = PcShutdown \<and>
    coord_step sample_net unit_float (run_json no_hit) (\<lambda>_. ''0'') False (EvMain 4) c2 = Some c3"
proof -
  have "sv_cfg s = run_coord" by (simp add: assms setRunConfig_def NewServer_def)
  then show ?thesis
    by (simp add: counted_def main_turn_def co_init_def mountAPI_def on_server_def Let_def run_coord_def sample_coord_def
        startRun_def)
qed

theorem summary_counts_witness:
  "\<exists>c1 c2 (c3 :: unit coord). run_of no_hit counted c1 = Some c2 \<and> co_pc c3 = PcReturned \<and> sv_ui (ap_server (co_api c3)) =
    coord_Infof (''Run ended '' @ em_dash @ '' '' @
      show_nat (unat (run_sum (event_keys sample_net unit_float (run_json no_hit))
        (coord_step sample_net unit_float (run_json no_hit) (\<lambda>_. ''0'') False) counted c1)) @ '' keys tried, '' @
      ''0'' @ '' keys/s, '' @
      show_nat (unat (run_sum (event_hits sample_net unit_float (run_json no_hit))
        (coord_step sample_net unit_float (run_json no_hit) (\<lambda>_. ''0'') False) counted c1)) @ '' hits'' @ newline)
    (sv_ui (ap_server (co_api c2)))"
proof (rule run_started)
  fix s :: "unit Server" and fs' etag ui
  assume s: "s = setRunConfig etag ((NewServer unit_float run_coord ui)\<lparr>sv_cachePath := CachePath 30000\<rparr>)"
  obtain c1 c2 c3 where c: "coord_step sample_net unit_float (run_json no_hit) (\<lambda>_. ''0'') False (EvMain 1) (co_init (s, fs')) = Some c1"
      "co_pc c1 = PcSearching" "run_of no_hit counted c1 = Some c2" "co_pc c2 = PcShutdown"
      "coord_step sample_net unit_float (run_json no_hit) (\<lambda>_. ''0'') False (EvMain 4) c2 = Some c3"
    using counted_run [OF s] by blast
  have early: "pc_rank (co_pc (co_init (s, fs'))) < 2" by (simp add: co_init_def)
  show ?thesis by (rule exI, rule exI, rule exI, rule conjI [OF c(3) summary_counts [OF c(1) early c(2-5)]])
qed

section \<open>What it keeps\<close>

definition hit_events :: "coord_event list" where
  "hit_events = first_events @ [EvRequest sample_req_env (post CallPostHit)]"

lemma hit_events_run:
  assumes "s = setRunConfig etag ((NewServer unit_float run_coord ui)\<lparr>sv_cachePath := CachePath 30000\<rparr>)"
    and "hq_WorkerID q = ''w-cd''"
  shows "\<exists>c. run_of q hit_events (co_init (s, fs)) = Some c \<and>
    hit_posted sample_net unit_float (run_json q) (\<lambda>_. ''0'') False hit_events (co_init (s, fs)) sample_client q"
proof -
  obtain c where c: "run_of q first_events (co_init (s, fs)) = Some c" "searching c"
    using first_events_run [OF assms(1)] by blast
  have l: "co_listening c" using c(2) by (simp add: searching_def)
  then obtain c2 where "run_of q [EvRequest sample_req_env (post CallPostHit)] c = Some c2" by simp
  with c(1) have run: "run_of q hit_events (co_init (s, fs)) = Some c2"
    unfolding hit_events_def by (rule coord_run_then)
  have "call_in sample_net unit_float (run_json q) (\<lambda>_. ''0'') False hit_events (co_init (s, fs)) sample_client CallPostHit
      (\<lambda>body. aj_hit (run_json q) body = Some q) (Answer StatusNoContent None)"
    unfolding call_in_def hit_events_def
    by (rule disjI2, rule exI [of _ first_events], rule exI [of _ sample_req_env], rule exI [of _ "''''"],
        rule exI [of _ "''203.0.113.9:4000''"], rule exI [of _ "[]"], rule exI [of _ c])
      (use c(1) l hit_accepted [OF c(2) assms(2)] in \<open>simp add: post_def run_json_def\<close>)
  then have "hit_posted sample_net unit_float (run_json q) (\<lambda>_. ''0'') False hit_events (co_init (s, fs)) sample_client q"
    unfolding hit_posted_def
    by (intro exI [of _ "[sample_turn (Answer StatusNoContent None)]"])
      (simp add: sample_turn_def tryJSON_def status_defs)
  with run show ?thesis by blast
qed

lemma hit_events_disk: "EvRequest env r \<in> set hit_events \<Longrightarrow> qe_logFault env = LogOk"
  by (auto simp: hit_events_def first_events_def sample_req_env_def)

theorem answered_hits_are_kept_witness:
  "\<exists>(c :: unit coord) stamp req a b. hq_Address req = ''1abc'' \<and>
    file_data (ap_fs (co_api c)) walletsLogFile = a @ request_record stamp req @ b"
proof (rule run_started)
  fix s :: "unit Server" and sets tls fs' act' etag ui
  assume st: "start_coordinator unit_float sample_text sample_lib sample_bloom sample_start_env run_coord sample_fs None =
      (Inr (s, sets, tls), fs', act')"
    and s: "s = setRunConfig etag ((NewServer unit_float run_coord ui)\<lparr>sv_cachePath := CachePath 30000\<rparr>)"
  have w: "hq_WorkerID no_hit = ''w-cd''" "hq_Address no_hit = ''1abc''" by (simp_all add: no_hit_def)
  obtain c where c: "run_of no_hit hit_events (co_init (s, fs')) = Some c" "hit_posted sample_net unit_float (run_json no_hit)
      (\<lambda>_. ''0'') False hit_events (co_init (s, fs')) sample_client no_hit"
    using hit_events_run [OF s w(1)] by blast
  obtain evs1 env where p: "post_at sample_net unit_float (run_json no_hit) (\<lambda>_. ''0'') False hit_events (co_init (s, fs')) evs1 env
      no_hit StatusNoContent"
    using hit_posted_answered [OF c(2)] by (auto simp: answered_def)
  have ok: "qe_logFault env0 = LogOk"
    if "post_at sample_net unit_float (run_json no_hit) (\<lambda>_. ''0'') False evs1 (co_init (s, fs')) evs0 env0 q code"
    for evs0 env0 q code
    using post_at_member [OF that] post_at_member [OF p] hit_events_disk by blast
  from answered_hits_are_kept [OF st c(1) p] ok show ?thesis unfolding w(2) by (metis w(2))
qed

section \<open>From end to end\<close>

text \<open>A worker's search of one wallet, which is a simulated hit or a real one.\<close>

definition one_turns :: "fturn list" where
  "one_turns = [\<lparr>ft_done = False, ft_recv = FBatch [(False, sample_wallet)], ft_now = 3, ft_fault = NoFault, ft_write = 3,
      ft_restart = 3\<rparr>,
    \<lparr>ft_done = True, ft_recv = FDone, ft_now = 4, ft_fault = NoFault, ft_write = 4, ft_restart = 4\<rparr>]"

lemma one_turns_offered: "offered one_turns = ([sample_wallet], True)"
  by (simp add: one_turns_def)

lemma one_search_ends:
  "\<exists>report posts err fs'. searchUntilStop sample_lib sample_bloom sample_session (\<lambda>_. ''K'') (\<lambda>_. True) sample_renv
      sample_end sample_worker ''w-cd'' 1 sample_sets AllFormats one_turns 9 Map.empty = Some (report, posts, err, fs') \<and>
    (\<exists>q. set posts \<subseteq> {q} \<and> hq_WorkerID q = ''w-cd'')"
proof -
  let ?cfg = "worker_search_config sample_worker 1 AllFormats" and ?enc = "\<lambda>_. ''K''"
  obtain report posts err fs' where s: "searchUntilStop sample_lib sample_bloom sample_session ?enc (\<lambda>_. True)
      sample_renv sample_end sample_worker ''w-cd'' 1 sample_sets AllFormats one_turns 9 Map.empty = Some (report, posts, err, fs')"
    using search_returns [of one_turns] by (metis one_turns_offered snd_conv)
  obtain s0 :: "unit sessionState" where p: "posts = takeWhile (\<lambda>_. True) (due_hits sample_lib sample_bloom ?enc sample_worker ''w-cd'' 1 sample_sets
      AllFormats one_turns s0)"
    using worker_posts [OF s] by blast
  have p: "posts = map (hit_request sample_lib ?enc ''w-cd'')
      (expected_hits sample_lib sample_bloom ?cfg sample_sets sample_wallet (TotalKeysTried s0 + 1))"
    unfolding p due_hits_def one_turns_offered by (simp add: takeWhile_eq_all_conv)
  then have "length posts \<le> 1" by (simp add: expected_hits_def split: sum.split prod.split bool.split)
  moreover have "\<forall>q \<in> set posts. hq_WorkerID q = ''w-cd''" by (auto simp: p hit_request_def)
  ultimately have "\<exists>q. set posts \<subseteq> {q} \<and> hq_WorkerID q = ''w-cd''"
    by (cases posts) (auto simp: no_hit_def intro: exI [of _ no_hit])
  with s show ?thesis by blast
qed

theorem cluster_keeps_every_find_witness:
  "\<exists>(c :: unit coord) s fs0 q report posts err wfs'.
    searchUntilStop sample_lib sample_bloom sample_session (\<lambda>_. ''K'') (\<lambda>_. True) sample_renv sample_end sample_worker
      ''w-cd'' 1 sample_sets AllFormats one_turns 9 Map.empty = Some (report, posts, err, wfs') \<and>
    (\<exists>s0. initForeverSession sample_session (re_init sample_renv) False False False Map.empty = (Some s0, Map.empty) \<and>
      (\<forall>ev \<in> set (hits_in_order sample_lib sample_bloom (worker_search_config sample_worker 1 AllFormats) sample_sets
          (fst (offered one_turns)) (TotalKeysTried s0 + 1)).
        \<exists>renv req evs1 code a b. post_at sample_net unit_float (run_json q) (\<lambda>_. ''0'') False hit_events (co_init (s, fs0))
            evs1 renv req code \<and>
          hq_Address req = EncodeMatchAddress sample_lib (ev_Kind ev) (Keys (ev_Wallet ev)) \<and>
          file_data (ap_fs (co_api c)) walletsLogFile = a @ request_record (qe_stamp renv) req @ b))"
proof (rule run_started)
  fix s :: "unit Server" and sets tls fs' act' etag ui
  assume st: "start_coordinator unit_float sample_text sample_lib sample_bloom sample_start_env run_coord sample_fs None =
      (Inr (s, sets, tls), fs', act')"
    and s: "s = setRunConfig etag ((NewServer unit_float run_coord ui)\<lparr>sv_cachePath := CachePath 30000\<rparr>)"
  obtain report posts err wfs' q where w: "searchUntilStop sample_lib sample_bloom sample_session (\<lambda>_. ''K'') (\<lambda>_. True)
      sample_renv sample_end sample_worker ''w-cd'' 1 sample_sets AllFormats one_turns 9 Map.empty = Some (report, posts, err, wfs')"
      and q: "set posts \<subseteq> {q}" "hq_WorkerID q = ''w-cd''"
    using one_search_ends by blast
  obtain c where c: "run_of q hit_events (co_init (s, fs')) = Some c" "hit_posted sample_net unit_float (run_json q)
      (\<lambda>_. ''0'') False hit_events (co_init (s, fs')) sample_client q"
    using hit_events_run [OF s q(2)] by blast
  have posted: "hit_posted sample_net unit_float (run_json q) (\<lambda>_. ''0'') False hit_events (co_init (s, fs')) sample_client req"
    if "req \<in> set posts" for req using that q(1) c(2) by auto
  show ?thesis
    by (rule exI [of _ c], rule exI [of _ s], rule exI [of _ fs'], rule exI [of _ q], rule exI, rule exI, rule exI, rule exI,
        rule conjI [OF w], rule cluster_keeps_every_find [OF st c(1) _ w posted]) (rule hit_events_disk)
qed

section \<open>After an outage\<close>

theorem pruned_worker_hangs_witness:
  "fst (doJSON False (replicate 3 \<lparr>rt_result = NoAnswer :: unit http_result, rt_ended = False, rt_endedWaiting = False\<rparr> @
      [\<lparr>rt_result = Answer 404 None, rt_ended = False, rt_endedWaiting = False\<rparr>]) second) = Running"
proof (rule run_started)
  fix s :: "unit Server" and sets tls fs' act' etag ui
  assume st: "start_coordinator unit_float sample_text sample_lib sample_bloom sample_start_env run_coord sample_fs None =
      (Inr (s, sets, tls), fs', act')"
    and s: "s = setRunConfig etag ((NewServer unit_float run_coord ui)\<lparr>sv_cachePath := CachePath 30000\<rparr>)"
  obtain c where c: "run_of no_hit first_events (co_init (s, fs')) = Some c" "searching c"
    using first_events_run [OF s] by blast
  obtain e where e: "map_of (sv_workers (ap_server (co_api c))) ''w-cd'' = Some e" "we_LastSeen e = 50"
    using c(2) by (auto simp: searching_def)
  let ?now = "60 * 1000000000" and ?env = "sample_req_env\<lparr>qe_rnd := [0xAB]\<rparr>"
  let ?beat = "call_request sample_client CallHeartbeat ''w-cd'' ''203.0.113.9:4000''"
  have old: "we_LastSeen e < ?now - freshWindow" by (simp add: e(2) freshWindow_def)
  obtain c1 where c1: "coord_step sample_net unit_float (run_json no_hit) (\<lambda>_. ''0'') False (EvPrune ?now) c = Some c1"
      "c1 = on_server (pruneStale ?now) c"
    using c(2) by (simp add: searching_def)
  obtain etag' where "reachable unit_float (with_defaults (se_token sample_start_env) run_coord) etag'
      (ap_server (co_api c), ap_fs (co_api c))"
    using started_reachable [OF st c(1)] by metis
  then have "\<not> known ''w-cd'' (ap_server (co_api c1))"
    using pruned_unknown [OF _ e(1) old] reachable_ok by (fastforce simp: server_ok_def c1(2))
  then have unknown: "map_of (sv_workers (ap_server (co_api c1))) ''w-cd'' = None" by (simp add: known_def)
  have p: "HasPrefix ''/api/v1/heartbeat'' ''/api/v1/''" "TrimPrefix ''/api/v1/heartbeat'' ''/api/v1'' = ''/heartbeat''"
    by (simp_all add: HasPrefix_def TrimPrefix_def)
  have api: "ap_api (co_api c1) = None" "cc_AuthToken (sv_cfg (ap_server (co_api c1))) = ''secret''" "co_listening c1"
    using c(2) by (simp_all add: c1(2) searching_def on_server_def pruneStale_def Let_def)
  have r: "hr_Path ?beat = ''/api/v1/heartbeat''" "hr_Method ?beat = MethodPost" "hr_Body ?beat = ''w-cd''"
    "hr_Authorization ?beat = ''Bearer secret''"
    by (simp_all add: call_request_def call_path_def call_method_def auth_header_def sample_client_def)
  have code: "rs_Code (fst (serve sample_net unit_float (run_json no_hit) ?env ?beat (co_api c1))) = 404"
    by (simp add: serve_def bearerAuth_cases r p api api_routes_def no_limit handleHeartbeat_def run_json_def
        heartbeat_def unknown http_Error_def status_defs Let_def)
  have named: "names_worker (run_json no_hit) ''w-cd'' CallHeartbeat ''w-cd''" by (simp add: names_worker_def run_json_def)
  have "call_in sample_net unit_float (run_json no_hit) (\<lambda>_. ''0'') False [EvRequest ?env ?beat] c1 sample_client CallHeartbeat
      (names_worker (run_json no_hit) ''w-cd'' CallHeartbeat) (Answer 404 None)"
    unfolding call_in_def
    by (rule disjI2, rule exI [of _ "[]"], rule exI [of _ ?env], rule exI [of _ "''w-cd''"],
        rule exI [of _ "''203.0.113.9:4000''"], rule exI [of _ "[]"], rule exI [of _ c1])
      (simp add: api code named)
  moreover have "call_in sample_net unit_float (run_json no_hit) (\<lambda>_. ''0'') False [EvRequest ?env ?beat] c1 sample_client
      CallHeartbeat (names_worker (run_json no_hit) ''w-cd'' CallHeartbeat) NoAnswer"
    by (simp add: call_in_def)
  moreover have "newWorkerID [0xAB] \<noteq> ''w-cd''" by code_simp
  ultimately show ?thesis
    by (intro pruned_worker_hangs [OF st c(1) e(1) old c1(1), where evs = "[EvRequest ?env ?beat]" and client = sample_client
          and call = CallHeartbeat]) (auto simp: numeral_3_eq_3)
qed

end
