(* ===== verification/WorkerLog.thy ===== *)
theory WorkerLog
  imports Programs
begin

text \<open>
  worker/log.go and what worker/client.go and worker/run.go print: the standard error of a worker is the list of what
  has been written to it. The logged operations are those of the theories \<open>Client\<close>, \<open>Worker\<close> and \<open>Programs\<close> with that
  list threaded through. The requests of a session print the lines of \<open>doJSON_logged\<close> between those of the session
  itself.
\<close>

section \<open>Log lines\<close>

definition logf :: "WorkerConfig \<Rightarrow> string \<Rightarrow> string list \<Rightarrow> string list" where
  "logf cfg s out = (if wc_Quiet cfg \<and> \<not> wc_Verbose cfg then out else out @ [s])"

definition eventf :: "string \<Rightarrow> string list \<Rightarrow> string list" where
  "eventf s out = out @ [s]"

text \<open>The printed forms of errors and floats.\<close>

record log_text =
  lt_try :: "try_error \<Rightarrow> string"
  lt_sync :: "sync_error \<Rightarrow> string"
  lt_session :: "session_error \<Rightarrow> string"
  lt_mb :: "int \<Rightarrow> string"
  lt_pct :: "int \<Rightarrow> int \<Rightarrow> string"

text \<open>A duration of whole seconds below an hour, as the package \<open>time\<close> prints it.\<close>

definition wait_text :: "int \<Rightarrow> string" where
  "wait_text d =
     (let s = d div second in
      if s < 60 then show_int s @ ''s'' else show_int (s div 60) @ ''m'' @ show_int (s mod 60) @ ''s'')"

definition retry_line :: "log_text \<Rightarrow> try_error \<Rightarrow> int \<Rightarrow> string" where
  "retry_line X err backoff =
     ''worker: request failed ('' @ lt_try X err @ ''), retry in '' @ wait_text backoff @ ellipsis @ newline"

definition sync_retry_line :: "log_text \<Rightarrow> sync_error \<Rightarrow> int \<Rightarrow> string" where
  "sync_retry_line X err backoff =
     ''worker: cache sync failed ('' @ lt_sync X err @ ''), retry in '' @ wait_text backoff @ ellipsis @ newline"

section \<open>A request\<close>

fun doJSON_logged ::
  "log_text \<Rightarrow> bool \<Rightarrow> 'r http_result retry_turn list \<Rightarrow> int \<Rightarrow> string list \<Rightarrow>
     ((nat \<times> 'r option) retried \<times> int \<times> int list) \<times> string list" where
  "doJSON_logged X wantBody [] backoff out = ((Running, backoff, []), out)"
| "doJSON_logged X wantBody (t # ts) backoff out =
     (case tryJSON wantBody (rt_result t) of
        Inr v \<Rightarrow> ((Finished v, second, []), out)
      | Inl err \<Rightarrow>
          if rt_ended t then ((ContextEnded, backoff, []), out)
          else
            (let out = eventf (retry_line X err backoff) out in
             if rt_endedWaiting t then ((ContextEnded, backoff, []), out)
             else
               (case doJSON_logged X wantBody ts (next_backoff backoff) out of
                  ((r, b, waits), out) \<Rightarrow> ((r, b, backoff # waits), out))))"

lemma doJSON_logged_fst: "fst (doJSON_logged X w ts b out) = doJSON w ts b"
  by (induction ts arbitrary: b out) (simp_all add: Let_def case_prod_unfold prod_eq_iff split: sum.split)

text \<open>Every failed attempt is announced, with the wait that follows: the line of the attempt number \<open>i\<close> names its error
  and \<open>2 ^ i\<close> seconds, up to a minute and four seconds.\<close>

lemma doJSON_failures_logged:
  "list_all (fails_on (\<lambda>r. isl (tryJSON w r))) ts \<Longrightarrow>
    snd (doJSON_logged X w (ts @ us) b out) = snd (doJSON_logged X w us ((next_backoff ^^ length ts) b)
      (out @ map (\<lambda>i. retry_line X (projl (tryJSON w (rt_result (ts ! i)))) ((next_backoff ^^ i) b)) [0..<length ts]))"
proof (induction ts arbitrary: b out)
  case (Cons t ts)
  obtain e where e: "tryJSON w (rt_result t) = Inl e" "\<not> rt_ended t" "\<not> rt_endedWaiting t"
    using Cons.prems by (auto simp: fails_on_def isl_def)
  have shift: "map (\<lambda>i. retry_line X (projl (tryJSON w (rt_result ((t # ts) ! i)))) ((next_backoff ^^ i) b))
      [0..<Suc (length ts)] =
    retry_line X e b # map (\<lambda>i. retry_line X (projl (tryJSON w (rt_result (ts ! i))))
      ((next_backoff ^^ i) (next_backoff b))) [0..<length ts]"
    unfolding map_upt_Suc by (simp add: funpow_swap1 e)
  have "(next_backoff ^^ length ts) (next_backoff b) = (next_backoff ^^ Suc (length ts)) b"
    by (simp add: funpow_swap1)
  then show ?case
    using Cons.IH [of "next_backoff b" "out @ [retry_line X e b]"] Cons.prems e shift
    by (simp add: eventf_def Let_def case_prod_unfold del: upt_Suc)
qed simp

theorem retries_announced:
  assumes "list_all (fails_on (\<lambda>r. isl (tryJSON w r))) ts" "tryJSON w (rt_result t) = Inr v"
  shows "snd (doJSON_logged X w (ts @ t # us) second out) =
    out @ map (\<lambda>i. retry_line X (projl (tryJSON w (rt_result (ts ! i)))) (second * 2 ^ min i 6)) [0..<length ts]"
  using doJSON_failures_logged [OF assms(1), of X "t # us" second out] assms(2) by (simp add: next_backoff_power)

section \<open>The cache\<close>

text \<open>How a body arrives: its announced length (negative when there is none), when the copy begins, and for every write
  the bytes written and the time after it.\<close>

record transfer =
  tr_contentLen :: int
  tr_start :: int
  tr_writes :: "(nat \<times> int) list"

record progressWriter =
  pw_total :: int
  pw_written :: int
  pw_lastLog :: int

definition progress_line :: "log_text \<Rightarrow> int \<Rightarrow> int \<Rightarrow> string" where
  "progress_line X written full =
     ''worker: cache download '' @ lt_pct X written full @ ''% ('' @ lt_mb X written @ '' / '' @ lt_mb X full @ '' MB)'' @ newline"

definition pw_Write ::
  "WorkerConfig \<Rightarrow> log_text \<Rightarrow> nat \<times> int \<Rightarrow> progressWriter \<times> string list \<Rightarrow> progressWriter \<times> string list" where
  "pw_Write cfg X write st =
     (case (write, st) of ((n, now), (p, out)) \<Rightarrow>
        let p = p\<lparr>pw_written := pw_written p + int n\<rparr> in
        if pw_total p > 0 \<and> now - pw_lastLog p \<ge> 2 * second
        then (p\<lparr>pw_lastLog := now\<rparr>, logf cfg (progress_line X (pw_written p) (pw_total p)) out)
        else (p, out))"

definition copy_logged :: "WorkerConfig \<Rightarrow> log_text \<Rightarrow> transfer \<Rightarrow> string list \<Rightarrow> string list" where
  "copy_logged cfg X tr out =
     (if tr_contentLen tr > 0
      then snd (fold (pw_Write cfg X) (tr_writes tr)
        (\<lparr>pw_total = tr_contentLen tr, pw_written = 0, pw_lastLog = tr_start tr\<rparr>, out))
      else out)"

definition up_to_date_line :: "string \<Rightarrow> string" where
  "up_to_date_line etag = ''worker: cache up to date (ETag '' @ etag @ '')'' @ newline"

definition downloading_line :: "log_text \<Rightarrow> int \<Rightarrow> string" where
  "downloading_line X contentLen =
     (if contentLen > 0 then ''worker: downloading funded cache (~'' @ lt_mb X contentLen @ '' MB)'' @ ellipsis @ newline
      else ''worker: downloading funded cache'' @ ellipsis @ newline)"

definition saved_line :: "string \<Rightarrow> string" where
  "saved_line destPath = ''worker: cache saved to '' @ destPath @ newline"

definition tryDownloadCache_logged ::
  "WorkerConfig \<Rightarrow> log_text \<Rightarrow> transfer \<Rightarrow> io_fault \<Rightarrow> int \<Rightarrow> string \<Rightarrow> string \<Rightarrow> cache_result \<Rightarrow> fs \<Rightarrow> string list \<Rightarrow>
     ((sync_error + string) \<times> fs) \<times> string list" where
  "tryDownloadCache_logged cfg X tr fault now destPath etag res fs out =
     (case res of
        CacheNoAnswer \<Rightarrow> ((Inl SyncRequestFailed, fs), out)
      | CacheAnswer code newETag body readFails \<Rightarrow>
          if code = StatusNotModified
          then ((Inr etag, fs), logf cfg (up_to_date_line etag) out)
          else if code \<noteq> StatusOK then ((Inl (SyncStatus code), fs), out)
          else
            (let out = eventf (downloading_line X (tr_contentLen tr)) out;
                 out = (if fault = CreateFails then out else copy_logged cfg X tr out)
             in case save_cache fault now (destPath, body, readFails) fs of
                  (Some e, fs) \<Rightarrow> ((Inl e, fs), out)
                | (None, fs) \<Rightarrow> ((Inr newETag, fs), eventf (saved_line destPath) out)))"

lemma tryDownloadCache_logged_fst:
  "fst (tryDownloadCache_logged cfg X tr fault now dest etag res fs out) = tryDownloadCache fault now dest etag res fs"
  by (simp add: tryDownloadCache_logged_def tryDownloadCache_def Let_def split: cache_result.split prod.split option.split)

text \<open>The transfer of the attempt number \<open>k\<close> is \<open>tr k\<close>.\<close>

fun DownloadCache_logged ::
  "WorkerConfig \<Rightarrow> log_text \<Rightarrow> (nat \<Rightarrow> transfer) \<Rightarrow> nat \<Rightarrow> string \<Rightarrow> string \<Rightarrow> sync_env retry_turn list \<Rightarrow> int \<Rightarrow> fs \<Rightarrow>
     string list \<Rightarrow> (string retried \<times> int \<times> int list \<times> fs) \<times> string list" where
  "DownloadCache_logged cfg X tr k destPath etag [] backoff fs out = ((Running, backoff, [], fs), out)"
| "DownloadCache_logged cfg X tr k destPath etag (t # ts) backoff fs out =
     (case tryDownloadCache_logged cfg X (tr k) (sy_fault (rt_result t)) (sy_now (rt_result t)) destPath etag
        (sy_answer (rt_result t)) fs out of
        ((Inr newETag, fs), out) \<Rightarrow> ((Finished newETag, second, [], fs), out)
      | ((Inl err, fs), out) \<Rightarrow>
          if rt_ended t then ((ContextEnded, backoff, [], fs), out)
          else
            (let out = eventf (sync_retry_line X err backoff) out in
             if rt_endedWaiting t then ((ContextEnded, backoff, [], fs), out)
             else
               (case DownloadCache_logged cfg X tr (Suc k) destPath etag ts (next_backoff backoff) fs out of
                  ((r, b, waits, fs), out) \<Rightarrow> ((r, b, backoff # waits, fs), out))))"

lemma DownloadCache_logged_fst:
  "fst (DownloadCache_logged cfg X tr k dest etag ts b fs out) = DownloadCache dest etag ts b fs"
proof (induction ts arbitrary: k b fs out)
  case (Cons t ts)
  let ?r = "rt_result t"
  obtain x fs1 out1 where l: "tryDownloadCache_logged cfg X (tr k) (sy_fault ?r) (sy_now ?r) dest etag (sy_answer ?r) fs out =
      ((x, fs1), out1)" by (metis prod.collapse)
  then have "tryDownloadCache (sy_fault ?r) (sy_now ?r) dest etag (sy_answer ?r) fs = (x, fs1)"
    using tryDownloadCache_logged_fst by (metis fst_conv)
  then show ?case using Cons.IH l by (cases x) (simp_all add: Let_def case_prod_unfold prod_eq_iff)
qed simp

text \<open>Two progress lines of a download are at least two seconds apart.\<close>

lemma pw_Write_spaced:
  assumes "pw_Write cfg X w (p, out) = (p', out')"
  shows "\<exists>ls. out' = out @ ls \<and> int (length ls) * (2 * second) \<le> pw_lastLog p' - pw_lastLog p"
  using assms by (auto simp: pw_Write_def logf_def Let_def second_def split: prod.splits if_splits)

theorem progress_spaced:
  assumes "fold (pw_Write cfg X) ws (p, out) = (p', out')"
  shows "\<exists>ls. out' = out @ ls \<and> int (length ls) * (2 * second) \<le> pw_lastLog p' - pw_lastLog p"
  using assms
proof (induction ws arbitrary: p out)
  case (Cons w ws)
  obtain p1 out1 where w: "pw_Write cfg X w (p, out) = (p1, out1)" by (rule prod.exhaust)
  obtain l1 where l1: "out1 = out @ l1" "int (length l1) * (2 * second) \<le> pw_lastLog p1 - pw_lastLog p"
    using pw_Write_spaced [OF w] by blast
  obtain l2 where l2: "out' = out1 @ l2" "int (length l2) * (2 * second) \<le> pw_lastLog p' - pw_lastLog p1"
    using Cons.IH [of p1 out1] Cons.prems w by auto
  have "int (length (l1 @ l2)) * (2 * second) \<le> pw_lastLog p' - pw_lastLog p"
    using l1(2) l2(2) by (simp add: distrib_right)
  then show ?case using l1(1) l2(1) by (intro exI [of _ "l1 @ l2"]) simp
qed simp

section \<open>A session\<close>

definition lobby_waiting :: string where
  "lobby_waiting = ''worker: connected '' @ em_dash @ '' waiting for coordinator to press Enter to start'' @ newline"

definition search_started :: string where
  "search_started = ''worker: search started'' @ newline"

definition resync_logged ::
  "WorkerConfig \<Rightarrow> log_text \<Rightarrow> (nat \<Rightarrow> transfer) \<Rightarrow> 'bf bloom_lib \<Rightarrow> string \<Rightarrow> session_turn \<Rightarrow> string \<Rightarrow> 'bf session_state \<Rightarrow>
     string list \<Rightarrow> (session_end + 'bf session_state) \<times> string list" where
  "resync_logged cfg X tr B cachePath t announced st out =
     (resync B cachePath t announced st,
      if announced \<noteq> '''' \<and> announced \<noteq> ss_tag st
      then snd (DownloadCache_logged cfg X tr 0 cachePath (ss_tag st) (tn_sync t) (ss_backoff st) (ss_fs st) out)
      else out)"

text \<open>Beside every turn is how the bodies of its download arrive.\<close>

fun session_loop_logged ::
  "WorkerConfig \<Rightarrow> log_text \<Rightarrow> 'bf bloom_lib \<Rightarrow> string \<Rightarrow> (session_turn \<times> (nat \<Rightarrow> transfer)) list \<Rightarrow> bool \<Rightarrow>
     'bf session_state \<Rightarrow> string list \<Rightarrow> (session_end \<times> ('bf session_state \<times> FormatMask) list) \<times> string list" where
  "session_loop_logged cfg X B cachePath [] announced st out = ((StillRunning, []), out)"
| "session_loop_logged cfg X B cachePath ((t, tr) # ts) announced st out =
     (if tn_ended t then ((SessionError SessionContext, []), out)
      else
        (case tn_status t of
           Running \<Rightarrow> ((StillRunning, []), out)
         | ContextEnded \<Rightarrow> ((SessionError SessionContext, []), out)
         | Finished status \<Rightarrow>
             if rr_State status = StateLobby then
               (if tn_beat t = Running then ((StillRunning, []), out)
                else session_loop_logged cfg X B cachePath ts True st
                  (if announced then out else eventf lobby_waiting out))
             else if rr_State status = StateRunning then
               (case resync_logged cfg X tr B cachePath t (rc_CacheETag (rr_Config status)) st (eventf search_started out) of
                  (Inl r, out) \<Rightarrow> ((r, []), out)
                | (Inr st, out) \<Rightarrow>
                    (case ParseFormatList (rc_Formats (rr_Config status)) of
                       Inl e \<Rightarrow> ((SessionError (SessionFormats e), []), out)
                     | Inr formats \<Rightarrow>
                         if tn_beat t = Running then ((StillRunning, []), out)
                         else
                           (case tn_search t of
                              Running \<Rightarrow> ((StillRunning, [(st, formats)]), out)
                            | ContextEnded \<Rightarrow> ((SessionError SessionContext, [(st, formats)]), out)
                            | Finished (Some e) \<Rightarrow> ((SessionError (SessionSearch e), [(st, formats)]), out)
                            | Finished None \<Rightarrow>
                                (case session_loop_logged cfg X B cachePath ts announced st out of
                                   ((r, searches), out) \<Rightarrow> ((r, (st, formats) # searches), out)))))
             else if rr_State status = StateStopping \<or> rr_State status = StateEnded then
               (if tn_beat t = Running then ((StillRunning, []), out) else ((SessionOver, []), out))
             else session_loop_logged cfg X B cachePath ts announced st out))"

lemma session_loop_logged_fst:
  "fst (session_loop_logged cfg X B path ts announced st out) = session_loop B path (map fst ts) st"
proof (induction ts arbitrary: announced st out)
  case (Cons p ts)
  obtain t tr where p: "p = (t, tr)" by (rule prod.exhaust)
  show ?case
  proof (cases "tn_status t")
    case (Finished status)
    obtain r where r: "resync B path t (rc_CacheETag (rr_Config status)) st = r" by simp
    show ?thesis
      by (cases r) (simp_all add: p Finished r Cons.IH resync_logged_def case_prod_unfold prod_eq_iff
          split: sum.split retried.split option.split)
  qed (simp_all add: p)
qed simp

definition runSession_logged ::
  "WorkerConfig \<Rightarrow> log_text \<Rightarrow> 'bf bloom_lib \<Rightarrow> string \<Rightarrow> int \<Rightarrow> RegisterResponse retried \<Rightarrow> sync_env retry_turn list \<Rightarrow>
     (nat \<Rightarrow> transfer) \<Rightarrow> bool \<Rightarrow> (session_turn \<times> (nat \<Rightarrow> transfer)) list \<Rightarrow> int \<Rightarrow> fs \<Rightarrow> mapping \<Rightarrow> string list \<Rightarrow>
     (session_end \<times> ('bf session_state \<times> FormatMask) list) \<times> string list" where
  "runSession_logged cfg X B hostname threads reg sync tr mmapFails turns backoff fs act out =
     (let out = eventf (''worker: connecting to '' @ wc_CoordinatorURL cfg @ '' as '' @ hostname @ '' ('' @
            show_int threads @ '' threads)'' @ ellipsis @ newline) out
      in case reg of
        Running \<Rightarrow> ((StillRunning, []), out)
      | ContextEnded \<Rightarrow> ((SessionError SessionContext, []), out)
      | Finished resp \<Rightarrow>
          if rp_WorkerID resp = '''' then ((SessionError SessionRejected, []), out)
          else
            (let out = eventf (''worker: registered id='' @ rp_WorkerID resp @ '' state='' @ rp_RunState resp @ newline) out;
                 cachePath = CachePath (cache_min (rp_Config resp));
                 out = logf cfg (''worker: syncing cache '' @ cachePath @ ellipsis @ newline) out
             in case DownloadCache_logged cfg X tr 0 cachePath (local_tag fs cachePath) sync backoff fs out of
               ((Running, b, waits, fs), out) \<Rightarrow> ((StillRunning, []), out)
             | ((ContextEnded, b, waits, fs), out) \<Rightarrow> ((SessionError SessionSync, []), out)
             | ((Finished tag, b, waits, fs), out) \<Rightarrow>
                 (case LoadFromCacheFile B mmapFails fs cachePath act of
                    (Inl e, act) \<Rightarrow> ((SessionError (SessionCache e), []), out)
                  | (Inr sets, act) \<Rightarrow>
                      session_loop_logged cfg X B cachePath turns False
                        \<lparr>ss_tag = tag, ss_sets = sets, ss_backoff = b, ss_map = act, ss_fs = fs\<rparr> out)))"

lemma runSession_logged_fst:
  "fst (runSession_logged cfg X B hostname threads reg sync tr mmapFails turns backoff fs act out) =
    runSession B reg sync mmapFails (map fst turns) backoff fs act"
proof (cases reg)
  case (Finished resp)
  let ?path = "CachePath (cache_min (rp_Config resp))"
  obtain r b waits fs1 where d: "DownloadCache ?path (local_tag fs ?path) sync backoff fs = (r, b, waits, fs1)"
    by (metis prod_cases4)
  then have l: "\<exists>out'. DownloadCache_logged cfg X tr 0 ?path (local_tag fs ?path) sync backoff fs out =
      ((r, b, waits, fs1), out')" for out using DownloadCache_logged_fst by (metis prod.collapse)
  obtain out2 where out2: "DownloadCache_logged cfg X tr 0 ?path (local_tag fs ?path) sync backoff fs
      (logf cfg (''worker: syncing cache '' @ ?path @ ellipsis @ newline)
        (eventf (''worker: registered id='' @ rp_WorkerID resp @ '' state='' @ rp_RunState resp @ newline)
          (eventf (''worker: connecting to '' @ wc_CoordinatorURL cfg @ '' as '' @ hostname @ '' ('' @
            show_int threads @ '' threads)'' @ ellipsis @ newline) out))) = ((r, b, waits, fs1), out2)" using l by blast
  show ?thesis
    unfolding runSession_logged_def runSession_def Finished Let_def retried.case out2 d
    by (cases r) (simp_all add: session_loop_logged_fst case_prod_unfold split: sum.split)
qed (simp_all add: runSession_logged_def runSession_def Let_def)

text \<open>A worker says once in a session that it waits for Enter, however often it asks for the state of the run and
  whatever it searches in between.\<close>

lemma no_lobby_lines [simp]:
  "retry_line X e b \<noteq> lobby_waiting" "sync_retry_line X e' b \<noteq> lobby_waiting" "search_started \<noteq> lobby_waiting"
  "progress_line X n m \<noteq> lobby_waiting" "up_to_date_line s \<noteq> lobby_waiting" "saved_line s \<noteq> lobby_waiting"
  "downloading_line X n \<noteq> lobby_waiting"
  by (simp_all add: retry_line_def sync_retry_line_def search_started_def progress_line_def up_to_date_line_def
      saved_line_def downloading_line_def lobby_waiting_def)

lemma eventf_count [simp]:
  "count_list (eventf s out) x = count_list out x + (if s = x then 1 else 0)"
  by (simp add: eventf_def)

lemma logf_count [simp]: "s \<noteq> x \<Longrightarrow> count_list (logf cfg s out) x = count_list out x"
  by (simp add: logf_def)

lemma copy_count:
  "count_list (snd (fold (pw_Write cfg X) ws (p, out))) lobby_waiting = count_list out lobby_waiting"
proof (induction ws arbitrary: p out)
  case (Cons w ws)
  obtain p1 out1 where w: "pw_Write cfg X w (p, out) = (p1, out1)" by (rule prod.exhaust)
  then have "count_list out1 lobby_waiting = count_list out lobby_waiting"
    by (auto simp: pw_Write_def Let_def split: prod.splits if_splits)
  then show ?case using Cons.IH w by simp
qed simp

lemma download_count:
  "count_list (snd (DownloadCache_logged cfg X tr k path etag ts b fs out)) lobby_waiting = count_list out lobby_waiting"
proof (induction ts arbitrary: k b fs out)
  case (Cons t ts)
  obtain x fs1 out1 where l: "tryDownloadCache_logged cfg X (tr k) (sy_fault (rt_result t)) (sy_now (rt_result t)) path etag
      (sy_answer (rt_result t)) fs out = ((x, fs1), out1)" by (metis prod.collapse)
  then have "count_list out1 lobby_waiting = count_list out lobby_waiting"
    by (auto simp: tryDownloadCache_logged_def copy_logged_def copy_count Let_def
        split: cache_result.splits if_splits prod.splits option.splits)
  then show ?case using Cons.IH l by (cases x) (simp_all add: Let_def case_prod_unfold)
qed simp

theorem lobby_announced_once:
  "count_list (snd (session_loop_logged cfg X B path ts announced st out)) lobby_waiting
    \<le> count_list out lobby_waiting + (if announced then 0 else 1)"
proof (induction ts arbitrary: announced st out)
  case (Cons p ts)
  obtain t tr where p: "p = (t, tr)" by (rule prod.exhaust)
  have lobby: "count_list (snd (session_loop_logged cfg X B path ts True st' out')) lobby_waiting
      \<le> count_list out' lobby_waiting" for st' out' using Cons.IH [of True st' out'] by simp
  show ?case
  proof (cases "tn_status t")
    case (Finished status)
    obtain r out1 where r: "resync_logged cfg X tr B path t (rc_CacheETag (rr_Config status)) st
        (eventf search_started out) = (r, out1)" by (rule prod.exhaust)
    then have c: "count_list out1 lobby_waiting = count_list out lobby_waiting"
      by (auto simp: resync_logged_def download_count split: if_splits)
    have run: "count_list (snd (session_loop_logged cfg X B path ts announced st' out1)) lobby_waiting
        \<le> count_list out lobby_waiting + (if announced then 0 else 1)" for st' using Cons.IH [of announced st' out1] c by simp
    show ?thesis
    proof (cases "rr_State status = StateRunning \<and> \<not> tn_ended t")
      case True
      then show ?thesis
        using run c by (cases r)
          (simp_all add: p Finished r case_prod_unfold StateRunning_def StateLobby_def
            split: sum.split retried.split option.split bool.splits, cases announced, simp_all)
    next
      case False
      then show ?thesis
        using lobby [of st "if announced then out else eventf lobby_waiting out"] Cons.IH [of announced st out]
        by (auto simp: p Finished)
    qed
  qed (simp_all add: p)
qed simp

section \<open>Session after session\<close>

text \<open>The line between a session that has failed and the next.\<close>

definition reconnecting_line :: "log_text \<Rightarrow> session_error \<Rightarrow> string" where
  "reconnecting_line X err = ''session error (reconnecting): '' @ lt_session X err @ newline"

text \<open>Beside every session is what it has printed itself.\<close>

fun worker_sessions_logged ::
  "log_text \<Rightarrow> 'bf bloom_lib \<Rightarrow> (session_run \<times> string list) list \<Rightarrow> string list \<Rightarrow> worker_end \<times> string list" where
  "worker_sessions_logged X B [] out = (WorkerStill, out)"
| "worker_sessions_logged X B ((r, printed) # rs) out =
     (if sr_endedBefore r then (WorkerContext, out)
      else
        (case session_result B r of
           StillRunning \<Rightarrow> (WorkerStill, out @ printed)
         | SessionOver \<Rightarrow> (WorkerOver, out @ printed)
         | SessionError err \<Rightarrow>
             if sr_endedAfter r then (WorkerContext, out @ printed)
             else worker_sessions_logged X B rs (out @ printed @ [reconnecting_line X err])))"

lemma worker_sessions_logged_fst: "fst (worker_sessions_logged X B rs out) = worker_sessions B (map fst rs)"
  by (induction X B rs out rule: worker_sessions_logged.induct) (simp_all split: session_end.split)

end
