(* ===== verification/RootCopies.thy ===== *)
theory RootCopies
  imports MainProgram
begin

text \<open>
  parse.go, session.go, simulate.go and wallet_lazy.go: the package main keeps copies of functions that moved to the
  packages \<open>funded\<close> and \<open>search\<close>. The program calls the moved ones; the tests of the package main call the copies.
  The copies are modelled on their own and compared with the originals: they compute the same, with one exception,
  the test of a filter behind an interface value.
\<close>

section \<open>Rows of funded.tsv: parse.go\<close>

fun root_parseInt_loop :: "i64 \<Rightarrow> string \<Rightarrow> i64 option" where
  "root_parseInt_loop n [] = Some n"
| "root_parseInt_loop n (c # cs) =
     (if c < CHR ''0'' \<or> c > CHR ''9'' then None
      else root_parseInt_loop (n * 10 + of_nat (digit_val c)) cs)"

definition root_parseIntBytes :: "string \<Rightarrow> i64 option" where
  "root_parseIntBytes b = (if length b = 0 then None else root_parseInt_loop 0 b)"

definition root_parseTSVLine :: "string \<Rightarrow> (string \<times> i64) option" where
  "root_parseTSVLine line =
     (case IndexByte line TAB of
        None \<Rightarrow> None
      | Some tab \<Rightarrow>
          (case root_parseIntBytes (TrimSpace (drop (tab + 1) line)) of
             None \<Rightarrow> None
           | Some balance \<Rightarrow> Some (take tab line, balance)))"

lemma root_parseInt_loop_eq: "root_parseInt_loop n s = parseInt_loop n s"
  by (induction n s rule: root_parseInt_loop.induct) simp_all

lemma root_parseIntBytes_eq: "root_parseIntBytes = parseIntBytes"
  by (intro ext) (simp add: root_parseIntBytes_def parseIntBytes_def root_parseInt_loop_eq)

lemma parse_copy_agrees: "root_parseTSVLine = ParseTSVLine"
  by (intro ext) (simp only: root_parseTSVLine_def ParseTSVLine_def root_parseIntBytes_eq)

section \<open>The session file: session.go\<close>

definition root_sessionFile :: string where "root_sessionFile = ''btcfind.session''"

definition root_loadSession :: "'f session_lib \<Rightarrow> int \<Rightarrow> fs \<Rightarrow> 'f sessionState" where
  "root_loadSession J now fs =
     (case fs root_sessionFile of
        None \<Rightarrow> fresh_session J now
      | Some f \<Rightarrow>
          (case json_Unmarshal J (f_data f) of
             None \<Rightarrow> fresh_session J now
           | Some s \<Rightarrow> if StartedAt s = None then s\<lparr>StartedAt := Some now\<rparr> else s))"

definition root_resetSessionFile :: "bool \<Rightarrow> bool \<Rightarrow> fs \<Rightarrow> bool \<times> fs" where
  "root_resetSessionFile removeFails removeTmpFails fs =
     (if removeFails \<and> fs root_sessionFile \<noteq> None then (False, fs)
      else
        (let fs = fs(root_sessionFile := None); tmp = tmp_path root_sessionFile in
         if removeTmpFails \<and> fs tmp \<noteq> None then (False, fs) else (True, fs(tmp := None))))"

definition root_initForeverSession ::
  "'f session_lib \<Rightarrow> int \<Rightarrow> bool \<Rightarrow> bool \<Rightarrow> bool \<Rightarrow> fs \<Rightarrow> 'f sessionState option \<times> fs" where
  "root_initForeverSession J now rmFails rmTmpFails reset fs =
     (if reset then
        (case root_resetSessionFile rmFails rmTmpFails fs of
           (False, fs) \<Rightarrow> (None, fs)
         | (True, fs) \<Rightarrow> (Some (fresh_session J now), fs))
      else
        (let session = root_loadSession J now fs in
         (Some (if StartedAt session = None then session\<lparr>StartedAt := Some now\<rparr> else session), fs)))"

definition root_writeSession ::
  "'f session_lib \<Rightarrow> io_fault \<Rightarrow> int \<Rightarrow> int \<times> 'f sessionState \<Rightarrow> fs \<Rightarrow> os_error option \<times> fs" where
  "root_writeSession J fault mtime job fs =
     (case json_Marshal J ((snd job)\<lparr>LastCheckpoint := fst job\<rparr>) of
        None \<Rightarrow> (Some WriteError, fs)
      | Some data \<Rightarrow>
          let tmp = tmp_path root_sessionFile in
          (case fault of
             CreateFails \<Rightarrow> (Some CreateError, fs)
           | WriteFails \<Rightarrow> (Some WriteError, fs(tmp \<mapsto> \<lparr>f_data = [], f_mtime = mtime\<rparr>))
           | CloseFails \<Rightarrow> (Some CloseError, fs(tmp \<mapsto> \<lparr>f_data = data, f_mtime = mtime\<rparr>))
           | RenameFails \<Rightarrow> (Some RenameError, fs(tmp \<mapsto> \<lparr>f_data = data, f_mtime = mtime\<rparr>))
           | NoFault \<Rightarrow> (None, fs(tmp := None, root_sessionFile \<mapsto> \<lparr>f_data = data, f_mtime = mtime\<rparr>))))"

lemma root_sessionFile_eq: "root_sessionFile = sessionFile"
  by (simp only: root_sessionFile_def sessionFile_def)

lemma session_copy_agrees:
  "root_initForeverSession J now rmFails rmTmpFails reset fs = initForeverSession J now rmFails rmTmpFails reset fs"
  "root_writeSession J fault mtime job fs = writeSession J fault mtime job fs"
  by (simp_all only: root_initForeverSession_def initForeverSession_def root_resetSessionFile_def
      resetSessionFile_def root_loadSession_def loadSession_def root_writeSession_def writeSession_def
      root_sessionFile_eq)

section \<open>Deriving in stages: wallet_lazy.go\<close>

definition root_bloomTest20 :: "'bf bloom_lib \<Rightarrow> 'bf option \<Rightarrow> hash20 \<Rightarrow> bool" where
  "root_bloomTest20 B bf key = (case bf of None \<Rightarrow> False | Some f \<Rightarrow> bloom_Test B f (array_bytes key))"

definition root_hash160BloomMaybe :: "'bf bloom_lib \<Rightarrow> 'bf Sets \<Rightarrow> LookupKeys \<Rightarrow> FormatMask \<Rightarrow> bool" where
  "root_hash160BloomMaybe B s keys fm =
     (if LegacyCompressed fm \<and> root_bloomTest20 B (LegacyBloom s) (CompressedHash keys) then True
      else if Segwit fm \<and> root_bloomTest20 B (SegwitV0Bloom s) (CompressedHash keys) then True
      else if LegacyUncompressed fm \<and> root_bloomTest20 B (LegacyBloom s) (UncompressedHash keys) then True
      else if P2SH fm \<and> root_bloomTest20 B (P2SHBloom s) (P2SHHash keys) then True
      else False)"

definition root_shouldDeriveTaproot :: "'bf bloom_lib \<Rightarrow> 'bf Sets \<Rightarrow> LookupKeys \<Rightarrow> FormatMask \<Rightarrow> bool" where
  "root_shouldDeriveTaproot B s keys fm =
     (if \<not> Taproot fm \<or> length (sTaprootV1 s) = 0 then False
      else if \<not> LegacyCompressed fm \<and> \<not> LegacyUncompressed fm \<and> \<not> Segwit fm \<and> \<not> P2SH fm then True
      else root_hash160BloomMaybe B s keys fm)"

definition root_deriveKeysStaged ::
  "('priv, 'pub) crypto_lib \<Rightarrow> 'bf bloom_lib \<Rightarrow> 'pub \<Rightarrow> 'bf Sets \<Rightarrow> FormatMask \<Rightarrow> LookupKeys" where
  "root_deriveKeysStaged C B pubKey s fm =
     (let keys = zero_keys;
          keys = (if NeedsCompressedPubkeyHash fm
            then keys\<lparr>CompressedHash := Hash160 C (c_SerializeCompressed C pubKey)\<rparr> else keys);
          keys = (if P2SH fm \<and> NeedsCompressedPubkeyHash fm \<and> length (sP2SH s) > 0
            then keys\<lparr>P2SHHash := Hash160 C (redeemScript (CompressedHash keys))\<rparr> else keys);
          keys = (if LegacyUncompressed fm \<and> length (sLegacy s) > 0
            then keys\<lparr>UncompressedHash := Hash160 C (c_SerializeUncompressed C pubKey)\<rparr> else keys)
      in if root_shouldDeriveTaproot B s keys fm
         then keys\<lparr>TaprootKey := copy_array (c_SerializePubKey C (c_ComputeTaprootKeyNoScript C pubKey))\<rparr>
         else keys)"

definition root_genWalletStaged ::
  "('priv, 'pub) crypto_lib \<Rightarrow> 'bf bloom_lib \<Rightarrow> 'priv option \<Rightarrow> 'bf Sets \<Rightarrow> FormatMask \<Rightarrow> Wallet option" where
  "root_genWalletStaged C B drawn s fm =
     (case drawn of None \<Rightarrow> None
      | Some privKey \<Rightarrow> Some \<lparr>PrivKey = c_Serialize C privKey,
          Keys = root_deriveKeysStaged C B (c_PubKey C privKey) s fm\<rparr>)"

lemma root_shouldDeriveTaproot_eq: "root_shouldDeriveTaproot = shouldDeriveTaproot"
  by (intro ext) (simp add: root_shouldDeriveTaproot_def shouldDeriveTaproot_def
      root_hash160BloomMaybe_def hash160BloomMaybe_def root_bloomTest20_def bloomTest20_def)

lemma derive_copy_agrees: "root_genWalletStaged C B drawn s fm = genWalletStaged C B drawn s fm"
  by (simp add: root_genWalletStaged_def genWalletStaged_def root_deriveKeysStaged_def
      deriveKeysStaged_def staged_hashes_def root_shouldDeriveTaproot_eq Let_def split: option.split)

section \<open>The simulation options: simulate.go\<close>

definition root_applyInjectIndexHit ::
  "addr_lib \<Rightarrow> 'bf Sets \<Rightarrow> LookupKeys \<Rightarrow> string \<Rightarrow> search_error + (LookupKeys \<times> string)" where
  "root_applyInjectIndexHit L s keys bucket =
     (if bucket = ''legacy'' then
        (if length (sLegacy s) = 0 then Inl (BucketEmpty ''legacy'')
         else Inr (keys\<lparr>CompressedHash := sLegacy s ! 0\<rparr>, EncodePubKeyHash L (sLegacy s ! 0)))
      else if bucket = ''legacy-uncompressed'' then
        (if length (sLegacy s) = 0 then Inl (BucketEmpty ''legacy'')
         else Inr (keys\<lparr>UncompressedHash := sLegacy s ! 0\<rparr>, EncodePubKeyHash L (sLegacy s ! 0)))
      else if bucket = ''p2sh'' then
        (if length (sP2SH s) = 0 then Inl (BucketEmpty ''p2sh'')
         else Inr (keys\<lparr>P2SHHash := sP2SH s ! 0\<rparr>, EncodeScriptHash L (sP2SH s ! 0)))
      else if bucket = ''segwit'' then
        (if length (sSegwitV0 s) = 0 then Inl (BucketEmpty ''segwit'')
         else Inr (keys\<lparr>CompressedHash := sSegwitV0 s ! 0\<rparr>, EncodeWitnessPubKeyHash L (sSegwitV0 s ! 0)))
      else if bucket = ''taproot'' then
        (if length (sTaprootV1 s) = 0 then Inl (BucketEmpty ''taproot'')
         else Inr (keys\<lparr>TaprootKey := sTaprootV1 s ! 0\<rparr>, EncodeTaprootKey L (sTaprootV1 s ! 0)))
      else Inl (UnknownBucket bucket))"

lemma inject_copy_agrees: "root_applyInjectIndexHit L s keys bucket = applyInjectIndexHit L s keys bucket"
  by (simp only: root_applyInjectIndexHit_def applyInjectIndexHit_def)

text \<open>Here the copies part. \<open>lookupHit20\<close> takes its filter as an interface value: \<open>None\<close> is the nil interface, \<open>Some p\<close>
  holds the pointer \<open>p\<close>, which may itself be nil (\<open>Some None\<close>) and then passes the test \<open>bf != nil\<close>. What the package
  \<open>bloom\<close> does for a call of \<open>Test\<close> on a nil pointer is the parameter \<open>onNil\<close>; \<open>None\<close> is a panic.\<close>

type_synonym 'bf iface = "'bf option option"

definition iface_Test :: "'bf bloom_lib \<Rightarrow> (u8 list \<Rightarrow> bool option) \<Rightarrow> 'bf option \<Rightarrow> u8 list \<Rightarrow> bool option" where
  "iface_Test B onNil p data = (case p of None \<Rightarrow> onNil data | Some f \<Rightarrow> Some (bloom_Test B f data))"

definition root_lookupHit20 ::
  "'bf bloom_lib \<Rightarrow> (u8 list \<Rightarrow> bool option) \<Rightarrow> 'bf iface \<Rightarrow> hash20 list \<Rightarrow> hash20 \<Rightarrow> bool option" where
  "root_lookupHit20 B onNil bf tbl key =
     (case bf of
        None \<Rightarrow> Some (InFunded20 tbl key)
      | Some p \<Rightarrow> map_option (\<lambda>t. if \<not> t then False else InFunded20 tbl key)
          (iface_Test B onNil p (array_bytes key)))"

definition root_lookupHit32 ::
  "'bf bloom_lib \<Rightarrow> (u8 list \<Rightarrow> bool option) \<Rightarrow> 'bf iface \<Rightarrow> hash32 list \<Rightarrow> hash32 \<Rightarrow> bool option" where
  "root_lookupHit32 B onNil bf tbl key =
     (case bf of
        None \<Rightarrow> Some (InFunded32 tbl key)
      | Some p \<Rightarrow> map_option (\<lambda>t. if \<not> t then False else InFunded32 tbl key)
          (iface_Test B onNil p (array_bytes key)))"

fun root_matchKindName :: "MatchKind \<Rightarrow> string" where
  "root_matchKindName MatchLegacyCompressed = ''legacy_compressed''"
| "root_matchKindName MatchLegacyUncompressed = ''legacy_uncompressed''"
| "root_matchKindName MatchSegwitV0 = ''segwit_v0''"
| "root_matchKindName MatchP2SH = ''p2sh''"
| "root_matchKindName MatchTaproot = ''taproot''"
| "root_matchKindName MatchKindOther = ''unknown''"

text \<open>The five tests are arguments of one call of \<open>Printf\<close>; each passes a field of type \<open>*bloom.BloomFilter\<close>, so the
  interface value is never nil.\<close>

definition printLookupVerify ::
  "'bf bloom_lib \<Rightarrow> (u8 list \<Rightarrow> bool option) \<Rightarrow> 'bf Sets \<Rightarrow> LookupKeys \<Rightarrow> MatchKind \<Rightarrow> bool \<Rightarrow> UI \<Rightarrow> UI option" where
  "printLookupVerify B onNil s keys realKind realHit u =
     (case root_lookupHit20 B onNil (Some (LegacyBloom s)) (sLegacy s) (CompressedHash keys) of None \<Rightarrow> None
      | Some lc \<Rightarrow>
     (case root_lookupHit20 B onNil (Some (LegacyBloom s)) (sLegacy s) (UncompressedHash keys) of None \<Rightarrow> None
      | Some lu \<Rightarrow>
     (case root_lookupHit20 B onNil (Some (SegwitV0Bloom s)) (sSegwitV0 s) (CompressedHash keys) of None \<Rightarrow> None
      | Some sw \<Rightarrow>
     (case root_lookupHit20 B onNil (Some (P2SHBloom s)) (sP2SH s) (P2SHHash keys) of None \<Rightarrow> None
      | Some ps \<Rightarrow>
     (case root_lookupHit32 B onNil (Some (TaprootV1Bloom s)) (sTaprootV1 s) (TaprootKey keys) of None \<Rightarrow> None
      | Some tr \<Rightarrow>
          let u = PrintfErr (''lookup verify: legacy_compressed='' @ bool_text lc @ '' legacy_uncompressed='' @
                bool_text lu @ '' segwit_v0='' @ bool_text sw @ '' p2sh='' @ bool_text ps @ '' taproot='' @
                bool_text tr @ '' real_match='' @ bool_text realHit) u;
              u = (if realHit then PrintfErr ('' kind='' @ root_matchKindName realKind) u else u)
          in Some (PrintlnErr '''' u))))))"

definition root_simulateDisplayKind :: "LookupKeys \<Rightarrow> MatchKind \<Rightarrow> bool \<Rightarrow> MatchKind" where
  "root_simulateDisplayKind keys matchedKind matched =
     (if matched then matchedKind else MatchLegacyCompressed)"

lemma root_matchKindName_eq [simp]: "root_matchKindName = MatchKindName"
proof
  show "root_matchKindName k = MatchKindName k" for k by (cases k) simp_all
qed

lemma root_lookup_present [simp]:
  "root_lookupHit20 B onNil (Some (Some f)) tbl k = Some (LookupHit20 B (Some f) tbl k)"
  "root_lookupHit32 B onNil (Some (Some f)) tbl' k' = Some (LookupHit32 B (Some f) tbl' k')"
  by (simp_all add: root_lookupHit20_def root_lookupHit32_def iface_Test_def LookupHit20_def LookupHit32_def)

lemma root_lookup_nil [simp]:
  "root_lookupHit20 B (\<lambda>_. None) (Some None) tbl k = None"
  "root_lookupHit32 B (\<lambda>_. None) (Some None) tbl' k' = None"
  by (simp_all add: root_lookupHit20_def root_lookupHit32_def iface_Test_def)

text \<open>The line of \<open>--verify-lookup\<close> as the hook of the main program writes it.\<close>

definition hook_verify :: "LookupVerifyEvent \<Rightarrow> UI \<Rightarrow> UI" where
  "hook_verify ev u = PrintlnErr ''''
     (let u = PrintfErr (verify_line ev) u
      in if lv_RealMatch ev then PrintfErr ('' kind='' @ lv_KindName ev) u else u)"

lemma main_hook_verify:
  "emitLookupVerify B (mainSearchHooks L T formatWIF env) s keys realKind realHit (Some (u, fs)) =
    Some (hook_verify (lookup_verify_event B s keys realKind realHit) u, fs)"
  by (simp add: emitLookupVerify_def mainSearchHooks_def on_ui_def hook_verify_def)

text \<open>Where the test of a nil filter panics, the copy panics on every index with an empty table, whose filter is nil;
  on an index with all four filters it writes exactly what the hook of the main program writes.\<close>

theorem verify_copy_panics:
  "printLookupVerify B (\<lambda>_. None) s keys realKind realHit u =
    (if LegacyBloom s = None \<or> P2SHBloom s = None \<or> SegwitV0Bloom s = None \<or> TaprootV1Bloom s = None then None
     else map_option fst (emitLookupVerify B (mainSearchHooks L T formatWIF env) s keys realKind realHit
       (Some (u, fs))))"
  unfolding main_hook_verify
  by (cases "LegacyBloom s"; cases "SegwitV0Bloom s"; cases "P2SHBloom s"; cases "TaprootV1Bloom s")
    (simp_all add: printLookupVerify_def hook_verify_def verify_line_def lookup_verify_event_def)

end
