(* ===== verification/RootForwards.thy ===== *)
theory RootForwards
  imports MainProgram
begin

text \<open>
  funded_builder.go, funded_cache.go, funded_download.go, funded_index.go, funded_mmap.go: the package main forwards to
  the package \<open>funded\<close> under the names the functions had before they moved. Only \<open>ensureFunded\<close> does something of
  its own: it panics where the main program goes on.
\<close>

section \<open>Forwards\<close>

definition defaultMinBalanceSats :: u64 where "defaultMinBalanceSats = DefaultMinBalanceSats"

definition matchFunded :: "'bf bloom_lib \<Rightarrow> 'bf Sets \<Rightarrow> LookupKeys \<Rightarrow> FormatMask \<Rightarrow> MatchKind \<times> bool" where
  "matchFunded B sets keys fm = Match B sets keys fm"

definition newFundedBuilder :: "u64 \<Rightarrow> Builder" where "newFundedBuilder m = NewBuilder m"

definition fundedCacheFile :: string where "fundedCacheFile = DefaultCacheFile"

definition fundedCachePath :: "u64 \<Rightarrow> string" where "fundedCachePath m = CachePath m"

definition writeFundedCache ::
  "'bf bloom_lib \<Rightarrow> io_fault \<Rightarrow> int \<Rightarrow> string \<times> 'bf Sets \<times> int \<Rightarrow> fs \<Rightarrow> cache_error option \<times> fs" where
  "writeFundedCache B fault now job fs = WriteCache B fault now job fs"

definition readFundedCache :: "'bf bloom_lib \<Rightarrow> fs \<Rightarrow> string \<Rightarrow> int \<Rightarrow> u64 \<Rightarrow> cache_error + 'bf Sets" where
  "readFundedCache B fs path expectedMtime m = ReadCache B fs path expectedMtime m"

definition removeFundedCache :: "bool \<Rightarrow> fs \<Rightarrow> fs" where
  "removeFundedCache osFails fs = snd (RemoveCache osFails fundedCacheFile fs)"

definition fundedFile :: string where "fundedFile = DefaultTSVFile"

definition fundedDownloadURL :: string where "fundedDownloadURL = DownloadURL"

definition unmapActiveCache :: "mapping \<Rightarrow> mapping" where "unmapActiveCache act = UnmapActive act"

definition mmapFundedCache ::
  "'bf bloom_lib \<Rightarrow> bool \<Rightarrow> fs \<Rightarrow> string \<Rightarrow> int \<Rightarrow> u64 \<Rightarrow> mapping \<Rightarrow> (cache_error + 'bf Sets) \<times> mapping" where
  "mmapFundedCache B mmapFails fs path expectedMtime m act =
     MmapLoad B mmapFails fs path expectedMtime m act"

section \<open>The one that panics\<close>

text \<open>The files and the terminal, or a panic with the error.\<close>

definition ensureFunded ::
  "'f text_lib \<Rightarrow> 'bf rep_text \<Rightarrow> ensure_clock \<Rightarrow> web \<Rightarrow> bool \<Rightarrow> io_fault \<Rightarrow> bool \<Rightarrow> int \<Rightarrow> fs \<Rightarrow> UI \<Rightarrow>
     download_error + fs \<times> UI option" where
  "ensureFunded T X clk w statFails fault removeFails now fs u =
     (case EnsureTSV_reported (Some (mainReporter T)) X clk w statFails fault removeFails now fs (Some u) of
        ((Some err, fs), u) \<Rightarrow> Inl err
      | ((None, fs), u) \<Rightarrow> Inr (fs, u))"

text \<open>Where \<open>ensureFunded\<close> panics the main program goes on: a funded.tsv that is there
  is loaded although the update that was asked for has failed.\<close>

theorem failed_update_goes_on:
  fixes J :: "'f session_lib"
  assumes "ensureFunded T X (mn_ensureClock env) (mn_web env) (mn_tsvStatFails env) (mn_tsvFault env) (mn_rmFails env)
      (mn_tsvNow env) fs u = Inl err"
    and "parseCLI dur args = Inr cfg"
  obtains u0 fs1 where
    "EnsureTSV (mn_web env) (mn_tsvStatFails env) (mn_tsvFault env) (mn_rmFails env) (mn_tsvNow env) fs = (Some err, fs1)"
    "btcfind_main L B J rate T X formatWIF dur env args arrivals fs =
      (case Load L B (mn_load env) (funded_opts (minBalance cfg)) fs1 None of
         (Inl e, fs, act) \<Rightarrow> (LoadPanic e, fs)
       | (Inr sets, fs, act) \<Rightarrow> main_search L B J rate T formatWIF env cfg arrivals sets u0 fs)"
proof -
  have "fst (EnsureTSV (mn_web env) (mn_tsvStatFails env) (mn_tsvFault env) (mn_rmFails env) (mn_tsvNow env) fs) =
      Some err"
    using assms(1) EnsureTSV_reported_fst [of "Some (mainReporter T)" X "mn_ensureClock env" "mn_web env"
      "mn_tsvStatFails env" "mn_tsvFault env" "mn_rmFails env" "mn_tsvNow env" fs "Some u"]
    by (auto simp: ensureFunded_def split: prod.splits option.splits)
  then obtain fs1 where e: "EnsureTSV (mn_web env) (mn_tsvStatFails env) (mn_tsvFault env) (mn_rmFails env)
      (mn_tsvNow env) fs = (Some err, fs1)"
    by (metis prod.collapse)
  show ?thesis
    by (rule main_reporter_lives [OF assms(2), of fs1 env fs L B J rate T X formatWIF arrivals])
      (use e that in auto)
qed

end
