(* ===== verification/Spec2Isabelle.thy ===== *)
theory Spec2Isabelle
  imports HitSound Download MainSamples RunSamples WorkerLog RootCopies RootForwards
begin

text \<open>
  btcfind: a search for private keys of funded Bitcoin addresses, in Go.

  The program draws random keys, derives the hashes under which a key can be paid (P2PKH compressed and
  uncompressed, native SegWit, P2SH-wrapped SegWit, Taproot) and looks them up in an index of funded addresses,
  which it builds from the rows of funded.tsv and keeps in a binary cache file. A key that matches is a hit: it is
  printed and appended to wallets.txt. The search runs alone (the main program at the root of src/) or on a cluster:
  a coordinator (coordinator/, cmd/btcfind-coordinator) loads the index, serves its cache and the configuration of
  the run over HTTP and collects statistics and hits; workers (worker/, cmd/btcfind-worker) register, download the
  cache, search while the coordinator's run is on, and post what they find.

  Theories, from the library up; the Go files are under src/.

  \<^item> \<open>Prelude\<close>: the machine types, byte arrays of fixed length with their order, results as sums (\<open>bindR\<close>), and facts
    on lists and association lists. \<open>GoStd\<close>: what the code uses of Go's standard library.
  \<^item> \<open>Formats\<close> (bitcoin/formats.go, cluster/api.go): the mask of address formats, its parsers and printers.
    \<open>TsvParse\<close> (funded/parse.go): one row. \<open>Address\<close> (bitcoin/encode.go, decode.go): addresses of hashes and back.
  \<^item> \<open>Index\<close> (funded/sets.go): sorted tables with balances behind Bloom filters. The interface \<open>sorted_table\<close> of the
    two lookups and \<open>filtered_table\<close> of the filtered ones are interpreted for both hash widths. \<open>Builder\<close>
    (funded/builder.go, load.go): the maps the rows go into, and the scanner.
  \<^item> \<open>FileSys\<close>: files as a map from paths, the failure points of a write, and the interface \<open>atomic_writer\<close>, which
    the cache, the session, funded.tsv and the worker's download provide. \<open>Cache\<close>, \<open>CacheCorrect\<close> (funded/cache.go,
    mmap.go): the file format, its encoder and decoder. \<open>Load\<close> (funded/load.go): cache or TSV. \<open>HitSound\<close>: what a
    match against a loaded index means. \<open>Download\<close> (funded/download.go): keeping funded.tsv up to date. \<open>Reporter\<close>
    (funded/reporter.go): what these operations report, the operations with the state of a reporter threaded through.
    \<open>ReporterLaws\<close>: the interface \<open>kept_by_reporter\<close>, by which what every method of a reporter keeps is kept by loading;
    the main program's reporter (\<open>MainReporter\<close>) provides it.
  \<^item> \<open>Derive\<close> (bitcoin/lookup.go, wallets.go, search/workers.go): the keys of a wallet, in stages. \<open>Process\<close>
    (search/config.go, hooks.go, process.go): one wallet; a hook is a function on the state of the caller.
    \<open>Search\<close> (search/workers.go, run.go): the bounded run. \<open>Session\<close> (search/run.go): the forever run and its file.
    \<open>HookViews\<close>: the interface \<open>hook_view\<close>, by which the run of any caller whose hooks only take hits is the
    recorded run with its hits replayed; the worker and the main program provide it.
  \<^item> \<open>Text\<close>: pieces of printed text. \<open>Cli\<close> (cli.go), \<open>Output\<close> (output.go, wallet_log.go), \<open>MainReporter\<close> and
    \<open>MainProgram\<close> (cryptogen.go): the command line, the terminal and log, and the main program from its arguments to
    the files it leaves. \<open>RootCopies\<close> (parse.go, session.go, simulate.go, wallet_lazy.go): the copies in the package
    main of functions of the other packages, which its tests call and the program does not; they agree with the
    originals but for one panic. \<open>RootForwards\<close> (funded_*.go): its forwards to the package \<open>funded\<close>.
  \<^item> \<open>CoordPrint\<close>, \<open>CoordUI\<close> (ui.go): the terminal of the coordinator and its dashboard. \<open>Lobby\<close>, \<open>Hits\<close>
    (coordinator/config.go, lobby.go, hits.go): the state of the coordinator, an operation per locked method, with what
    it prints. \<open>Cluster\<close>: its reachable states, as a step relation. \<open>RateLimit\<close> (limits.go), \<open>Api\<close> (auth.go,
    handlers.go): requests. \<open>Coordinator\<close> (server.go): the start. \<open>CoordRun\<close> (server.go): the running coordinator; its
    main goroutine, its requests, ticks and signals are the events of \<open>coord_step\<close>, in any order, and \<open>coord_run\<close> is a
    sequence of them. \<open>CoordLog\<close>: what such a run counts and keeps.
  \<^item> \<open>Client\<close>, \<open>Worker\<close>, \<open>WorkerHits\<close> (worker/client.go, config.go, run.go): retry loops and cache download, the
    session of a worker and its search. \<open>WorkerLog\<close> (log.go): the same with the lines they print. \<open>Programs\<close> (cmd/): both
    programs from their flags, and the client's calls as requests.
  \<^item> \<open>ClusterEnd\<close>, \<open>Outage\<close>: a worker and its coordinator together, in a run that goes well and after an outage.
    \<open>Prompts\<close>: the question of \<open>EnsureTSV\<close> on both terminals.
  \<^item> \<open>ClusterSamples\<close>, \<open>MainSamples\<close>, \<open>ProgramSamples\<close>, \<open>RunSamples\<close>: concrete inputs at which the theorems apply.
\<close>

text \<open>
  What the theorems show.

  \<^item> The index: parsing refines the rows (per payload the largest balance above the minimum), loading gives that
    index whether the cache is missing, stale, damaged or good, the cache round-trips and no truncated cache is
    read; \<open>Match\<close> is the first selected format whose key is in its table. Together: a match stands for a row of
    funded.tsv with the reported balance and an address that decodes to the matched hash, and no row is missed.
  \<^item> The search: a run is processing wallets one after the other, with consecutive indices, however they are
    batched and checkpointed; it accounts for every key, ends for its limit, an error or the context, and its
    session resumes. The staged derivation matches as the full one does, except for a stated gap.
  \<^item> The main program: what it accepts on its command line, that it returns, and that its log holds a block for
    every real hit of exactly the keys asked for. Its reporter never panics and does not change what loading does.
  \<^item> The coordinator: an invariant of every reachable state, that requests are operations and those without the token
    do nothing, the bound of the rate limit, that hits are logged once. A run of all its goroutines, in any order, serves
    the phase of its main goroutine, which only moves forward; it ends in three turns once the context is cancelled; its
    last line is the sum of what was reported since the start; and every hit answered with success is in wallets.txt.
  \<^item> The cluster: a worker loads the tables the coordinator parsed, searches only an index with the announced tag
    and the offered formats, posts every hit, its reports sum to its total, its requests reach their handlers, it
    announces every retry, and it reconnects until the run is over. Together: once the posts of a worker have returned,
    the coordinator's wallets.txt holds a block for the address of every hit among the wallets the worker tried.

  Where the code departs from what it means to do, a theorem says how: the skipped Taproot key (\<open>Derive\<close>), the
  worker that is silent for too long (\<open>slow_sync_hangs\<close>, and for good in \<open>Outage\<close>), \<open>late_report_hangs\<close>,
  \<open>Sort_misaligns_balances\<close>, \<open>failed_write_loses_hit\<close>, \<open>rate_limit_bypass\<close>, \<open>lobby_exceeds_limit\<close>,
  \<open>heartbeat_hides_rate\<close>, \<open>lobby_ignores_interrupt\<close>, \<open>lost_listener\<close>, the unseen question (\<open>Prompts\<close>),
  \<open>failed_update_goes_on\<close>, \<open>frame_cuts_wif\<close>, \<open>cluster_frame_cuts_wif\<close>, \<open>verify_copy_panics\<close>.

  Conventions. Go's \<open>uint64\<close> and key indices are 64-bit words that wrap; counts of the command line and times
  (nanoseconds) are integers with their ranges stated. A panic or an error is a value. A loop that waits for the
  outside is driven by the list of what it meets and has the result \<open>None\<close>, or says that it is still running, when
  the list is used up: no fuel is chosen, and the theorems that something returns say for which lists. The other
  loops are structural or have a measure. Goroutines that share state under a lock are sequences of its operations;
  those of a worker are modelled by the order of their effects. An operation with the suffix \<open>_reported\<close> or \<open>_logged\<close>
  is the one without it, together with what it prints; a lemma with the suffix \<open>_fst\<close> says that its result is the same.

  Parameters, with the documented behaviour the proofs use as named hypotheses: \<open>addr_lib\<close> (base58, bech32 and the
  address package; \<open>address_laws\<close>), \<open>bloom_lib\<close> (the filter; \<open>bloom_laws\<close>, \<open>bloom_lossless\<close>, \<open>bloom_storable\<close>),
  \<open>crypto_lib\<close> (the curve and hashes), \<open>session_lib\<close> and \<open>api_json\<close> (JSON; \<open>session_laws\<close>), \<open>float_lib\<close>, \<open>text_lib\<close>
  and the functions named \<open>rate\<close> (floating point, which the code uses only for rates and progress), \<open>net_lib\<close> (IP
  addresses), \<open>client_lib\<close> (TLS and URLs), \<open>web\<close> (the download server), \<open>rep_text\<close> and \<open>log_text\<close> (printed times, errors
  and floats), and the parser of durations. Each property with such a hypothesis is applied to a concrete instance.

  Not modelled: the goroutines and channels themselves, the HTTP, TLS and terminal packages, operating-system
  signals, the parsing of flags by the package \<open>flag\<close>, \<open>formatWIF\<close> (a wrapper of a package), the usage text, and the
  races on the client's backoff, which several goroutines of a worker read and write without a lock: every request of
  the model has the backoff it starts with as an argument.
\<close>

end
